theory Spec2Isabelle
  imports Complex_Main "HOL-Library.List_Lexorder"
begin

section \<open>JavaScript values used by the KSeF service\<close>

text \<open>
  A JavaScript string is a sequence of UTF-16 code units; a Buffer is a sequence of
  octets. Both are lists of naturals here. \<open>lit\<close> turns an ASCII literal of the
  source into its code units.
\<close>

type_synonym jsstring = "nat list"
type_synonym bytes = "nat list"

definition lit :: "string \<Rightarrow> jsstring" where
  "lit s = map of_char s"

text \<open>
  Numbers that hold a time in milliseconds: an integer, or \<open>NaN\<close> (the time value of
  an invalid \<open>Date\<close>). \<open>0\<close> and \<open>NaN\<close> are falsy; the empty string, \<open>null\<close> and
  \<open>undefined\<close> (\<open>None\<close>) are falsy.
\<close>

datatype jsnum = Num int | NaN

fun truthy_num :: "jsnum option \<Rightarrow> bool" where
  "truthy_num None = False"
| "truthy_num (Some NaN) = False"
| "truthy_num (Some (Num n)) = (n \<noteq> 0)"

fun truthy_str :: "jsstring option \<Rightarrow> bool" where
  "truthy_str None = False"
| "truthy_str (Some s) = (s \<noteq> [])"

text \<open>\<open>a - b < c\<close> on numbers: any comparison with \<open>NaN\<close> is false.\<close>

fun diff_less :: "jsnum \<Rightarrow> jsnum \<Rightarrow> int \<Rightarrow> bool" where
  "diff_less (Num a) (Num b) c = (a - b < c)"
| "diff_less _ _ _ = False"

fun num_greater :: "jsnum \<Rightarrow> jsnum \<Rightarrow> bool" where
  "num_greater (Num a) (Num b) = (a > b)"
| "num_greater _ _ = False"

text \<open>
  The result of an awaited axios call: the promise resolves with the response body
  (\<open>response.data\<close>, \<open>None\<close> when it is empty), or rejects with an error whose
  \<open>error.response?.status\<close> is the HTTP status (\<open>None\<close> when there was no response).
\<close>

datatype 'a http = Resolved "'a option" | Rejected "nat option"

text \<open>What an async function of the service does at its public interface.\<close>

datatype 'a completion = Returns 'a | Throws

section \<open>String operations of the runtime\<close>

text \<open>
  \<open>s.split(d)\<close> for a one-character separator, \<open>s.startsWith(p)\<close>,
  \<open>s.includes(p)\<close>, and \<open>s.replace(p, r)\<close> for a string pattern \<open>p\<close> and a
  replacement \<open>r\<close> without \<open>$\<close>: only the first occurrence is replaced.
\<close>

fun split_on :: "'a \<Rightarrow> 'a list \<Rightarrow> 'a list list" where
  "split_on d [] = [[]]"
| "split_on d (c # cs) =
     (if c = d then [] # split_on d cs
      else (case split_on d cs of p # ps \<Rightarrow> (c # p) # ps | [] \<Rightarrow> [[c]]))"

definition startsWith :: "'a list \<Rightarrow> 'a list \<Rightarrow> bool" where
  "startsWith s p = (take (length p) s = p)"

fun includes_str :: "'a list \<Rightarrow> 'a list \<Rightarrow> bool" where
  "includes_str [] p = (p = [])"
| "includes_str (c # cs) p = (startsWith (c # cs) p \<or> includes_str cs p)"

fun replace_first :: "'a list \<Rightarrow> 'a list \<Rightarrow> 'a list \<Rightarrow> 'a list" where
  "replace_first p r [] = (if p = [] then r else [])"
| "replace_first p r (c # cs) =
     (if startsWith (c # cs) p then r @ drop (length p) (c # cs)
      else c # replace_first p r cs)"

fun join :: "'a list \<Rightarrow> 'a list list \<Rightarrow> 'a list" where
  "join d [] = []"
| "join d [x] = x"
| "join d (x # y # ys) = x @ d @ join d (y # ys)"

text \<open>
  \<open>s.trim()\<close> removes the code units of the ECMAScript classes WhiteSpace and
  LineTerminator from both ends.
\<close>

definition is_line_terminator :: "nat \<Rightarrow> bool" where
  "is_line_terminator c = (c \<in> {0x0A, 0x0D, 0x2028, 0x2029})"

definition is_white_space :: "nat \<Rightarrow> bool" where
  "is_white_space c =
     (c \<in> {0x09, 0x0B, 0x0C, 0x20, 0xA0, 0x1680, 0x202F, 0x205F, 0x3000, 0xFEFF}
      \<or> (0x2000 \<le> c \<and> c \<le> 0x200A) \<or> is_line_terminator c)"

definition trim :: "jsstring \<Rightarrow> jsstring" where
  "trim s = rev (dropWhile is_white_space (rev (dropWhile is_white_space s)))"

text \<open>
  \<open>s.toLowerCase()\<close> on the letters A to Z. Code units outside ASCII are left as
  they are: none of them lower-cases to a letter of \<open>application/json\<close>, the only
  string a lower-cased value is searched for.
\<close>

definition toLowerCase :: "jsstring \<Rightarrow> jsstring" where
  "toLowerCase s = map (\<lambda>c. if 65 \<le> c \<and> c \<le> 90 then c + 32 else c) s"

text \<open>
  The string a template literal makes of a number. Integers print in decimal; this is
  what JavaScript prints for every integer of magnitude below \<open>10^21\<close>, which
  covers every time value a \<open>Date\<close> can hold.
\<close>

fun digits :: "nat \<Rightarrow> jsstring" where
  "digits n = (if n < 10 then [48 + n] else digits (n div 10) @ [48 + n mod 10])"

fun numberToString :: "jsnum \<Rightarrow> jsstring" where
  "numberToString NaN = lit ''NaN''"
| "numberToString (Num n) = (if n < 0 then 45 # digits (nat (- n)) else digits (nat n))"

text \<open>
  \<open>s.match(/.{1,64}/g)\<close>: the successive longest runs of at most 64 code units
  that are not line terminators. JavaScript returns \<open>null\<close> where this list is empty.
\<close>

function regex_chunks64 :: "jsstring \<Rightarrow> jsstring list" where
  "regex_chunks64 s =
     (case dropWhile is_line_terminator s of
        [] \<Rightarrow> []
      | c # cs \<Rightarrow> (let m = take 64 (takeWhile (\<lambda>x. \<not> is_line_terminator x) (c # cs))
                  in m # regex_chunks64 (drop (length m) (c # cs))))"
  by pat_completeness auto
termination
proof (relation "measure length")
  show "wf (measure length)" by simp
next
  fix s :: jsstring and c cs m
  assume d: "dropWhile is_line_terminator s = c # cs"
    and m: "m = take 64 (takeWhile (\<lambda>x. \<not> is_line_terminator x) (c # cs))"
  have "\<not> is_line_terminator c"
    using d by (metis hd_dropWhile list.sel(1) list.distinct(1))
  then have "0 < length m" using m by simp
  moreover have "length (c # cs) \<le> length s"
    using d by (metis length_dropWhile_le)
  moreover have "0 < length (c # cs)"
    by simp
  ultimately have "length (c # cs) - length m < length s"
    by arith
  then show "(drop (length m) (c # cs), s) \<in> measure length"
    by simp
qed

section \<open>Data exchanged with the remote API and the local store\<close>

text \<open>
  Response bodies are objects whose fields may be missing (\<open>None\<close>). An element of
  a response array may be \<open>null\<close> (\<open>None\<close>): reading a property of it throws.
\<close>

record certificate_entry =
  cert_usage :: "jsstring list option"
  cert_certificate :: "jsstring option"

record ChallengeResponse =
  cr_challenge :: "jsstring option"
  cr_timestamp :: "jsstring option"
  cr_timestampMs :: "jsnum option"

record ChallengeData =
  cd_challenge :: jsstring
  cd_timestampMs :: jsnum

record token_object =
  tok_token :: "jsstring option"
  tok_validUntil :: "jsstring option"

record AuthTokenResponse =
  atr_referenceNumber :: "jsstring option"
  atr_authenticationToken :: "token_object option"

record auth_status =
  status_code :: "int option"
  status_description :: "jsstring option"

text \<open>
  One answer of the status endpoint: how long the request took, what came back
  (\<open>Resolved None\<close> is a body without a \<open>status\<close> object), and by how much the
  500 ms timer that follows it fires late.
\<close>

record poll_reply =
  poll_latency :: nat
  poll_outcome :: "auth_status http"
  poll_overrun :: nat

record md_seller =
  md_seller_nip :: "jsstring option"
  md_seller_name :: "jsstring option"

record InvoiceMetadata =
  md_ksefNumber :: "jsstring option"
  md_ksefReferenceNumber :: "jsstring option"
  md_invoiceNumber :: "jsstring option"
  md_issueDate :: "jsstring option"
  md_invoicingDate :: "jsstring option"
  md_seller :: "md_seller option"
  md_buyer_name :: "jsstring option option"
  md_netAmount :: "rat option"
  md_grossAmount :: "rat option"
  md_currency :: "jsstring option"

record party =
  party_name :: jsstring
  party_taxId :: jsstring

datatype direction = received | sent

record KSeFInvoice =
  inv_id :: "jsstring option"
  inv_ksefNumber :: "jsstring option"
  inv_invoiceNumber :: "jsstring option"
  inv_number :: "jsstring option"
  inv_issueDate :: "jsstring option"
  inv_dueDate :: "jsstring option"
  inv_amount :: "rat option"
  inv_netAmount :: "rat option"
  inv_grossAmount :: "rat option"
  inv_currency :: jsstring
  inv_status :: direction
  inv_type :: direction
  inv_seller :: "party option"
  inv_buyer :: "party option"

record config =
  auth_method :: "jsstring option"
  config_token :: "jsstring option"

text \<open>A parsed JSON document, and what \<open>extractInvoicePayload\<close> hands back.\<close>

datatype json =
    JNull
  | JBool bool
  | JNumber rat
  | JString jsstring
  | JArray "json list"
  | JObject "(jsstring \<times> json) list"

datatype payload = PText jsstring | PJson json | PBuffer bytes

record invoice_response =
  resp_data :: bytes
  resp_content_type :: "jsstring option"

text \<open>
  A row of the table \<open>invoices_cache\<close>: the key columns and the two columns the
  service reads back (\<open>data\<close>, \<open>cached_at\<close>). The remaining columns are written
  and never read by the service.
\<close>

record cache_row =
  row_id :: "jsstring option"
  row_ksef_id :: "jsstring option"
  row_type :: direction
  row_data :: jsstring
  row_cached_at :: jsstring

datatype padding = RSA_PKCS1_OAEP_PADDING | RSA_PKCS1_PADDING | RSA_NO_PADDING

section \<open>The environment of one run\<close>

text \<open>
  Everything the service calls and does not define: the codecs and the cryptography of
  the runtime (\<open>None\<close> where the call throws), the parsers, the local store, and what
  each endpoint of the remote API answers. \<open>Date_parse x\<close> is
  \<open>new Date(x).getTime()\<close>. \<open>publicEncrypt\<close> stands for one run of the randomised
  encryption. \<open>dbAll_fails k\<close> says whether the \<open>k\<close>-th query of a listing
  on the table is rejected (the query of the \<open>try\<close> block is number 0, that of the
  \<open>catch\<close> block number 1), and \<open>dbRun_fails\<close> whether the insertion of a row is.
  \<open>tie_order x r\<close> says that the database engine returns the row \<open>x\<close> before the
  row \<open>r\<close> that was inserted before it, when the sort key of both is the same.
  \<open>CURRENT_TIMESTAMP t\<close> is the text that SQLite stores at the clock reading \<open>t\<close>.
\<close>

record env =
  utf8_encode :: "jsstring \<Rightarrow> bytes"
  utf8_decode :: "bytes \<Rightarrow> jsstring"
  base64_encode :: "bytes \<Rightarrow> jsstring"
  base64_decode :: "jsstring \<Rightarrow> bytes"
  gunzipSync :: "bytes \<Rightarrow> bytes option"
  unzipper_Open_buffer :: "bytes \<Rightarrow> bytes option list option"
  createPublicKey :: "jsstring \<Rightarrow> bytes option"
  publicEncrypt :: "bytes \<Rightarrow> padding \<Rightarrow> jsstring \<Rightarrow> bytes \<Rightarrow> bytes option"
  encodeURIComponent :: "jsstring \<Rightarrow> jsstring option"
  Date_parse :: "jsstring option \<Rightarrow> jsnum"
  JSON_parse :: "jsstring \<Rightarrow> json option"
  JSON_parse_invoice :: "jsstring \<Rightarrow> KSeFInvoice option"
  JSON_stringify_invoice :: "KSeFInvoice \<Rightarrow> jsstring"
  getConfig :: "config option"
  dbAll_fails :: "nat \<Rightarrow> bool"
  dbRun_fails :: "jsstring option \<Rightarrow> bool"
  tie_order :: "cache_row \<Rightarrow> cache_row \<Rightarrow> bool"
  CURRENT_TIMESTAMP :: "nat \<Rightarrow> jsstring"
  public_key_certificates :: "certificate_entry option list http"
  auth_challenge :: "ChallengeResponse http"
  auth_ksef_token :: "AuthTokenResponse http"
  auth_status :: "nat \<Rightarrow> poll_reply"
  auth_token_redeem :: "token_object option http"
  invoices_query_metadata :: "jsstring \<Rightarrow> InvoiceMetadata option list option http"
  invoices_ksef :: "jsstring \<Rightarrow> invoice_response http"

section \<open>The service object and its surroundings\<close>

text \<open>The calls that leave the process, in the order they are made.\<close>

datatype call =
    GET_public_key_certificates
  | POST_auth_challenge
  | POST_auth_ksef_token jsstring jsstring jsstring
  | GET_auth_status "jsstring option" "jsstring option"
  | Sleep nat
  | POST_auth_token_redeem "jsstring option"
  | POST_invoices_query_metadata jsstring int int
  | GET_invoices_ksef jsstring

text \<open>
  The fields of \<open>KSeFService\<close>, followed by what the service acts on: the clock
  (\<open>Date.now()\<close>), the calls made so far, the cache table, and the interval timers
  of the event loop that are currently armed.
\<close>

record state =
  accessToken :: "jsstring option"
  tokenExpiration :: "jsnum option"
  ksefToken :: "jsstring option"
  nip :: "jsstring option"
  publicKeyCertificate :: "jsstring option"
  refreshTimer :: "nat option"
  clock :: nat
  calls :: "call list"
  invoices_cache :: "cache_row list"
  timers :: "nat list"
  next_timer :: nat

text \<open>The service as the constructor leaves it.\<close>

definition new_service :: "nat \<Rightarrow> state" where
  "new_service t = \<lparr> accessToken = None, tokenExpiration = None, ksefToken = None,
     nip = None, publicKeyCertificate = None, refreshTimer = None, clock = t,
     calls = [], invoices_cache = [], timers = [], next_timer = 0 \<rparr>"

section \<open>Authentication\<close>

definition log_call :: "call \<Rightarrow> state \<Rightarrow> state" where
  "log_call c s = s\<lparr> calls := calls s @ [c] \<rparr>"

text \<open>
  The request interceptor that the constructor installs on the axios instance. It runs
  on every request of the service after the request's own headers are set: while the
  service holds an access token, the \<open>Authorization\<close> header becomes
  \<open>Bearer accessToken\<close>, whatever the request put there; otherwise the header of
  the request stays. The result is the token that the header carries. A call records
  it for the two requests that set the header themselves, the status request and the
  redeem request.
\<close>

definition request_interceptor :: "state \<Rightarrow> jsstring option \<Rightarrow> jsstring option" where
  "request_interceptor s authorization =
     (if truthy_str (accessToken s) then accessToken s else authorization)"

fun is_submit :: "call \<Rightarrow> bool" where
  "is_submit (POST_auth_ksef_token c n e) = True"
| "is_submit x = False"

fun is_redeem :: "call \<Rightarrow> bool" where
  "is_redeem (POST_auth_token_redeem t) = True"
| "is_redeem x = False"

fun is_poll :: "call \<Rightarrow> bool" where
  "is_poll (GET_auth_status r t) = True"
| "is_poll (Sleep ms) = True"
| "is_poll x = False"

text \<open>
  \<open>response.data.find(cert => cert.usage && cert.usage.includes('KsefTokenEncryption'))\<close>:
  \<open>None\<close> where an element is \<open>null\<close> and the callback throws, \<open>Some None\<close>
  where no element matches.
\<close>

fun find_token_cert :: "certificate_entry option list \<Rightarrow> certificate_entry option option" where
  "find_token_cert [] = Some None"
| "find_token_cert (None # cs) = None"
| "find_token_cert (Some c # cs) =
     (if (case cert_usage c of None \<Rightarrow> False | Some u \<Rightarrow> lit ''KsefTokenEncryption'' \<in> set u)
      then Some (Some c) else find_token_cert cs)"

definition loadPublicKeyCertificate :: "env \<Rightarrow> state \<Rightarrow> bool \<times> state" where
  "loadPublicKeyCertificate E s =
     (let s1 = log_call GET_public_key_certificates s in
      case public_key_certificates E of
        Rejected e \<Rightarrow> (False, s1)
      | Resolved None \<Rightarrow> (False, s1)
      | Resolved (Some data) \<Rightarrow>
          (case data of
             [] \<Rightarrow> (False, s1)
           | first # rest \<Rightarrow>
               (case find_token_cert data of
                  None \<Rightarrow> (False, s1)
                | Some (Some c) \<Rightarrow> (True, s1\<lparr> publicKeyCertificate := cert_certificate c \<rparr>)
                | Some None \<Rightarrow>
                    (case first of
                       None \<Rightarrow> (False, s1)
                     | Some c \<Rightarrow> (True, s1\<lparr> publicKeyCertificate := cert_certificate c \<rparr>)))))"

definition getChallenge :: "env \<Rightarrow> state \<Rightarrow> ChallengeData option \<times> state" where
  "getChallenge E s =
     (let s1 = log_call POST_auth_challenge s in
      case auth_challenge E of
        Rejected e \<Rightarrow> (None, s1)
      | Resolved None \<Rightarrow> (None, s1)
      | Resolved (Some d) \<Rightarrow>
          (case cr_challenge d of
             None \<Rightarrow> (None, s1)
           | Some c \<Rightarrow>
               if c = [] then (None, s1)
               else
                 (let timestampMs =
                    (if truthy_num (cr_timestampMs d) then
                       (case cr_timestampMs d of Some n \<Rightarrow> n | None \<Rightarrow> NaN)
                     else if truthy_str (cr_timestamp d) then Date_parse E (cr_timestamp d)
                     else Num (int (clock s1)))
                  in (Some \<lparr> cd_challenge = c, cd_timestampMs = timestampMs \<rparr>, s1))))"

definition tokenToEncrypt :: "jsstring \<Rightarrow> jsnum \<Rightarrow> jsstring" where
  "tokenToEncrypt token timestampMs = token @ lit ''|'' @ numberToString timestampMs"

definition certificatePEM :: "jsstring \<Rightarrow> jsstring" where
  "certificatePEM cert =
     lit ''-----BEGIN CERTIFICATE-----'' @ [10]
     @ (case regex_chunks64 cert of [] \<Rightarrow> lit ''undefined'' | m # ms \<Rightarrow> join [10] (m # ms))
     @ [10] @ lit ''-----END CERTIFICATE-----''"

definition encryptTokenWithChallenge :: "env \<Rightarrow> jsnum \<Rightarrow> state \<Rightarrow> jsstring option" where
  "encryptTokenWithChallenge E timestampMs s =
     (case ksefToken s of
        None \<Rightarrow> None
      | Some token \<Rightarrow>
     (case publicKeyCertificate s of
        None \<Rightarrow> None
      | Some cert \<Rightarrow>
          if token = [] \<or> cert = [] then None
          else
            (case createPublicKey E (certificatePEM cert) of
               None \<Rightarrow> None
             | Some publicKeyObject \<Rightarrow>
                 (case publicEncrypt E publicKeyObject RSA_PKCS1_OAEP_PADDING (lit ''sha256'')
                         (utf8_encode E (tokenToEncrypt token timestampMs)) of
                    None \<Rightarrow> None
                  | Some encryptedBuffer \<Rightarrow> Some (base64_encode E encryptedBuffer)))))"

text \<open>
  The polling loop of \<open>waitForTokenAuthStatus\<close>. Time passes while a request is in
  flight and while the loop sleeps; every path that goes round the loop sleeps first.
\<close>

definition pollIntervalMs :: nat where
  "pollIntervalMs = 500"

definition maxWaitMs_default :: nat where
  "maxWaitMs_default = 5000"

definition sleep :: "nat \<Rightarrow> nat \<Rightarrow> state \<Rightarrow> state" where
  "sleep ms late s = (log_call (Sleep ms) s)\<lparr> clock := clock s + ms + late \<rparr>"

definition poll_request :: "jsstring option \<Rightarrow> jsstring option \<Rightarrow> poll_reply \<Rightarrow> state \<Rightarrow> state" where
  "poll_request referenceNumber authToken r s =
     (log_call (GET_auth_status referenceNumber (request_interceptor s authToken)) s)
       \<lparr> clock := clock s + poll_latency r \<rparr>"

definition poll_step :: "env \<Rightarrow> jsstring option \<Rightarrow> jsstring option \<Rightarrow> nat \<Rightarrow> state \<Rightarrow> state" where
  "poll_step E referenceNumber authToken pollAttempt s =
     sleep pollIntervalMs (poll_overrun (auth_status E (Suc pollAttempt)))
       (poll_request referenceNumber authToken (auth_status E (Suc pollAttempt)) s)"

function poll_loop ::
  "env \<Rightarrow> jsstring option \<Rightarrow> jsstring option \<Rightarrow> nat \<Rightarrow> nat \<Rightarrow> nat \<Rightarrow> state \<Rightarrow> bool \<times> state" where
  "poll_loop E referenceNumber authToken maxWaitMs startTime pollAttempt s =
     (if int (clock s) - int startTime < int maxWaitMs then
        (let r = auth_status E (Suc pollAttempt);
             s1 = poll_request referenceNumber authToken r s;
             s2 = sleep pollIntervalMs (poll_overrun r) s1
         in case poll_outcome r of
              Resolved (Some status) \<Rightarrow>
                if status_code status = Some 200 then (True, s1)
                else if status_code status = Some 100 then
                  poll_loop E referenceNumber authToken maxWaitMs startTime (Suc pollAttempt) s2
                else (False, s1)
            | Resolved None \<Rightarrow>
                poll_loop E referenceNumber authToken maxWaitMs startTime (Suc pollAttempt) s2
            | Rejected e \<Rightarrow>
                if e = Some 404 then
                  poll_loop E referenceNumber authToken maxWaitMs startTime (Suc pollAttempt) s2
                else
                  poll_loop E referenceNumber authToken maxWaitMs startTime (Suc pollAttempt) s2)
      else (True, s))"
  by pat_completeness auto
termination
  by (relation "measure (\<lambda>(E, r, a, maxWaitMs, startTime, n, s).
        nat (int startTime + int maxWaitMs - int (clock s)))")
     (auto simp: sleep_def poll_request_def log_call_def pollIntervalMs_def)

declare poll_loop.simps [simp del]

definition waitForTokenAuthStatus ::
  "env \<Rightarrow> jsstring option \<Rightarrow> jsstring option \<Rightarrow> nat \<Rightarrow> state \<Rightarrow> bool \<times> state" where
  "waitForTokenAuthStatus E referenceNumber authToken maxWaitMs s =
     poll_loop E referenceNumber authToken maxWaitMs (clock s) 0 s"

definition redeemAccessToken :: "env \<Rightarrow> jsstring option \<Rightarrow> state \<Rightarrow> token_object option \<times> state" where
  "redeemAccessToken E tempAuthToken s =
     (let s1 = log_call (POST_auth_token_redeem (request_interceptor s tempAuthToken)) s in
      case auth_token_redeem E of
        Rejected e \<Rightarrow> (None, s1)
      | Resolved None \<Rightarrow> (None, s1)
      | Resolved (Some None) \<Rightarrow> (None, s1)
      | Resolved (Some (Some token)) \<Rightarrow> (Some token, s1))"

text \<open>
  Every failing step of the source logs its own message and returns \<open>null\<close> or
  \<open>false\<close>. The model keeps which step it was: \<open>CertificateUnavailable\<close> (failed to
  load public key certificate), \<open>ChallengeUnavailable\<close> (failed to get challenge),
  \<open>EncryptionFailed\<close> (failed to encrypt token), \<open>NipNotAvailable\<close>,
  \<open>AuthSubmitError\<close> (the submit request is rejected), \<open>AuthSubmitRejected\<close> (no
  authentication token in response), \<open>AuthStatusFailed\<close> (status check failed),
  \<open>RedemptionFailed\<close> (failed to redeem access token), \<open>AuthenticationError\<close> (the
  handler of \<open>authenticateWithKSeF\<close> caught an exception). The boolean the source
  returns is \<open>True\<close> exactly for \<open>AuthOk\<close>.
\<close>

datatype auth_failure =
    CertificateUnavailable
  | ChallengeUnavailable
  | EncryptionFailed
  | NipNotAvailable
  | AuthSubmitError
  | AuthSubmitRejected
  | AuthStatusFailed
  | RedemptionFailed
  | AuthenticationError

datatype auth_outcome = AuthOk | AuthFailed auth_failure

definition authenticateWithToken ::
  "env \<Rightarrow> jsstring \<Rightarrow> jsstring \<Rightarrow> state \<Rightarrow> (auth_failure + token_object) \<times> state" where
  "authenticateWithToken E challenge encryptedToken s =
     (case nip s of
        None \<Rightarrow> (Inl NipNotAvailable, s)
      | Some nipValue \<Rightarrow>
          if nipValue = [] then (Inl NipNotAvailable, s)
          else
            (let s1 = log_call (POST_auth_ksef_token challenge nipValue encryptedToken) s in
             case auth_ksef_token E of
               Rejected e \<Rightarrow> (Inl AuthSubmitError, s1)
             | Resolved None \<Rightarrow> (Inl AuthSubmitRejected, s1)
             | Resolved (Some data) \<Rightarrow>
                 (case atr_authenticationToken data of
                    None \<Rightarrow> (Inl AuthSubmitRejected, s1)
                  | Some authenticationToken \<Rightarrow>
                      (let tempAuthToken = tok_token authenticationToken;
                           referenceNumber = atr_referenceNumber data;
                           (statusOk, s2) = waitForTokenAuthStatus E referenceNumber tempAuthToken maxWaitMs_default s1
                       in if \<not> statusOk then (Inl AuthStatusFailed, s2)
                          else
                            (case redeemAccessToken E tempAuthToken s2 of
                               (None, s3) \<Rightarrow> (Inl RedemptionFailed, s3)
                             | (Some token, s3) \<Rightarrow> (Inr token, s3))))))"

definition authenticateWithKSeF :: "env \<Rightarrow> state \<Rightarrow> auth_outcome \<times> state" where
  "authenticateWithKSeF E s =
     (let (certLoaded, s1) = loadPublicKeyCertificate E s in
      if \<not> certLoaded then (AuthFailed CertificateUnavailable, s1)
      else
        (case getChallenge E s1 of
           (None, s2) \<Rightarrow> (AuthFailed ChallengeUnavailable, s2)
         | (Some challengeData, s2) \<Rightarrow>
             (case encryptTokenWithChallenge E (cd_timestampMs challengeData) s2 of
                None \<Rightarrow> (AuthFailed EncryptionFailed, s2)
              | Some encryptedToken \<Rightarrow>
                  if encryptedToken = [] then (AuthFailed EncryptionFailed, s2)
                  else
                    (case authenticateWithToken E (cd_challenge challengeData) encryptedToken s2 of
                       (Inl f, s3) \<Rightarrow> (AuthFailed f, s3)
                     | (Inr authToken, s3) \<Rightarrow>
                         (let s4 = s3\<lparr> accessToken := tok_token authToken,
                                         tokenExpiration := Some (Date_parse E (tok_validUntil authToken)) \<rparr>
                          in if Date_parse E (tok_validUntil authToken) = NaN
                             then (AuthFailed AuthenticationError, s4)
                             else (AuthOk, s4))))))"

definition initialize :: "env \<Rightarrow> state \<Rightarrow> bool \<times> state" where
  "initialize E s =
     (case getConfig E of
        None \<Rightarrow> (False, s)
      | Some config \<Rightarrow>
          (case config_token config of
             None \<Rightarrow> (False, s)
           | Some token \<Rightarrow>
               if auth_method config = Some (lit ''token'') \<and> token \<noteq> [] then
                 (let s1 = s\<lparr> ksefToken := Some token \<rparr>;
                      tokenParts = split_on 124 token;
                      s2 = (if length tokenParts \<ge> 2
                            then s1\<lparr> nip := Some (replace_first (lit ''nip-'') [] (tokenParts ! 1)) \<rparr>
                            else s1);
                      (outcome, s3) = authenticateWithKSeF E s2
                  in (outcome = AuthOk, s3))
               else (False, s)))"

definition isInitialized :: "state \<Rightarrow> bool" where
  "isInitialized s =
     (truthy_str (accessToken s)
      \<and> (case tokenExpiration s of
           None \<Rightarrow> True
         | Some e \<Rightarrow> num_greater e (Num (int (clock s)))))"

section \<open>Unwrapping an invoice payload\<close>

definition xml_prolog :: jsstring where
  "xml_prolog = lit ''<?xml''"

definition decodeInvoicePackage :: "env \<Rightarrow> jsstring \<Rightarrow> jsstring option" where
  "decodeInvoicePackage E base64Data =
     (let packageBuffer = base64_decode E base64Data;
          fromGzip =
            (case gunzipSync E packageBuffer of
               None \<Rightarrow> None
             | Some gunzipped \<Rightarrow>
                 (let xml = utf8_decode E gunzipped
                  in if startsWith (trim xml) xml_prolog then Some xml else None))
      in case fromGzip of
           Some xml \<Rightarrow> Some xml
         | None \<Rightarrow>
             (let fromZip =
                (case unzipper_Open_buffer E packageBuffer of
                   None \<Rightarrow> None
                 | Some [] \<Rightarrow> None
                 | Some (first # rest) \<Rightarrow>
                     (case first of
                        None \<Rightarrow> None
                      | Some content \<Rightarrow>
                          (let xml = utf8_decode E content
                           in if trim xml \<noteq> [] then Some xml else None)))
              in case fromZip of
                   Some xml \<Rightarrow> Some xml
                 | None \<Rightarrow>
                     (let xml = utf8_decode E packageBuffer
                      in if trim xml \<noteq> [] then Some xml else None)))"

fun truthy_json :: "json \<Rightarrow> bool" where
  "truthy_json JNull = False"
| "truthy_json (JBool b) = b"
| "truthy_json (JNumber n) = (n \<noteq> 0)"
| "truthy_json (JString t) = (t \<noteq> [])"
| "truthy_json (JArray xs) = True"
| "truthy_json (JObject kvs) = True"

text \<open>\<open>v.k\<close> for a property name that no prototype defines, and \<open>a || b\<close>.\<close>

fun json_prop :: "json \<Rightarrow> jsstring \<Rightarrow> json option" where
  "json_prop (JObject kvs) k = map_of kvs k"
| "json_prop v k = None"

fun json_or :: "json option \<Rightarrow> json option \<Rightarrow> json option" where
  "json_or (Some a) b = (if truthy_json a then Some a else b)"
| "json_or None b = b"

fun truthy_payload :: "payload \<Rightarrow> bool" where
  "truthy_payload (PText t) = (t \<noteq> [])"
| "truthy_payload (PJson j) = truthy_json j"
| "truthy_payload (PBuffer b) = True"

definition json_as_payload :: "json \<Rightarrow> payload" where
  "json_as_payload jp =
     (case jp of
        JString t \<Rightarrow> if startsWith (trim t) xml_prolog then PText t else PJson jp
      | _ \<Rightarrow> PJson jp)"

definition extractInvoicePayload :: "env \<Rightarrow> invoice_response option \<Rightarrow> payload option" where
  "extractInvoicePayload E response =
     (case response of
        None \<Rightarrow> None
      | Some r \<Rightarrow>
          (let buffer = resp_data r;
               contentType = toLowerCase (case resp_content_type r of None \<Rightarrow> [] | Some c \<Rightarrow> c);
               textPayload = utf8_decode E buffer;
               jsonPayload =
                 (if includes_str contentType (lit ''application/json'')
                  then JSON_parse E textPayload else None)
           in case json_or jsonPayload None of
                Some jp \<Rightarrow>
                  (let base64Package =
                     json_or (json_prop jp (lit ''invoicePackage''))
                      (json_or (json_prop jp (lit ''invoiceFile''))
                        (json_or (json_prop jp (lit ''invoiceFileContent''))
                          (json_or (json_prop jp (lit ''invoiceBinaryContent''))
                            (json_prop jp (lit ''invoiceBase64'')))));
                       xmlFromPackage =
                         (case base64Package of
                            Some (JString b) \<Rightarrow> if b \<noteq> [] then decodeInvoicePackage E b else None
                          | _ \<Rightarrow> None)
                   in case xmlFromPackage of
                        None \<Rightarrow> Some (json_as_payload jp)
                      | Some xml \<Rightarrow> if xml \<noteq> [] then Some (PText xml) else Some (json_as_payload jp))
              | None \<Rightarrow>
                  if startsWith (trim textPayload) xml_prolog then Some (PText textPayload)
                  else if textPayload \<noteq> [] then Some (PText textPayload)
                  else Some (PBuffer buffer)))"

definition getInvoiceDetails :: "env \<Rightarrow> jsstring \<Rightarrow> state \<Rightarrow> payload option \<times> state" where
  "getInvoiceDetails E ksefNumber s =
     (if \<not> truthy_str (accessToken s) then (None, s)
      else
        (case encodeURIComponent E ksefNumber of
           None \<Rightarrow> (None, s)
         | Some path \<Rightarrow>
             (let s1 = log_call (GET_invoices_ksef path) s in
              case invoices_ksef E path of
                Rejected e \<Rightarrow> (None, s1)
              | Resolved response \<Rightarrow>
                  (case extractInvoicePayload E response of
                     None \<Rightarrow> (None, s1)
                   | Some parsed \<Rightarrow> if truthy_payload parsed then (Some parsed, s1) else (None, s1)))))"

section \<open>The invoice cache\<close>

text \<open>
  \<open>LIMIT ? OFFSET ?\<close> of SQLite: a negative limit is no limit, a negative offset is
  none.
\<close>

definition sql_page :: "int \<Rightarrow> int \<Rightarrow> 'a list \<Rightarrow> 'a list" where
  "sql_page limit offset xs =
     (let ys = drop (nat offset) xs in if limit < 0 then ys else take (nat limit) ys)"

text \<open>
  \<open>ORDER BY cached_at DESC\<close> compares the stored text. SQL does not fix the order of
  rows with equal \<open>cached_at\<close>, and the rows of one fetch are stored within the same
  second: the engine decides, through \<open>tie_order\<close>. The table lists its rows in the
  order of insertion; a row is put in front of the rows inserted after it, behind those
  with a greater \<open>cached_at\<close> and behind those with the same \<open>cached_at\<close> that
  the engine returns first.
\<close>

fun insert_desc :: "env \<Rightarrow> cache_row \<Rightarrow> cache_row list \<Rightarrow> cache_row list" where
  "insert_desc E r [] = [r]"
| "insert_desc E r (x # xs) =
     (if row_cached_at r < row_cached_at x \<or> (row_cached_at x = row_cached_at r \<and> tie_order E x r)
      then x # insert_desc E r xs
      else r # x # xs)"

definition order_by_cached_at_desc :: "env \<Rightarrow> cache_row list \<Rightarrow> cache_row list" where
  "order_by_cached_at_desc E rows = foldr (insert_desc E) rows []"

definition getInvoicesByType ::
  "env \<Rightarrow> nat \<Rightarrow> direction \<Rightarrow> int \<Rightarrow> int \<Rightarrow> state \<Rightarrow> cache_row list" where
  "getInvoicesByType E k type limit offset s =
     (if dbAll_fails E k then []
      else sql_page limit offset
             (order_by_cached_at_desc E (filter (\<lambda>r. row_type r = type) (invoices_cache s))))"

text \<open>
  \<open>INSERT OR REPLACE\<close>: rows that clash with the new one on the primary key \<open>id\<close> or
  on the unique column \<open>ksef_id\<close> are deleted (\<open>NULL\<close> clashes with nothing); the new
  row gets the current timestamp.
\<close>

record invoiceData =
  data_id :: "jsstring option"
  data_ksef_id :: "jsstring option"
  data_type :: direction
  data_data :: jsstring

definition clashes :: "cache_row \<Rightarrow> cache_row \<Rightarrow> bool" where
  "clashes r x \<longleftrightarrow>
     (row_id r \<noteq> None \<and> row_id x = row_id r) \<or> (row_ksef_id r \<noteq> None \<and> row_ksef_id x = row_ksef_id r)"

definition insert_or_replace :: "cache_row \<Rightarrow> cache_row list \<Rightarrow> cache_row list" where
  "insert_or_replace r rows = filter (\<lambda>x. \<not> clashes r x) rows @ [r]"

definition cacheInvoice :: "env \<Rightarrow> invoiceData \<Rightarrow> state \<Rightarrow> bool \<times> state" where
  "cacheInvoice E d s =
     (if dbRun_fails E (data_id d) then (False, s)
      else
        (let r = \<lparr> row_id = data_id d,
                   row_ksef_id = (if truthy_str (data_ksef_id d) then data_ksef_id d else None),
                   row_type = data_type d,
                   row_data = data_data d,
                   row_cached_at = CURRENT_TIMESTAMP E (clock s) \<rparr>;
             s1 = s\<lparr> invoices_cache := insert_or_replace r (invoices_cache s) \<rparr>
         in case data_id d of
              None \<Rightarrow> (False, s1)
            | Some i \<Rightarrow> (True, s1)))"

section \<open>Listing invoices\<close>

definition or_str :: "jsstring option \<Rightarrow> jsstring option \<Rightarrow> jsstring option" where
  "or_str a b = (if truthy_str a then a else b)"

definition str_or :: "jsstring option \<Rightarrow> jsstring \<Rightarrow> jsstring" where
  "str_or a b = (case a of None \<Rightarrow> b | Some t \<Rightarrow> if t = [] then b else t)"

definition mapMetadataToInvoice :: "InvoiceMetadata \<Rightarrow> direction \<Rightarrow> KSeFInvoice" where
  "mapMetadataToInvoice metadata type =
     (let fallbackKsefNumber = or_str (md_ksefReferenceNumber metadata) (md_ksefNumber metadata) in
      \<lparr> inv_id = or_str (md_ksefNumber metadata) fallbackKsefNumber,
        inv_ksefNumber = or_str (md_ksefNumber metadata) fallbackKsefNumber,
        inv_invoiceNumber = md_invoiceNumber metadata,
        inv_number = md_invoiceNumber metadata,
        inv_issueDate = md_issueDate metadata,
        inv_dueDate = or_str (md_invoicingDate metadata) (md_issueDate metadata),
        inv_amount = md_grossAmount metadata,
        inv_netAmount = md_netAmount metadata,
        inv_grossAmount = md_grossAmount metadata,
        inv_currency = str_or (md_currency metadata) (lit ''PLN''),
        inv_status = type,
        inv_type = type,
        inv_seller =
          (if type = received
           then Some \<lparr> party_name =
                         str_or (case md_seller metadata of None \<Rightarrow> None | Some p \<Rightarrow> md_seller_name p)
                           (lit ''Unknown''),
                       party_taxId =
                         str_or (case md_seller metadata of None \<Rightarrow> None | Some p \<Rightarrow> md_seller_nip p) [] \<rparr>
           else None),
        inv_buyer =
          (if type = sent
           then Some \<lparr> party_name =
                         str_or (case md_buyer_name metadata of None \<Rightarrow> None | Some n \<Rightarrow> n)
                           (lit ''Unknown''),
                       party_taxId = [] \<rparr>
           else None) \<rparr>)"

text \<open>\<open>cachedInvoices.map(inv => JSON.parse(inv.data))\<close>: \<open>None\<close> where a parse throws.\<close>

definition parse_rows :: "env \<Rightarrow> cache_row list \<Rightarrow> KSeFInvoice list option" where
  "parse_rows E rows = those (map (\<lambda>inv. JSON_parse_invoice E (row_data inv)) rows)"

definition subjectType :: "direction \<Rightarrow> jsstring" where
  "subjectType type = (case type of received \<Rightarrow> lit ''Subject2'' | sent \<Rightarrow> lit ''Subject1'')"

definition cacheExpiration :: int where
  "cacheExpiration = 5 * 60 * 1000"

fun cache_all :: "env \<Rightarrow> direction \<Rightarrow> KSeFInvoice list \<Rightarrow> state \<Rightarrow> state" where
  "cache_all E type [] s = s"
| "cache_all E type (invoice # rest) s =
     cache_all E type rest
       (snd (cacheInvoice E \<lparr> data_id = inv_id invoice, data_ksef_id = inv_ksefNumber invoice,
                              data_type = type, data_data = JSON_stringify_invoice E invoice \<rparr> s))"

text \<open>
  The \<open>try\<close> block of \<open>getReceivedInvoices\<close> and \<open>getSentInvoices\<close>, which differ
  in the direction and the subject type only. \<open>Inl e\<close> is an exception that reaches the
  \<open>catch\<close> block, \<open>e\<close> being its \<open>error.response?.status\<close>.
\<close>

definition fetch_invoices ::
  "env \<Rightarrow> direction \<Rightarrow> int \<Rightarrow> int \<Rightarrow> state \<Rightarrow> (nat option + KSeFInvoice list) \<times> state" where
  "fetch_invoices E type limit offset s =
     (let cachedInvoices = getInvoicesByType E 0 type limit offset s;
          served_from_cache =
            (case cachedInvoices of
               [] \<Rightarrow> False
             | newest # others \<Rightarrow>
                 diff_less (Num (int (clock s))) (Date_parse E (Some (row_cached_at newest)))
                   cacheExpiration)
      in if served_from_cache then
           (case parse_rows E cachedInvoices of
              None \<Rightarrow> (Inl None, s)
            | Some invoices \<Rightarrow> (Inr invoices, s))
         else
           (let (initialized, s1) = (if \<not> isInitialized s then initialize E s else (True, s)) in
            if \<not> initialized then
              (if cachedInvoices \<noteq> [] then
                 (case parse_rows E cachedInvoices of
                    None \<Rightarrow> (Inl None, s1)
                  | Some invoices \<Rightarrow> (Inr invoices, s1))
               else (Inr [], s1))
            else
              (let s2 = log_call (POST_invoices_query_metadata (subjectType type) limit offset) s1 in
               case invoices_query_metadata E (subjectType type) of
                 Rejected e \<Rightarrow> (Inl e, s2)
               | Resolved None \<Rightarrow> (Inr [], s2)
               | Resolved (Some None) \<Rightarrow> (Inr [], s2)
               | Resolved (Some (Some metadata)) \<Rightarrow>
                   (case those metadata of
                      None \<Rightarrow> (Inl None, s2)
                    | Some ms \<Rightarrow>
                        (let invoices = map (\<lambda>inv. mapMetadataToInvoice inv type) ms
                         in (Inr invoices, cache_all E type invoices s2))))))"

definition list_invoices ::
  "env \<Rightarrow> direction \<Rightarrow> int \<Rightarrow> int \<Rightarrow> state \<Rightarrow> KSeFInvoice list completion \<times> state" where
  "list_invoices E type limit offset s =
     (case fetch_invoices E type limit offset s of
        (Inr invoices, s1) \<Rightarrow> (Returns invoices, s1)
      | (Inl status, s1) \<Rightarrow>
          (let s2 = (if status = Some 401 then s1\<lparr> accessToken := None \<rparr> else s1);
               cachedInvoices = getInvoicesByType E 1 type limit offset s2
           in if cachedInvoices \<noteq> [] then
                (case parse_rows E cachedInvoices of
                   None \<Rightarrow> (Throws, s2)
                 | Some invoices \<Rightarrow> (Returns invoices, s2))
              else (Returns [], s2)))"

definition getReceivedInvoices ::
  "env \<Rightarrow> int \<Rightarrow> int \<Rightarrow> state \<Rightarrow> KSeFInvoice list completion \<times> state" where
  "getReceivedInvoices E limit offset s = list_invoices E received limit offset s"

definition getSentInvoices ::
  "env \<Rightarrow> int \<Rightarrow> int \<Rightarrow> state \<Rightarrow> KSeFInvoice list completion \<times> state" where
  "getSentInvoices E limit offset s = list_invoices E sent limit offset s"

section \<open>The refresh timer\<close>

text \<open>
  \<open>setInterval\<close> arms a new timer and returns its handle; \<open>clearInterval\<close> disarms
  the timer with that handle. A \<open>Timeout\<close> handle is an object, so it is truthy.
\<close>

definition setInterval :: "state \<Rightarrow> nat \<times> state" where
  "setInterval s = (next_timer s,
     s\<lparr> timers := timers s @ [next_timer s], next_timer := Suc (next_timer s) \<rparr>)"

definition clearInterval :: "nat \<Rightarrow> state \<Rightarrow> state" where
  "clearInterval t s = s\<lparr> timers := removeAll t (timers s) \<rparr>"

definition startTokenRefreshTimer :: "state \<Rightarrow> state" where
  "startTokenRefreshTimer s =
     (let s1 = (case refreshTimer s of Some t \<Rightarrow> clearInterval t s | None \<Rightarrow> s);
          (h, s2) = setInterval s1
      in s2\<lparr> refreshTimer := Some h \<rparr>)"

definition stopTokenRefreshTimer :: "state \<Rightarrow> state" where
  "stopTokenRefreshTimer s =
     (case refreshTimer s of
        Some t \<Rightarrow> (clearInterval t s)\<lparr> refreshTimer := None \<rparr>
      | None \<Rightarrow> s)"

datatype timer_op = Start | Stop

fun timer_step :: "state \<Rightarrow> timer_op \<Rightarrow> state" where
  "timer_step s Start = startTokenRefreshTimer s"
| "timer_step s Stop = stopTokenRefreshTimer s"

text \<open>
  The body of the interval callback: once a minute, re-authenticate when the access
  token expires in less than five minutes.
\<close>

definition tokenRefreshCallback :: "env \<Rightarrow> state \<Rightarrow> state" where
  "tokenRefreshCallback E s =
     (case tokenExpiration s of
        None \<Rightarrow> s
      | Some e \<Rightarrow>
          if \<not> truthy_str (accessToken s) then s
          else if diff_less e (Num (int (clock s))) (5 * 60 * 1000) then snd (initialize E s)
          else s)"

text \<open>
  The armed timers are exactly the one whose handle the service holds.
\<close>

definition timer_inv :: "state \<Rightarrow> bool" where
  "timer_inv s \<longleftrightarrow>
     timers s = (case refreshTimer s of None \<Rightarrow> [] | Some t \<Rightarrow> [t])"

section \<open>Traces\<close>

text \<open>The calls a run adds to those made before it.\<close>

definition new_calls :: "state \<Rightarrow> state \<Rightarrow> call list" where
  "new_calls s s' = drop (length (calls s)) (calls s')"

text \<open>
  The calls \<open>authenticateWithToken\<close> can make on the service \<open>s\<close>: none; the
  submit request followed by status requests and sleeps; or these followed by one
  redeem request. The redeem request sets as bearer the token of the
  \<open>authenticationToken\<close> object that the submit request returned, and leaves with
  what the request interceptor makes of it.
\<close>

definition token_trace :: "env \<Rightarrow> state \<Rightarrow> call list \<Rightarrow> bool" where
  "token_trace E s new \<longleftrightarrow>
     new = []
     \<or> (\<exists>c n e ps. list_all is_poll ps \<and> new = POST_auth_ksef_token c n e # ps)
     \<or> (\<exists>c n e ps d a. auth_ksef_token E = Resolved (Some d) \<and> atr_authenticationToken d = Some a
           \<and> list_all is_poll ps
           \<and> new = POST_auth_ksef_token c n e # ps
                   @ [POST_auth_token_redeem (request_interceptor s (tok_token a))])"

text \<open>
  The tax identifier as the specification words it: the substring after the second
  \<open>|\<close> delimiter, with the fixed prefix stripped.
\<close>

definition after_delimiter :: "nat \<Rightarrow> jsstring \<Rightarrow> jsstring" where
  "after_delimiter d t = drop 1 (dropWhile (\<lambda>c. c \<noteq> d) t)"

definition strip_prefix :: "jsstring \<Rightarrow> jsstring \<Rightarrow> jsstring" where
  "strip_prefix p t = (if startsWith t p then drop (length p) t else t)"

definition spec_taxId_after_second_delimiter :: "jsstring \<Rightarrow> jsstring" where
  "spec_taxId_after_second_delimiter token =
     strip_prefix (lit ''nip-'') (after_delimiter 124 (after_delimiter 124 token))"

text \<open>The first three steps, written as one premise.\<close>

definition reaches_submit :: "env \<Rightarrow> state \<Rightarrow> ChallengeData \<Rightarrow> jsstring \<Rightarrow> state \<Rightarrow> bool" where
  "reaches_submit E s cd enc s2 \<longleftrightarrow>
     (\<exists>s1. loadPublicKeyCertificate E s = (True, s1) \<and> getChallenge E s1 = (Some cd, s2))
     \<and> encryptTokenWithChallenge E (cd_timestampMs cd) s2 = Some enc \<and> enc \<noteq> []"

text \<open>
  The status request number \<open>i\<close> is answered with status code \<open>c\<close>; and the time that
  goes by from the start of request \<open>i\<close> to the end of the sleep after it.
\<close>

definition status_is :: "env \<Rightarrow> nat \<Rightarrow> int \<Rightarrow> bool" where
  "status_is E i c \<longleftrightarrow>
     (\<exists>st. poll_outcome (auth_status E i) = Resolved (Some st) \<and> status_code st = Some c)"

definition round_ms :: "env \<Rightarrow> nat \<Rightarrow> nat" where
  "round_ms E i = poll_latency (auth_status E i) + pollIntervalMs + poll_overrun (auth_status E i)"

text \<open>
  Every cached row holds text that parses. The service writes only the output of
  \<open>JSON.stringify\<close> into the column.
\<close>

definition cache_ok :: "env \<Rightarrow> state \<Rightarrow> bool" where
  "cache_ok E s \<longleftrightarrow> (\<forall>r \<in> set (invoices_cache s). JSON_parse_invoice E (row_data r) \<noteq> None)"

text \<open>
  The freshness test of a listing, on the page that the cache query returned.
\<close>

definition page_fresh :: "env \<Rightarrow> state \<Rightarrow> cache_row list \<Rightarrow> bool" where
  "page_fresh E s page \<longleftrightarrow>
     (case page of
        [] \<Rightarrow> False
      | newest # others \<Rightarrow>
          diff_less (Num (int (clock s))) (Date_parse E (Some (row_cached_at newest))) cacheExpiration)"

text \<open>
  How the store and the runtime treat the time of caching, as a property of an
  environment at a clock reading \<open>t\<close>. \<open>CURRENT_TIMESTAMP\<close> is the wall clock of UTC
  to the second, written without a zone (\<open>YYYY-MM-DD HH:MM:SS\<close>). \<open>new Date\<close> reads
  a text of that form as wall clock time of the local zone. With a local zone that is
  \<open>zone\<close> milliseconds ahead of UTC, the time read back is the second of caching moved
  \<open>zone\<close> milliseconds into the past.
\<close>

definition reads_utc_as_local :: "env \<Rightarrow> int \<Rightarrow> nat \<Rightarrow> bool" where
  "reads_utc_as_local E zone t \<longleftrightarrow>
     Date_parse E (Some (CURRENT_TIMESTAMP E t)) = Num (int (t div 1000 * 1000) - zone)"

section \<open>A sample environment\<close>

text \<open>
  A small environment on which the definitions can be run. Its codecs are stand-ins
  that keep the content readable: a gzip member is the two magic octets followed by
  the content, a zip archive with one entry is \<open>PK\<close> followed by the content, base64
  and UTF-8 are the identity, a date is a decimal number of milliseconds, the store
  writes the clock reading to the second in that form, and an invoice is serialised as
  its identifier.
\<close>

definition sample_gzip :: "bytes \<Rightarrow> bytes" where
  "sample_gzip b = 31 # 139 # b"

definition sample_zip :: "bytes \<Rightarrow> bytes" where
  "sample_zip b = 80 # 75 # b"

definition sample_gunzip :: "bytes \<Rightarrow> bytes option" where
  "sample_gunzip b = (if startsWith b [31, 139] then Some (drop 2 b) else None)"

definition sample_unzip :: "bytes \<Rightarrow> bytes option list option" where
  "sample_unzip b = (if startsWith b [80, 75] then Some [Some (drop 2 b)] else None)"

definition sample_date :: "jsstring option \<Rightarrow> jsnum" where
  "sample_date x =
     (case x of
        None \<Rightarrow> NaN
      | Some t \<Rightarrow>
          if t \<noteq> [] \<and> list_all (\<lambda>c. 48 \<le> c \<and> c \<le> 57) t
          then Num (int (foldl (\<lambda>a c. 10 * a + (c - 48)) 0 t))
          else NaN)"

definition sample_invoice :: "jsstring \<Rightarrow> KSeFInvoice" where
  "sample_invoice i =
     mapMetadataToInvoice
       \<lparr> md_ksefNumber = Some i, md_ksefReferenceNumber = None, md_invoiceNumber = None,
         md_issueDate = None, md_invoicingDate = None, md_seller = None, md_buyer_name = None,
         md_netAmount = None, md_grossAmount = None, md_currency = None \<rparr> received"

definition sample_status :: "int \<Rightarrow> poll_reply" where
  "sample_status c =
     \<lparr> poll_latency = 20,
       poll_outcome = Resolved (Some \<lparr> status_code = Some c, status_description = None \<rparr>),
       poll_overrun = 0 \<rparr>"

definition sample_env :: env where
  "sample_env =
     \<lparr> utf8_encode = (\<lambda>t. t),
       utf8_decode = (\<lambda>b. b),
       base64_encode = (\<lambda>b. b),
       base64_decode = (\<lambda>t. t),
       gunzipSync = sample_gunzip,
       unzipper_Open_buffer = sample_unzip,
       createPublicKey = (\<lambda>pem. Some pem),
       publicEncrypt = (\<lambda>k p h m. if p = RSA_PKCS1_OAEP_PADDING then Some (rev m) else None),
       encodeURIComponent = (\<lambda>t. Some t),
       Date_parse = sample_date,
       JSON_parse = (\<lambda>t. None),
       JSON_parse_invoice = (\<lambda>t. if t = [] then None else Some (sample_invoice t)),
       JSON_stringify_invoice = (\<lambda>i. str_or (inv_id i) (lit ''null'')),
       getConfig = Some \<lparr> auth_method = Some (lit ''token''),
                          config_token = Some (lit ''ref|nip-123|secret'') \<rparr>,
       dbAll_fails = (\<lambda>k. False),
       dbRun_fails = (\<lambda>i. False),
       tie_order = (\<lambda>x r. False),
       CURRENT_TIMESTAMP = (\<lambda>t. digits (t div 1000 * 1000)),
       public_key_certificates =
         Resolved (Some [Some \<lparr> cert_usage = Some [lit ''KsefTokenEncryption''],
                                 cert_certificate = Some (lit ''MIIB'') \<rparr>]),
       auth_challenge =
         Resolved (Some \<lparr> cr_challenge = Some (lit ''ch''), cr_timestamp = None,
                           cr_timestampMs = Some (Num 1700000000000) \<rparr>),
       auth_ksef_token =
         Resolved (Some \<lparr> atr_referenceNumber = Some (lit ''R1''),
                           atr_authenticationToken =
                             Some \<lparr> tok_token = Some (lit ''tmp''),
                                    tok_validUntil = Some (lit ''1700000600000'') \<rparr> \<rparr>),
       auth_status = (\<lambda>n. if n \<le> 3 then sample_status 100 else sample_status 200),
       auth_token_redeem =
         Resolved (Some (Some \<lparr> tok_token = Some (lit ''acc''),
                                 tok_validUntil = Some (lit ''1700000900000'') \<rparr>)),
       invoices_query_metadata = (\<lambda>t. Resolved (Some (Some []))),
       invoices_ksef = (\<lambda>p. Rejected (Some 401)) \<rparr>"

text \<open>
  A service that holds a credential and its tax identifier, and variations of the
  environment: a challenge response without any timestamp, a submit response without a
  reference number whose status is never found, a configured token without any
  delimiter, and status replies that are terminal or not found.
\<close>

definition sample_service :: state where
  "sample_service =
     (new_service 1000)\<lparr> ksefToken := Some (lit ''ref|nip-123|secret''), nip := Some (lit ''123'') \<rparr>"

definition sample_challenge_without_timestamp :: env where
  "sample_challenge_without_timestamp =
     sample_env\<lparr> auth_challenge :=
       Resolved (Some \<lparr> cr_challenge = Some (lit ''ch''), cr_timestamp = None, cr_timestampMs = None \<rparr>) \<rparr>"

definition sample_submit_without_reference :: env where
  "sample_submit_without_reference =
     sample_env\<lparr>
       auth_ksef_token :=
         Resolved (Some \<lparr> atr_referenceNumber = None,
                           atr_authenticationToken =
                             Some \<lparr> tok_token = Some (lit ''tmp''), tok_validUntil = None \<rparr> \<rparr>),
       auth_status :=
         (\<lambda>n. \<lparr> poll_latency = 20, poll_outcome = Rejected (Some 404), poll_overrun = 0 \<rparr>) \<rparr>"

definition sample_malformed_token :: env where
  "sample_malformed_token =
     sample_env\<lparr> getConfig := Some \<lparr> auth_method = Some (lit ''token''),
                                      config_token = Some (lit ''garbage'') \<rparr> \<rparr>"

definition sample_status_failed :: env where
  "sample_status_failed = sample_env\<lparr> auth_status := (\<lambda>n. sample_status 450) \<rparr>"

definition sample_status_404 :: env where
  "sample_status_404 =
     sample_env\<lparr> auth_status :=
       (\<lambda>n. \<lparr> poll_latency = 20, poll_outcome = Rejected (Some 404), poll_overrun = 0 \<rparr>) \<rparr>"

text \<open>A service whose access token has expired.\<close>

definition sample_expired :: state where
  "sample_expired =
     sample_service\<lparr> accessToken := Some (lit ''old''), tokenExpiration := Some (Num 500) \<rparr>"

text \<open>
  A service holding an access token, an environment whose metadata endpoint answers 401,
  and a cache with one received invoice stored two minutes before the clock reading.
\<close>

definition sample_authenticated :: state where
  "sample_authenticated = sample_service\<lparr> accessToken := Some (lit ''acc'') \<rparr>"

definition sample_unauthorized :: env where
  "sample_unauthorized = sample_env\<lparr> invoices_query_metadata := (\<lambda>t. Rejected (Some 401)) \<rparr>"

definition sample_row :: cache_row where
  "sample_row = \<lparr> row_id = Some (lit ''INV1''), row_ksef_id = Some (lit ''INV1''),
                   row_type = received, row_data = lit ''INV1'', row_cached_at = lit ''880000'' \<rparr>"

definition sample_cached :: state where
  "sample_cached = (new_service 1000000)\<lparr> invoices_cache := [sample_row] \<rparr>"

text \<open>
  An initialised service whose cache holds a stale row, an environment whose metadata
  endpoint answers with one invoice, and an initialised service whose cache holds a row
  with text that is not JSON.
\<close>

definition sample_stale :: state where
  "sample_stale = sample_authenticated\<lparr> clock := 2000000, invoices_cache := [sample_row] \<rparr>"

definition sample_remote :: env where
  "sample_remote =
     sample_env\<lparr> invoices_query_metadata :=
       (\<lambda>t. Resolved (Some (Some
          [Some \<lparr> md_ksefNumber = Some (lit ''INV2''), md_ksefReferenceNumber = None,
                   md_invoiceNumber = None, md_issueDate = None, md_invoicingDate = None,
                   md_seller = None, md_buyer_name = None, md_netAmount = None,
                   md_grossAmount = None, md_currency = None \<rparr>]))) \<rparr>"

definition sample_corrupt :: state where
  "sample_corrupt =
     sample_authenticated\<lparr> clock := 2000000, invoices_cache := [sample_row\<lparr> row_data := [] \<rparr>] \<rparr>"

text \<open>
  A runtime whose local zone is one hour ahead of UTC: a text without zone is read as
  the time one hour before the same wall clock reading of UTC. And an initialised
  service with an empty cache that lists the received invoices at the clock reading
  1000000, which fetches and caches one invoice, and is asked again two minutes later.
\<close>

definition sample_east_of_utc :: env where
  "sample_east_of_utc =
     sample_remote\<lparr> Date_parse :=
       (\<lambda>x. case sample_date x of Num n \<Rightarrow> Num (n - 60 * 60 * 1000) | NaN \<Rightarrow> NaN) \<rparr>"

definition sample_two_minutes_later :: state where
  "sample_two_minutes_later =
     (snd (getReceivedInvoices sample_east_of_utc 10 0 (sample_authenticated\<lparr> clock := 1000000 \<rparr>)))
       \<lparr> clock := 1000000 + 2 * 60 * 1000 \<rparr>"

section \<open>Properties\<close>

lemma lit_eq_Nil [simp]: "lit t = [] \<longleftrightarrow> t = []"
  by (simp add: lit_def)

subsection \<open>The refresh timer\<close>

lemma timer_inv_new: "timer_inv (new_service t)"
  by (simp add: timer_inv_def new_service_def)

lemma timer_inv_start: "timer_inv s \<Longrightarrow> timer_inv (startTokenRefreshTimer s)"
  by (cases "refreshTimer s")
     (simp_all add: timer_inv_def startTokenRefreshTimer_def setInterval_def clearInterval_def)

lemma timer_inv_stop: "timer_inv s \<Longrightarrow> timer_inv (stopTokenRefreshTimer s)"
  by (cases "refreshTimer s")
     (simp_all add: timer_inv_def stopTokenRefreshTimer_def clearInterval_def)

lemma timer_inv_step: "timer_inv s \<Longrightarrow> timer_inv (timer_step s p)"
  by (cases p) (simp_all add: timer_inv_start timer_inv_stop)

lemma timer_inv_fold: "timer_inv s \<Longrightarrow> timer_inv (foldl timer_step s ps)"
  by (induction ps arbitrary: s) (simp_all add: timer_inv_step)

lemma timer_inv_length: "timer_inv s \<Longrightarrow> length (timers s) \<le> 1"
  by (cases "refreshTimer s") (simp_all add: timer_inv_def)

lemma stop_no_timer:
  "timer_inv s \<Longrightarrow> timers (stopTokenRefreshTimer s) = [] \<and> refreshTimer (stopTokenRefreshTimer s) = None"
  by (cases "refreshTimer s")
     (simp_all add: timer_inv_def stopTokenRefreshTimer_def clearInterval_def)

lemma stop_idem: "stopTokenRefreshTimer (stopTokenRefreshTimer s) = stopTokenRefreshTimer s"
  by (cases "refreshTimer s") (simp_all add: stopTokenRefreshTimer_def clearInterval_def)

lemma start_cancels_old:
  "timer_inv s \<Longrightarrow> timers (startTokenRefreshTimer s) = [next_timer s]
     \<and> refreshTimer (startTokenRefreshTimer s) = Some (next_timer s)"
  by (cases "refreshTimer s")
     (simp_all add: timer_inv_def startTokenRefreshTimer_def setInterval_def clearInterval_def)

text \<open>
  Claim C10. Starting from a newly constructed service, after any sequence of
  \<open>startTokenRefreshTimer\<close> and \<open>stopTokenRefreshTimer\<close> calls at most one interval
  timer is armed; a further start leaves exactly the newly installed timer armed (the
  previous one is cancelled first); a stop leaves no timer armed and no handle stored;
  stopping twice is the same as stopping once; and stopping a service on which no
  timer was ever started changes nothing.
\<close>

theorem refresh_timer_at_most_one:
  "length (timers (foldl timer_step (new_service t) ps)) \<le> 1
   \<and> timers (startTokenRefreshTimer (foldl timer_step (new_service t) ps))
       = [next_timer (foldl timer_step (new_service t) ps)]
   \<and> timers (stopTokenRefreshTimer (foldl timer_step (new_service t) ps)) = []
   \<and> refreshTimer (stopTokenRefreshTimer (foldl timer_step (new_service t) ps)) = None
   \<and> stopTokenRefreshTimer (stopTokenRefreshTimer (foldl timer_step (new_service t) ps))
       = stopTokenRefreshTimer (foldl timer_step (new_service t) ps)
   \<and> stopTokenRefreshTimer (new_service t) = new_service t"
proof -
  let ?s = "foldl timer_step (new_service t) ps"
  have inv: "timer_inv ?s"
    by (rule timer_inv_fold [OF timer_inv_new])
  have fresh: "stopTokenRefreshTimer (new_service t) = new_service t"
    by (simp add: stopTokenRefreshTimer_def new_service_def)
  show ?thesis
    using timer_inv_length [OF inv] start_cancels_old [OF inv] stop_no_timer [OF inv]
      stop_idem [of ?s] fresh
    by simp
qed


subsection \<open>Decoding a package\<close>

lemma decode_gzip:
  assumes "gunzipSync E (base64_decode E t) = Some g"
    and "startsWith (trim (utf8_decode E g)) xml_prolog"
  shows "decodeInvoicePackage E t = Some (utf8_decode E g)"
  using assms by (simp add: decodeInvoicePackage_def)

lemma decode_zip:
  assumes "gunzipSync E (base64_decode E t) = None"
    and "unzipper_Open_buffer E (base64_decode E t) = Some (Some c # rest)"
    and "trim (utf8_decode E c) \<noteq> []"
  shows "decodeInvoicePackage E t = Some (utf8_decode E c)"
  using assms by (simp add: decodeInvoicePackage_def)

lemma decode_plain:
  assumes "gunzipSync E (base64_decode E t) = Some g"
    and "\<not> startsWith (trim (utf8_decode E g)) xml_prolog"
    and "unzipper_Open_buffer E (base64_decode E t) = None"
    and "trim (utf8_decode E (base64_decode E t)) \<noteq> []"
  shows "decodeInvoicePackage E t = Some (utf8_decode E (base64_decode E t))"
  using assms by (simp add: decodeInvoicePackage_def)

text \<open>
  Claim C7, as amended. Let the decoders of the environment invert the encoders: base64,
  UTF-8, gzip, and a zip archive with a single entry, on which gunzip fails. Then
  \<open>decodeInvoicePackage\<close> returns a text unchanged from its base64-encoded gzip
  package when the text, trimmed, begins with the XML prolog \<open><?xml\<close>; and it
  returns a text unchanged from its base64-encoded single-entry zip archive when the
  text is not blank.
\<close>

theorem decodeInvoicePackage_roundtrip:
  fixes base64 :: "bytes \<Rightarrow> jsstring" and gzip zip1 :: "bytes \<Rightarrow> bytes" and utf8 :: "jsstring \<Rightarrow> bytes"
  assumes b64: "\<And>b. base64_decode E (base64 b) = b"
    and utf: "\<And>t. utf8_decode E (utf8 t) = t"
    and gz: "\<And>b. gunzipSync E (gzip b) = Some b"
    and zgz: "\<And>b. gunzipSync E (zip1 b) = None"
    and zp: "\<And>b. unzipper_Open_buffer E (zip1 b) = Some [Some b]"
  shows "(startsWith (trim xmlText) xml_prolog
            \<longrightarrow> decodeInvoicePackage E (base64 (gzip (utf8 xmlText))) = Some xmlText)
       \<and> (trim xmlText \<noteq> []
            \<longrightarrow> decodeInvoicePackage E (base64 (zip1 (utf8 xmlText))) = Some xmlText)"
proof (intro conjI impI)
  assume "startsWith (trim xmlText) xml_prolog"
  then show "decodeInvoicePackage E (base64 (gzip (utf8 xmlText))) = Some xmlText"
    using decode_gzip [of E "base64 (gzip (utf8 xmlText))" "utf8 xmlText"]
    by (simp add: b64 utf gz)
next
  assume "trim xmlText \<noteq> []"
  then show "decodeInvoicePackage E (base64 (zip1 (utf8 xmlText))) = Some xmlText"
    using decode_zip [of E "base64 (zip1 (utf8 xmlText))" "utf8 xmlText" "[]"]
    by (simp add: b64 utf zgz zp)
qed

lemma sample_codec:
  "base64_decode sample_env b = b" "utf8_decode sample_env b = b"
  "gunzipSync sample_env (sample_gzip b) = Some b"
  "gunzipSync sample_env (sample_zip b) = None"
  "unzipper_Open_buffer sample_env (sample_zip b) = Some [Some b]"
  "unzipper_Open_buffer sample_env (sample_gzip b) = None"
  by (simp_all add: sample_env_def sample_gunzip_def sample_unzip_def sample_gzip_def
        sample_zip_def startsWith_def)

lemma trim_ascii: "trim (lit ''<?xml version=\"1.0\"?><Faktura/>'') = lit ''<?xml version=\"1.0\"?><Faktura/>''"
  by (simp add: trim_def lit_def is_white_space_def is_line_terminator_def)

theorem decodeInvoicePackage_roundtrip_witness:
  "decodeInvoicePackage sample_env (sample_gzip (lit ''<?xml version=\"1.0\"?><Faktura/>''))
     = Some (lit ''<?xml version=\"1.0\"?><Faktura/>'')
   \<and> decodeInvoicePackage sample_env (sample_zip (lit ''<?xml version=\"1.0\"?><Faktura/>''))
     = Some (lit ''<?xml version=\"1.0\"?><Faktura/>'')"
  using decodeInvoicePackage_roundtrip [of sample_env "\<lambda>b. b" "\<lambda>t. t" sample_gzip sample_zip
      "lit ''<?xml version=\"1.0\"?><Faktura/>''"]
  by (simp add: sample_codec trim_ascii)
     (simp add: startsWith_def xml_prolog_def lit_def)

theorem decodeInvoicePackage_gzip_counterexample:
  "decodeInvoicePackage sample_env (sample_gzip (lit ''<Faktura/>''))
     = Some (31 # 139 # lit ''<Faktura/>'')
   \<and> decodeInvoicePackage sample_env (sample_gzip (lit ''<Faktura/>'')) \<noteq> Some (lit ''<Faktura/>'')"
proof -
  have t: "trim (lit ''<Faktura/>'') = lit ''<Faktura/>''"
    by (simp add: trim_def lit_def is_white_space_def is_line_terminator_def)
  have t2: "trim (sample_gzip (lit ''<Faktura/>'')) \<noteq> []"
    by (simp add: trim_def lit_def is_white_space_def is_line_terminator_def sample_gzip_def)
  have "decodeInvoicePackage sample_env (sample_gzip (lit ''<Faktura/>''))
          = Some (utf8_decode sample_env (base64_decode sample_env (sample_gzip (lit ''<Faktura/>''))))"
    by (rule decode_plain [where g = "lit ''<Faktura/>''"])
       (simp_all add: sample_codec t t2, simp add: startsWith_def xml_prolog_def lit_def)
  then show ?thesis
    by (simp add: sample_codec sample_gzip_def)
qed


subsection \<open>Encryption\<close>

lemma encrypt_some:
  assumes "ksefToken s = Some token" "token \<noteq> []"
    and "publicKeyCertificate s = Some cert" "cert \<noteq> []"
    and "createPublicKey E (certificatePEM cert) = Some key"
  shows "encryptTokenWithChallenge E T s =
           map_option (base64_encode E)
             (publicEncrypt E key RSA_PKCS1_OAEP_PADDING (lit ''sha256'')
                (utf8_encode E (token @ lit ''|'' @ numberToString T)))"
  using assms
  by (simp add: encryptTokenWithChallenge_def tokenToEncrypt_def split: option.splits)

lemma encrypt_none:
  assumes "\<not> truthy_str (ksefToken s) \<or> \<not> truthy_str (publicKeyCertificate s)
           \<or> (\<exists>cert. publicKeyCertificate s = Some cert \<and> createPublicKey E (certificatePEM cert) = None)"
  shows "encryptTokenWithChallenge E T s = None"
  using assms
  by (cases "ksefToken s"; cases "publicKeyCertificate s")
     (auto simp: encryptTokenWithChallenge_def)

lemma auth_encrypt_failed:
  assumes "loadPublicKeyCertificate E s = (True, s1)"
    and "getChallenge E s1 = (Some cd, s2)"
    and "encryptTokenWithChallenge E (cd_timestampMs cd) s2 = None"
  shows "authenticateWithKSeF E s = (AuthFailed EncryptionFailed, s2)"
  using assms by (simp add: authenticateWithKSeF_def)

lemma auth_challenge_failed:
  assumes "loadPublicKeyCertificate E s = (True, s1)"
    and "getChallenge E s1 = (None, s2)"
  shows "authenticateWithKSeF E s = (AuthFailed ChallengeUnavailable, s2)"
  using assms by (simp add: authenticateWithKSeF_def)

text \<open>
  Claim C4. With a stored token and certificate, both non-empty, and a certificate whose
  PEM form the runtime parses into a key, \<open>encryptTokenWithChallenge\<close> returns the
  base64 text of what the public-key encryption with OAEP padding and the SHA-256
  digest makes of the bytes of exactly \<open>token|timestamp\<close>. It returns nothing when the
  token or the certificate is missing or empty, or when the certificate cannot be
  parsed; and \<open>authenticateWithKSeF\<close> then fails at the encryption step.
\<close>

theorem encryptTokenWithChallenge_plaintext:
  "(ksefToken s = Some token \<and> token \<noteq> [] \<and> publicKeyCertificate s = Some cert \<and> cert \<noteq> []
      \<and> createPublicKey E (certificatePEM cert) = Some key
    \<longrightarrow> encryptTokenWithChallenge E T s =
          map_option (base64_encode E)
            (publicEncrypt E key RSA_PKCS1_OAEP_PADDING (lit ''sha256'')
               (utf8_encode E (token @ lit ''|'' @ numberToString T))))
   \<and> (\<not> truthy_str (ksefToken s) \<or> \<not> truthy_str (publicKeyCertificate s)
        \<or> (\<exists>c. publicKeyCertificate s = Some c \<and> createPublicKey E (certificatePEM c) = None)
    \<longrightarrow> encryptTokenWithChallenge E T s = None)
   \<and> (loadPublicKeyCertificate E s0 = (True, s1) \<and> getChallenge E s1 = (Some cd, s2)
        \<and> encryptTokenWithChallenge E (cd_timestampMs cd) s2 = None
    \<longrightarrow> authenticateWithKSeF E s0 = (AuthFailed EncryptionFailed, s2))"
  using encrypt_some [of s token cert E key T] encrypt_none [of s E T]
    auth_encrypt_failed [of E s0 s1 cd s2]
  by blast


theorem encryptTokenWithChallenge_plaintext_witness:
  "encryptTokenWithChallenge sample_env (Num 1700000000000)
      (sample_service\<lparr> publicKeyCertificate := Some (lit ''MIIB'') \<rparr>)
     = Some (rev (lit ''ref|nip-123|secret|1700000000000''))
   \<and> encryptTokenWithChallenge sample_env (Num 1700000000000) (new_service 1000) = None"
proof -
  have p: "lit ''ref|nip-123|secret'' @ lit ''|'' @ numberToString (Num 1700000000000)
           = lit ''ref|nip-123|secret|1700000000000''"
    by (simp add: lit_def)
  have h: "ksefToken (sample_service\<lparr> publicKeyCertificate := Some (lit ''MIIB'') \<rparr>)
             = Some (lit ''ref|nip-123|secret'')
      \<and> lit ''ref|nip-123|secret'' \<noteq> []
      \<and> publicKeyCertificate (sample_service\<lparr> publicKeyCertificate := Some (lit ''MIIB'') \<rparr>)
             = Some (lit ''MIIB'')
      \<and> lit ''MIIB'' \<noteq> []
      \<and> createPublicKey sample_env (certificatePEM (lit ''MIIB'')) = Some (certificatePEM (lit ''MIIB''))"
    by (simp add: sample_service_def new_service_def sample_env_def)
  have "encryptTokenWithChallenge sample_env (Num 1700000000000)
      (sample_service\<lparr> publicKeyCertificate := Some (lit ''MIIB'') \<rparr>)
     = map_option (base64_encode sample_env)
         (publicEncrypt sample_env (certificatePEM (lit ''MIIB'')) RSA_PKCS1_OAEP_PADDING (lit ''sha256'')
            (utf8_encode sample_env (lit ''ref|nip-123|secret'' @ lit ''|'' @ numberToString (Num 1700000000000))))"
    by (rule encryptTokenWithChallenge_plaintext [THEN conjunct1, rule_format, OF h])
  also have "\<dots> = Some (rev (lit ''ref|nip-123|secret|1700000000000''))"
    by (simp only: p) (simp add: sample_env_def)
  finally have a: "encryptTokenWithChallenge sample_env (Num 1700000000000)
      (sample_service\<lparr> publicKeyCertificate := Some (lit ''MIIB'') \<rparr>)
     = Some (rev (lit ''ref|nip-123|secret|1700000000000''))" .
  have b: "encryptTokenWithChallenge sample_env (Num 1700000000000) (new_service 1000) = None"
    using encryptTokenWithChallenge_plaintext [THEN conjunct2, THEN conjunct1,
        of "new_service 1000" sample_env "Num 1700000000000"]
    by (simp add: new_service_def)
  show ?thesis using a b by simp
qed

subsection \<open>Challenge\<close>

lemma getChallenge_some:
  assumes "auth_challenge E = Resolved (Some d)" "cr_challenge d = Some c" "c \<noteq> []"
  shows "getChallenge E s =
           (Some \<lparr> cd_challenge = c,
                   cd_timestampMs =
                     (if truthy_num (cr_timestampMs d) then the (cr_timestampMs d)
                      else if truthy_str (cr_timestamp d) then Date_parse E (cr_timestamp d)
                      else Num (int (clock s))) \<rparr>,
            log_call POST_auth_challenge s)"
  using assms
  by (cases "cr_timestampMs d") (simp_all add: getChallenge_def log_call_def)

lemma getChallenge_none:
  "fst (getChallenge E s) = None \<longleftrightarrow>
     (\<forall>d c. auth_challenge E = Resolved (Some d) \<and> cr_challenge d = Some c \<longrightarrow> c = [])"
  by (auto simp: getChallenge_def Let_def split: http.splits option.splits)


subsection \<open>The request interceptor\<close>

lemma request_interceptor_cong:
  "accessToken s' = accessToken s \<Longrightarrow> request_interceptor s' a = request_interceptor s a"
  by (simp add: request_interceptor_def)

lemma request_interceptor_update [simp]:
  "request_interceptor (s\<lparr> clock := k \<rparr>) a = request_interceptor s a"
  "request_interceptor (s\<lparr> calls := cs \<rparr>) a = request_interceptor s a"
  "request_interceptor (s\<lparr> publicKeyCertificate := c \<rparr>) a = request_interceptor s a"
  "request_interceptor (s\<lparr> ksefToken := t \<rparr>) a = request_interceptor s a"
  "request_interceptor (s\<lparr> nip := n \<rparr>) a = request_interceptor s a"
  by (simp_all add: request_interceptor_def)

lemma request_interceptor_none:
  "\<not> truthy_str (accessToken s) \<Longrightarrow> request_interceptor s a = a"
  by (simp add: request_interceptor_def)

lemma token_trace_cong:
  "accessToken s' = accessToken s \<Longrightarrow> token_trace E s' new = token_trace E s new"
  by (simp add: token_trace_def request_interceptor_def)

subsection \<open>Polling\<close>

lemma poll_loop_ready:
  assumes "int (clock s) - int startTime < int maxWaitMs"
    and "poll_outcome (auth_status E (Suc n)) = Resolved (Some st)" "status_code st = Some 200"
  shows "poll_loop E r a maxWaitMs startTime n s = (True, poll_request r a (auth_status E (Suc n)) s)"
  using assms by (subst poll_loop.simps) simp

lemma poll_loop_failed:
  assumes "int (clock s) - int startTime < int maxWaitMs"
    and "poll_outcome (auth_status E (Suc n)) = Resolved (Some st)"
    and "status_code st \<noteq> Some 200" "status_code st \<noteq> Some 100"
  shows "poll_loop E r a maxWaitMs startTime n s = (False, poll_request r a (auth_status E (Suc n)) s)"
  using assms by (subst poll_loop.simps) simp

lemma poll_loop_retry:
  assumes "int (clock s) - int startTime < int maxWaitMs"
    and "(\<exists>st. poll_outcome (auth_status E (Suc n)) = Resolved (Some st) \<and> status_code st = Some 100)
         \<or> poll_outcome (auth_status E (Suc n)) = Resolved None
         \<or> (\<exists>e. poll_outcome (auth_status E (Suc n)) = Rejected e)"
  shows "poll_loop E r a maxWaitMs startTime n s =
           poll_loop E r a maxWaitMs startTime (Suc n)
             (sleep pollIntervalMs (poll_overrun (auth_status E (Suc n)))
                (poll_request r a (auth_status E (Suc n)) s))"
  using assms by (subst poll_loop.simps) (auto simp: Let_def)

lemma poll_loop_timeout:
  assumes "\<not> int (clock s) - int startTime < int maxWaitMs"
  shows "poll_loop E r a maxWaitMs startTime n s = (True, s)"
  using assms by (subst poll_loop.simps) simp

lemma poll_loop_cases:
  assumes "int (clock s) - int startTime < int maxWaitMs"
  shows "poll_loop E r a maxWaitMs startTime n s = (True, poll_request r a (auth_status E (Suc n)) s)
       \<or> poll_loop E r a maxWaitMs startTime n s = (False, poll_request r a (auth_status E (Suc n)) s)
       \<or> poll_loop E r a maxWaitMs startTime n s =
            poll_loop E r a maxWaitMs startTime (Suc n) (poll_step E r a n s)"
  using assms
  by (subst (1 2 3) poll_loop.simps) (auto simp: Let_def poll_step_def split: http.splits option.splits)

lemma poll_loop_effect:
  "poll_loop E r a maxWaitMs startTime n s = (ok, s') \<Longrightarrow>
     \<exists>ps. list_all is_poll ps \<and> s' = s\<lparr> clock := clock s', calls := calls s @ ps \<rparr>"
proof (induction "nat (int startTime + int maxWaitMs - int (clock s))" arbitrary: n s rule: less_induct)
  case less
  show ?case
  proof (cases "int (clock s) - int startTime < int maxWaitMs")
    case False
    then have "s' = s" using less.prems poll_loop_timeout by simp
    then show ?thesis by (intro exI [of _ "[]"]) simp
  next
    case True
    let ?q = "poll_request r a (auth_status E (Suc n)) s"
    let ?t = "poll_step E r a n s"
    have q: "?q = s\<lparr> clock := clock ?q, calls := calls s @ [GET_auth_status r (request_interceptor s a)] \<rparr>"
      by (simp add: poll_request_def log_call_def)
    have t: "?t = s\<lparr> clock := clock ?t, calls := calls s @ [GET_auth_status r (request_interceptor s a), Sleep pollIntervalMs] \<rparr>"
      by (simp add: poll_step_def sleep_def poll_request_def log_call_def)
    from poll_loop_cases [OF True, of E r a n]
    consider "s' = ?q" | "poll_loop E r a maxWaitMs startTime (Suc n) ?t = (ok, s')"
      using less.prems by auto
    then show ?thesis
    proof cases
      case 1
      then show ?thesis using q by (intro exI [of _ "[GET_auth_status r (request_interceptor s a)]"]) simp
    next
      case 2
      have "clock s < clock ?t"
        by (simp add: poll_step_def sleep_def poll_request_def log_call_def pollIntervalMs_def)
      then have "nat (int startTime + int maxWaitMs - int (clock ?t))
                 < nat (int startTime + int maxWaitMs - int (clock s))"
        using True by linarith
      from less.hyps [OF this 2] obtain ps where
        ps: "list_all is_poll ps" "s' = ?t\<lparr> clock := clock s', calls := calls ?t @ ps \<rparr>"
        by blast
      have "s' = s\<lparr> clock := clock s', calls := calls s @ ([GET_auth_status r (request_interceptor s a), Sleep pollIntervalMs] @ ps) \<rparr>"
        by (subst ps(2)) (simp add: poll_step_def sleep_def poll_request_def log_call_def)
      moreover have "list_all is_poll ([GET_auth_status r (request_interceptor s a), Sleep pollIntervalMs] @ ps)"
        using ps(1) by simp
      ultimately show ?thesis by blast
    qed
  qed
qed

subsection \<open>What the authentication flow calls\<close>

lemma poll_loop_effect':
  assumes "poll_loop E r a maxWaitMs startTime n s = (ok, s')"
  shows "\<exists>k ps. list_all is_poll ps \<and> s' = s\<lparr> clock := k, calls := calls s @ ps \<rparr>"
  using poll_loop_effect [OF assms] by blast

lemma load_effect0:
  "loadPublicKeyCertificate E s = (ok, s1) \<Longrightarrow>
     s1 = s\<lparr> publicKeyCertificate := publicKeyCertificate s1,
              calls := calls s @ [GET_public_key_certificates] \<rparr>"
  by (auto simp: loadPublicKeyCertificate_def log_call_def Let_def
           split: http.splits option.splits list.splits)

lemma load_effect:
  assumes "loadPublicKeyCertificate E s = (ok, s1)"
  shows "\<exists>c. s1 = s\<lparr> publicKeyCertificate := c, calls := calls s @ [GET_public_key_certificates] \<rparr>"
  by (rule exI) (rule load_effect0 [OF assms])

lemma getChallenge_effect:
  "getChallenge E s = (r, s1) \<Longrightarrow> s1 = s\<lparr> calls := calls s @ [POST_auth_challenge] \<rparr>"
  by (auto simp: getChallenge_def log_call_def Let_def split: http.splits option.splits if_splits)

lemma redeem_effect:
  "redeemAccessToken E t s = (r, s1) \<Longrightarrow>
     s1 = s\<lparr> calls := calls s @ [POST_auth_token_redeem (request_interceptor s t)] \<rparr>
     \<and> (\<forall>k. r = Some k \<longleftrightarrow> auth_token_redeem E = Resolved (Some (Some k)))"
  by (auto simp: redeemAccessToken_def log_call_def Let_def split: http.splits option.splits)

lemma wait_effect:
  "waitForTokenAuthStatus E r a m s = (ok, s') \<Longrightarrow>
     \<exists>k ps. list_all is_poll ps \<and> s' = s\<lparr> clock := k, calls := calls s @ ps \<rparr>"
  unfolding waitForTokenAuthStatus_def by (rule poll_loop_effect')

lemma authenticateWithToken_effect:
  assumes "authenticateWithToken E ch enc s = (r, s')"
  shows "\<exists>k new. token_trace E s new \<and> s' = s\<lparr> clock := k, calls := calls s @ new \<rparr>
           \<and> (new \<noteq> [] \<longrightarrow> truthy_str (nip s))"
proof (cases "truthy_str (nip s)")
  case False
  then have "s' = s" using assms
    by (cases "nip s") (auto simp: authenticateWithToken_def)
  then have "token_trace E s [] \<and> s' = s\<lparr> clock := clock s, calls := calls s @ [] \<rparr>
      \<and> ([] \<noteq> ([]::call list) \<longrightarrow> truthy_str (nip s))"
    by (simp add: token_trace_def)
  then show ?thesis by blast
next
  case True
  then obtain n where n: "nip s = Some n" "n \<noteq> []" by (cases "nip s") auto
  let ?s1 = "log_call (POST_auth_ksef_token ch n enc) s"
  show ?thesis
  proof (cases "\<exists>d a. auth_ksef_token E = Resolved (Some d) \<and> atr_authenticationToken d = Some a")
    case False
    then have "s' = ?s1" using assms n
      by (auto simp: authenticateWithToken_def Let_def split: http.splits option.splits)
    then have "token_trace E s [POST_auth_ksef_token ch n enc]
        \<and> s' = s\<lparr> clock := clock s, calls := calls s @ [POST_auth_ksef_token ch n enc] \<rparr>
        \<and> ([POST_auth_ksef_token ch n enc] \<noteq> [] \<longrightarrow> truthy_str (nip s))"
      using \<open>truthy_str (nip s)\<close> by (simp add: token_trace_def log_call_def)
    then show ?thesis by blast
  next
    case True
    then obtain d a where d: "auth_ksef_token E = Resolved (Some d)" "atr_authenticationToken d = Some a"
      by blast
    obtain ok s2 where w: "waitForTokenAuthStatus E (atr_referenceNumber d) (tok_token a) maxWaitMs_default ?s1 = (ok, s2)"
      by (cases "waitForTokenAuthStatus E (atr_referenceNumber d) (tok_token a) maxWaitMs_default ?s1") auto
    from wait_effect [OF w] obtain k ps where
      ps: "list_all is_poll ps" "s2 = ?s1\<lparr> clock := k, calls := calls ?s1 @ ps \<rparr>"
      by blast
    have s2: "s2 = s\<lparr> clock := k, calls := calls s @ POST_auth_ksef_token ch n enc # ps \<rparr>"
      by (subst ps(2)) (simp add: log_call_def)
    show ?thesis
    proof (cases ok)
      case False
      then have "s' = s2" using assms n d w
        by (simp add: authenticateWithToken_def Let_def)
      then have "token_trace E s (POST_auth_ksef_token ch n enc # ps)
          \<and> s' = s\<lparr> clock := k, calls := calls s @ POST_auth_ksef_token ch n enc # ps \<rparr>
          \<and> (POST_auth_ksef_token ch n enc # ps \<noteq> [] \<longrightarrow> truthy_str (nip s))"
        using s2 ps(1) \<open>truthy_str (nip s)\<close> by (auto simp: token_trace_def)
      then show ?thesis by blast
    next
      case True
      obtain t s3 where rd: "redeemAccessToken E (tok_token a) s2 = (t, s3)"
        by (cases "redeemAccessToken E (tok_token a) s2") auto
      have "s' = s3" using assms n d w True rd
        by (auto simp: authenticateWithToken_def Let_def split: option.splits)
      moreover have "s3 = s\<lparr> clock := k,
          calls := calls s @ POST_auth_ksef_token ch n enc # ps @ [POST_auth_token_redeem (request_interceptor s (tok_token a))] \<rparr>"
        using redeem_effect [OF rd] by (simp add: s2)
      ultimately have "token_trace E s (POST_auth_ksef_token ch n enc # ps @ [POST_auth_token_redeem (request_interceptor s (tok_token a))])
          \<and> s' = s\<lparr> clock := k,
                calls := calls s @ POST_auth_ksef_token ch n enc # ps @ [POST_auth_token_redeem (request_interceptor s (tok_token a))] \<rparr>
          \<and> (POST_auth_ksef_token ch n enc # ps @ [POST_auth_token_redeem (request_interceptor s (tok_token a))] \<noteq> []
                \<longrightarrow> truthy_str (nip s))"
        using ps(1) d \<open>truthy_str (nip s)\<close> by (auto simp: token_trace_def)
      then show ?thesis by blast
    qed
  qed
qed

text \<open>What one run of the authentication flow adds to the calls.\<close>

lemma authenticateWithKSeF_effect:
  assumes "authenticateWithKSeF E s = (r, s')"
  shows "\<exists>k c t x pre new. s' = s\<lparr> accessToken := t, tokenExpiration := x, publicKeyCertificate := c,
                                clock := k, calls := calls s @ pre @ new \<rparr>
           \<and> (pre = [GET_public_key_certificates] \<and> new = []
                \<or> pre = [GET_public_key_certificates, POST_auth_challenge] \<and> token_trace E s new)
           \<and> (new \<noteq> [] \<longrightarrow> truthy_str (nip s))"
proof -
  obtain ok s1 where l: "loadPublicKeyCertificate E s = (ok, s1)"
    by (cases "loadPublicKeyCertificate E s") auto
  from load_effect [OF l] obtain c where
    s1: "s1 = s\<lparr> publicKeyCertificate := c, calls := calls s @ [GET_public_key_certificates] \<rparr>"
    by blast
  have base: "s = s\<lparr> accessToken := accessToken s, tokenExpiration := tokenExpiration s \<rparr>"
    by simp
  show ?thesis
  proof (cases ok)
    case False
    then have "s' = s1" using assms l by (simp add: authenticateWithKSeF_def)
    then have "s' = s\<lparr> accessToken := accessToken s, tokenExpiration := tokenExpiration s,
                 publicKeyCertificate := c, clock := clock s,
                 calls := calls s @ [GET_public_key_certificates] @ [] \<rparr>"
      by (simp add: s1)
    then show ?thesis by blast
  next
    case True
    obtain g s2 where g: "getChallenge E s1 = (g, s2)"
      by (cases "getChallenge E s1") auto
    have s2: "s2 = s\<lparr> publicKeyCertificate := c,
                      calls := calls s @ [GET_public_key_certificates, POST_auth_challenge] \<rparr>"
      using getChallenge_effect [OF g] by (simp add: s1)
    have stop: ?thesis if "s' = s2"
    proof -
      have "s' = s\<lparr> accessToken := accessToken s, tokenExpiration := tokenExpiration s,
                 publicKeyCertificate := c, clock := clock s,
                 calls := calls s @ [GET_public_key_certificates, POST_auth_challenge] @ [] \<rparr>"
        using that by (simp add: s2)
      moreover have "token_trace E s []" by (simp add: token_trace_def)
      ultimately show ?thesis by blast
    qed
    show ?thesis
    proof (cases g)
      case None
      then have "s' = s2" using assms l True g by (simp add: authenticateWithKSeF_def)
      then show ?thesis by (rule stop)
    next
      case (Some cd)
      show ?thesis
      proof (cases "\<exists>enc. encryptTokenWithChallenge E (cd_timestampMs cd) s2 = Some enc \<and> enc \<noteq> []")
        case False
        then have "s' = s2" using assms l True g Some
          by (auto simp: authenticateWithKSeF_def split: option.splits)
        then show ?thesis by (rule stop)
      next
        case True
        then obtain enc where enc: "encryptTokenWithChallenge E (cd_timestampMs cd) s2 = Some enc" "enc \<noteq> []"
          by blast
        obtain a s3 where a: "authenticateWithToken E (cd_challenge cd) enc s2 = (a, s3)"
          by (cases "authenticateWithToken E (cd_challenge cd) enc s2") auto
        have acc: "accessToken s2 = accessToken s" by (subst s2) simp
        from authenticateWithToken_effect [OF a] obtain k new where
          new0: "token_trace E s2 new" and new23: "s3 = s2\<lparr> clock := k, calls := calls s2 @ new \<rparr>"
               "new \<noteq> [] \<longrightarrow> truthy_str (nip s2)"
          by blast
        have new1: "token_trace E s new" using new0 token_trace_cong [OF acc] by simp
        note new = new1 new23
        have s3: "s3 = s\<lparr> publicKeyCertificate := c, clock := k,
                      calls := calls s @ [GET_public_key_certificates, POST_auth_challenge] @ new \<rparr>"
          by (subst new(2)) (simp add: s2)
        have nip: "new \<noteq> [] \<longrightarrow> truthy_str (nip s)"
          using new(3) by (simp add: s2)
        have "\<exists>t x. s' = s3\<lparr> accessToken := t, tokenExpiration := x \<rparr>"
        proof (cases a)
          case (Inl f)
          then have "s' = s3" using assms l \<open>ok\<close> g Some enc a by (simp add: authenticateWithKSeF_def)
          then show ?thesis
            by (intro exI [of _ "accessToken s3"] exI [of _ "tokenExpiration s3"]) simp
        next
          case (Inr tk)
          then show ?thesis using assms l \<open>ok\<close> g Some enc a
            by (auto simp: authenticateWithKSeF_def Let_def split: if_splits)
        qed
        then obtain t x where "s' = s3\<lparr> accessToken := t, tokenExpiration := x \<rparr>" by blast
        then have "s' = s\<lparr> accessToken := t, tokenExpiration := x, publicKeyCertificate := c, clock := k,
                      calls := calls s @ [GET_public_key_certificates, POST_auth_challenge] @ new \<rparr>"
          by (simp add: s3)
        then show ?thesis using new(1) nip by blast
      qed
    qed
  qed
qed

lemma new_calls_append: "calls s' = calls s @ xs \<Longrightarrow> new_calls s s' = xs"
  by (simp add: new_calls_def)

lemma poll_not_redeem: "is_poll c \<Longrightarrow> \<not> is_redeem c"
  by (cases c) simp_all

lemma token_trace_redeem:
  assumes "token_trace E s new" and "pre @ new = before @ POST_auth_token_redeem t # after"
    and "list_all (\<lambda>c. \<not> is_redeem c) pre"
  shows "after = [] \<and> (\<exists>c \<in> set before. is_submit c) \<and> (\<forall>c \<in> set before. \<not> is_redeem c)
         \<and> (\<exists>d a. auth_ksef_token E = Resolved (Some d) \<and> atr_authenticationToken d = Some a
                \<and> t = request_interceptor s (tok_token a))"
proof -
  have nopoll: "list_all (\<lambda>c. \<not> is_redeem c) ps" if "list_all is_poll ps" for ps
    using that poll_not_redeem by (simp add: list_all_iff)
  have impossible: False if "list_all (\<lambda>c. \<not> is_redeem c) xs" "xs = b @ POST_auth_token_redeem t # af" for xs b af
  proof -
    have "POST_auth_token_redeem t \<in> set xs" using that(2) by simp
    moreover have "\<forall>c \<in> set xs. \<not> is_redeem c" using that(1) by (simp add: list_all_iff)
    ultimately have "\<not> is_redeem (POST_auth_token_redeem t)" by blast
    then show False by simp
  qed
  from assms(1) show ?thesis unfolding token_trace_def
  proof (elim disjE exE conjE)
    assume "new = []"
    then show ?thesis using impossible [of pre] assms(2,3) by simp
  next
    fix c n e ps
    assume 2: "list_all is_poll ps" "new = POST_auth_ksef_token c n e # ps"
    then have "list_all (\<lambda>c. \<not> is_redeem c) (pre @ new)"
      using assms(3) nopoll [OF 2(1)] by simp
    then show ?thesis using impossible [OF _ assms(2)] by simp
  next
    fix c n e ps d a
    assume 3: "auth_ksef_token E = Resolved (Some d)" "atr_authenticationToken d = Some a"
        "list_all is_poll ps" "new = POST_auth_ksef_token c n e # ps @ [POST_auth_token_redeem (request_interceptor s (tok_token a))]"
    let ?xs = "pre @ POST_auth_ksef_token c n e # ps"
    have xs: "list_all (\<lambda>c. \<not> is_redeem c) ?xs"
      using assms(3) nopoll [OF 3(3)] by simp
    have eq: "?xs @ [POST_auth_token_redeem (request_interceptor s (tok_token a))] = before @ POST_auth_token_redeem t # after"
      using assms(2) 3(4) by simp
    have split: "after = [] \<and> before = ?xs \<and> t = request_interceptor s (tok_token a)"
    proof (cases after rule: rev_cases)
      case Nil
      then show ?thesis using eq by simp
    next
      case (snoc ys y)
      then have "?xs @ [POST_auth_token_redeem (request_interceptor s (tok_token a))] = (before @ POST_auth_token_redeem t # ys) @ [y]"
        using eq by simp
      then have "?xs = before @ POST_auth_token_redeem t # ys"
        by (simp only: append1_eq_conv)
      then show ?thesis using impossible [OF xs] by blast
    qed
    have sub: "\<exists>x \<in> set ?xs. is_submit x" by simp
    have nored: "\<forall>x \<in> set ?xs. \<not> is_redeem x" using xs by (simp add: list_all_iff)
    show ?thesis using split sub nored 3(1,2) by blast
  qed
qed

lemma auth_sequencing:
  assumes "new_calls s (snd (authenticateWithKSeF E s)) = before @ POST_auth_token_redeem t # after"
  shows "after = [] \<and> (\<exists>c \<in> set before. is_submit c) \<and> (\<forall>c \<in> set before. \<not> is_redeem c)
         \<and> (\<exists>d a. auth_ksef_token E = Resolved (Some d) \<and> atr_authenticationToken d = Some a
                \<and> t = request_interceptor s (tok_token a))"
proof -
  obtain r s' where run: "authenticateWithKSeF E s = (r, s')"
    by (cases "authenticateWithKSeF E s") auto
  from authenticateWithKSeF_effect [OF run] obtain k c tk x pre new where
    eff: "s' = s\<lparr> accessToken := tk, tokenExpiration := x, publicKeyCertificate := c,
                  clock := k, calls := calls s @ pre @ new \<rparr>"
      "pre = [GET_public_key_certificates] \<and> new = []
       \<or> pre = [GET_public_key_certificates, POST_auth_challenge] \<and> token_trace E s new"
    by blast
  have "calls s' = calls s @ pre @ new" by (subst eff(1)) simp
  then have "new_calls s s' = pre @ new" by (rule new_calls_append)
  then have nc: "pre @ new = before @ POST_auth_token_redeem t # after"
    using assms run by simp
  have pre: "list_all (\<lambda>c. \<not> is_redeem c) pre" using eff(2) by auto
  have tt: "token_trace E s new" using eff(2) by (auto simp: token_trace_def)
  show ?thesis by (rule token_trace_redeem [OF tt nc pre])
qed

subsection \<open>A fixed polling scenario\<close>

lemma clock_poll_step:
  "clock (poll_step E r a n s) =
     clock s + poll_latency (auth_status E (Suc n)) + 500 + poll_overrun (auth_status E (Suc n))"
  by (simp add: poll_step_def sleep_def poll_request_def log_call_def pollIntervalMs_def)

lemma poll_loop_step:
  assumes "int (clock s) - int startTime < int maxWaitMs"
    and "poll_outcome (auth_status E (Suc n)) = Resolved (Some st)" "status_code st = Some 100"
  shows "poll_loop E r a maxWaitMs startTime n s =
           poll_loop E r a maxWaitMs startTime (Suc n) (poll_step E r a n s)"
  using poll_loop_retry [OF assms(1), of E n r a] assms(2,3) by (simp add: poll_step_def)

lemma poll_scenario:
  assumes p1: "poll_outcome (auth_status E (Suc 0)) = Resolved (Some st1)" "status_code st1 = Some 100"
    and p2: "poll_outcome (auth_status E (Suc (Suc 0))) = Resolved (Some st2)" "status_code st2 = Some 100"
    and p3: "poll_outcome (auth_status E (Suc (Suc (Suc 0)))) = Resolved (Some st3)" "status_code st3 = Some 100"
    and p4: "poll_outcome (auth_status E (Suc (Suc (Suc (Suc 0))))) = Resolved (Some st4)" "status_code st4 = Some 200"
    and timing: "poll_latency (auth_status E (Suc 0)) + 500 + poll_overrun (auth_status E (Suc 0))
               + (poll_latency (auth_status E (Suc (Suc 0))) + 500 + poll_overrun (auth_status E (Suc (Suc 0))))
               + (poll_latency (auth_status E (Suc (Suc (Suc 0)))) + 500
                  + poll_overrun (auth_status E (Suc (Suc (Suc 0))))) < maxWaitMs"
  shows "waitForTokenAuthStatus E r a maxWaitMs s =
           (True, poll_request r a (auth_status E (Suc (Suc (Suc (Suc 0)))))
                    (poll_step E r a (Suc (Suc 0)) (poll_step E r a (Suc 0) (poll_step E r a 0 s))))"
proof -
  let ?s1 = "poll_step E r a 0 s"
  let ?s2 = "poll_step E r a (Suc 0) ?s1"
  let ?s3 = "poll_step E r a (Suc (Suc 0)) ?s2"
  have c0: "int (clock s) - int (clock s) < int maxWaitMs" using timing by simp
  have c1: "int (clock ?s1) - int (clock s) < int maxWaitMs"
    using timing by (simp add: clock_poll_step)
  have c2: "int (clock ?s2) - int (clock s) < int maxWaitMs"
    using timing by (simp add: clock_poll_step)
  have c3: "int (clock ?s3) - int (clock s) < int maxWaitMs"
    using timing by (simp add: clock_poll_step)
  have "poll_loop E r a maxWaitMs (clock s) 0 s = poll_loop E r a maxWaitMs (clock s) (Suc 0) ?s1"
    by (rule poll_loop_step [OF c0 p1])
  also have "\<dots> = poll_loop E r a maxWaitMs (clock s) (Suc (Suc 0)) ?s2"
    by (rule poll_loop_step [OF c1 p2])
  also have "\<dots> = poll_loop E r a maxWaitMs (clock s) (Suc (Suc (Suc 0))) ?s3"
    by (rule poll_loop_step [OF c2 p3])
  also have "\<dots> = (True, poll_request r a (auth_status E (Suc (Suc (Suc (Suc 0))))) ?s3)"
    by (rule poll_loop_ready [OF c3 p4])
  finally show ?thesis by (simp add: waitForTokenAuthStatus_def)
qed

lemma poll_scenario_calls:
  "calls (poll_request r a x (poll_step E r a n2 (poll_step E r a n1 (poll_step E r a n0 s)))) =
     calls s @ [GET_auth_status r (request_interceptor s a), Sleep 500,
                GET_auth_status r (request_interceptor s a), Sleep 500,
                GET_auth_status r (request_interceptor s a), Sleep 500,
                GET_auth_status r (request_interceptor s a)]"
  by (simp add: poll_step_def sleep_def poll_request_def log_call_def pollIntervalMs_def)

subsection \<open>The whole flow\<close>

lemma load_nip:
  assumes "loadPublicKeyCertificate E s = (ok, s1)"
  shows "nip s1 = nip s" "ksefToken s1 = ksefToken s" "clock s1 = clock s"
        "new_calls s s1 = [GET_public_key_certificates]"
proof -
  from load_effect [OF assms] obtain c where
    "s1 = s\<lparr> publicKeyCertificate := c, calls := calls s @ [GET_public_key_certificates] \<rparr>"
    by blast
  then show "nip s1 = nip s" "ksefToken s1 = ksefToken s" "clock s1 = clock s"
    "new_calls s s1 = [GET_public_key_certificates]"
    by (simp_all add: new_calls_def)
qed

lemma authenticateWithToken_no_nip:
  assumes "\<not> truthy_str (nip s)"
  shows "authenticateWithToken E ch enc s = (Inl NipNotAvailable, s)"
  using assms by (cases "nip s") (auto simp: authenticateWithToken_def)

lemma authenticateWithToken_run:
  assumes "nip s = Some n" "n \<noteq> []"
    and "auth_ksef_token E = Resolved (Some d)" "atr_authenticationToken d = Some a"
    and "waitForTokenAuthStatus E (atr_referenceNumber d) (tok_token a) maxWaitMs_default
           (log_call (POST_auth_ksef_token ch n enc) s) = (True, s2)"
  shows "authenticateWithToken E ch enc s =
           (case auth_token_redeem E of
              Resolved (Some (Some tk)) \<Rightarrow> Inr tk
            | _ \<Rightarrow> Inl RedemptionFailed,
            log_call (POST_auth_token_redeem (request_interceptor s (tok_token a))) s2)"
proof -
  from wait_effect [OF assms(5)] obtain k ps where
    "s2 = (log_call (POST_auth_ksef_token ch n enc) s)
            \<lparr> clock := k, calls := calls (log_call (POST_auth_ksef_token ch n enc) s) @ ps \<rparr>"
    by blast
  then have "accessToken s2 = accessToken s" by (simp add: log_call_def)
  then have "request_interceptor s2 (tok_token a) = request_interceptor s (tok_token a)"
    by (rule request_interceptor_cong)
  then show ?thesis
    using assms
    by (auto simp: authenticateWithToken_def redeemAccessToken_def Let_def
             split: http.splits option.splits)
qed

lemma authenticateWithToken_submits:
  assumes "nip s = Some n" "n \<noteq> []"
  shows "\<exists>rest. calls (snd (authenticateWithToken E ch enc s)) = calls s @ POST_auth_ksef_token ch n enc # rest"
proof -
  let ?s1 = "log_call (POST_auth_ksef_token ch n enc) s"
  have s1: "calls ?s1 = calls s @ [POST_auth_ksef_token ch n enc]" by (simp add: log_call_def)
  show ?thesis
  proof (cases "\<exists>d a. auth_ksef_token E = Resolved (Some d) \<and> atr_authenticationToken d = Some a")
    case False
    then have "snd (authenticateWithToken E ch enc s) = ?s1" using assms
      by (auto simp: authenticateWithToken_def Let_def split: http.splits option.splits)
    then show ?thesis using s1 by simp
  next
    case True
    then obtain d a where d: "auth_ksef_token E = Resolved (Some d)" "atr_authenticationToken d = Some a"
      by blast
    obtain ok s2 where w: "waitForTokenAuthStatus E (atr_referenceNumber d) (tok_token a) maxWaitMs_default ?s1 = (ok, s2)"
      by (cases "waitForTokenAuthStatus E (atr_referenceNumber d) (tok_token a) maxWaitMs_default ?s1") auto
    from wait_effect [OF w] obtain k ps where
      ps: "s2 = ?s1\<lparr> clock := k, calls := calls ?s1 @ ps \<rparr>" by blast
    have s2: "calls s2 = calls s @ POST_auth_ksef_token ch n enc # ps"
      by (subst ps) (simp add: s1)
    show ?thesis
    proof (cases ok)
      case False
      then have "snd (authenticateWithToken E ch enc s) = s2" using assms d w
        by (simp add: authenticateWithToken_def Let_def)
      then show ?thesis using s2 by simp
    next
      case True
      then have "snd (authenticateWithToken E ch enc s)
                   = log_call (POST_auth_token_redeem (request_interceptor s (tok_token a))) s2"
        using authenticateWithToken_run [OF assms d, of ch enc s2] w by simp
      then show ?thesis using s2 by (simp add: log_call_def)
    qed
  qed
qed

lemma reaches_submit_state:
  assumes "reaches_submit E s cd enc s2"
  shows "nip s2 = nip s" "calls s2 = calls s @ [GET_public_key_certificates, POST_auth_challenge]"
    "accessToken s2 = accessToken s"
proof -
  from assms obtain s1 where l: "loadPublicKeyCertificate E s = (True, s1)"
    and g: "getChallenge E s1 = (Some cd, s2)"
    unfolding reaches_submit_def by blast
  from load_effect [OF l] obtain c where
    s1: "s1 = s\<lparr> publicKeyCertificate := c, calls := calls s @ [GET_public_key_certificates] \<rparr>"
    by blast
  have s2: "s2 = s\<lparr> publicKeyCertificate := c,
                    calls := calls s @ [GET_public_key_certificates, POST_auth_challenge] \<rparr>"
    using getChallenge_effect [OF g] by (simp add: s1)
  show "nip s2 = nip s" by (subst s2) simp
  show "calls s2 = calls s @ [GET_public_key_certificates, POST_auth_challenge]" by (subst s2) simp
  show "accessToken s2 = accessToken s" by (subst s2) simp
qed

lemma auth_after_encrypt:
  assumes "reaches_submit E s cd enc s2"
  shows "authenticateWithKSeF E s =
           (case authenticateWithToken E (cd_challenge cd) enc s2 of
              (Inl f, s3) \<Rightarrow> (AuthFailed f, s3)
            | (Inr authToken, s3) \<Rightarrow>
                (if Date_parse E (tok_validUntil authToken) = NaN then AuthFailed AuthenticationError else AuthOk,
                 s3\<lparr> accessToken := tok_token authToken,
                     tokenExpiration := Some (Date_parse E (tok_validUntil authToken)) \<rparr>))"
  using assms
  by (auto simp: reaches_submit_def authenticateWithKSeF_def Let_def split: sum.splits prod.splits)

lemma auth_submits:
  assumes "reaches_submit E s cd enc s2" "nip s = Some n" "n \<noteq> []"
  shows "\<exists>rest. new_calls s (snd (authenticateWithKSeF E s)) =
           [GET_public_key_certificates, POST_auth_challenge, POST_auth_ksef_token (cd_challenge cd) n enc] @ rest"
proof -
  have n2: "nip s2 = Some n" using reaches_submit_state(1) [OF assms(1)] assms(2) by simp
  from authenticateWithToken_submits [OF n2 assms(3), of E "cd_challenge cd" enc] obtain rest where
    r: "calls (snd (authenticateWithToken E (cd_challenge cd) enc s2))
          = calls s2 @ POST_auth_ksef_token (cd_challenge cd) n enc # rest" by blast
  have "calls (snd (authenticateWithKSeF E s)) = calls (snd (authenticateWithToken E (cd_challenge cd) enc s2))"
    by (subst auth_after_encrypt [OF assms(1)]) (auto split: prod.splits sum.splits)
  then have "calls (snd (authenticateWithKSeF E s)) =
      calls s @ ([GET_public_key_certificates, POST_auth_challenge, POST_auth_ksef_token (cd_challenge cd) n enc] @ rest)"
    using r reaches_submit_state(2) [OF assms(1)] by simp
  then have "new_calls s (snd (authenticateWithKSeF E s)) =
      [GET_public_key_certificates, POST_auth_challenge, POST_auth_ksef_token (cd_challenge cd) n enc] @ rest"
    by (rule new_calls_append)
  then show ?thesis by blast
qed

lemma auth_scenario:
  assumes rs: "reaches_submit E s cd enc s2" and nip: "nip s = Some n" "n \<noteq> []"
    and sub: "auth_ksef_token E = Resolved (Some d)" "atr_authenticationToken d = Some a"
    and p1: "poll_outcome (auth_status E (Suc 0)) = Resolved (Some st1)" "status_code st1 = Some 100"
    and p2: "poll_outcome (auth_status E (Suc (Suc 0))) = Resolved (Some st2)" "status_code st2 = Some 100"
    and p3: "poll_outcome (auth_status E (Suc (Suc (Suc 0)))) = Resolved (Some st3)" "status_code st3 = Some 100"
    and p4: "poll_outcome (auth_status E (Suc (Suc (Suc (Suc 0))))) = Resolved (Some st4)" "status_code st4 = Some 200"
    and timing: "poll_latency (auth_status E (Suc 0)) + 500 + poll_overrun (auth_status E (Suc 0))
               + (poll_latency (auth_status E (Suc (Suc 0))) + 500 + poll_overrun (auth_status E (Suc (Suc 0))))
               + (poll_latency (auth_status E (Suc (Suc (Suc 0)))) + 500
                  + poll_overrun (auth_status E (Suc (Suc (Suc 0))))) < maxWaitMs_default"
    and red: "auth_token_redeem E = Resolved (Some (Some tk))" "Date_parse E (tok_validUntil tk) \<noteq> NaN"
  shows "fst (authenticateWithKSeF E s) = AuthOk"
    and "new_calls s (snd (authenticateWithKSeF E s)) =
           [GET_public_key_certificates, POST_auth_challenge,
            POST_auth_ksef_token (cd_challenge cd) n enc,
            GET_auth_status (atr_referenceNumber d) (request_interceptor s (tok_token a)), Sleep 500,
            GET_auth_status (atr_referenceNumber d) (request_interceptor s (tok_token a)), Sleep 500,
            GET_auth_status (atr_referenceNumber d) (request_interceptor s (tok_token a)), Sleep 500,
            GET_auth_status (atr_referenceNumber d) (request_interceptor s (tok_token a)),
            POST_auth_token_redeem (request_interceptor s (tok_token a))]"
    and "accessToken (snd (authenticateWithKSeF E s)) = tok_token tk"
proof -
  let ?r = "atr_referenceNumber d" and ?a = "tok_token a"
  let ?b = "request_interceptor s (tok_token a)"
  let ?s3 = "log_call (POST_auth_ksef_token (cd_challenge cd) n enc) s2"
  let ?s4 = "poll_request ?r ?a (auth_status E (Suc (Suc (Suc (Suc 0)))))
               (poll_step E ?r ?a (Suc (Suc 0)) (poll_step E ?r ?a (Suc 0) (poll_step E ?r ?a 0 ?s3)))"
  have n2: "nip s2 = Some n" using reaches_submit_state(1) [OF rs] nip by simp
  have w: "waitForTokenAuthStatus E ?r ?a maxWaitMs_default ?s3 = (True, ?s4)"
    by (rule poll_scenario [OF p1 p2 p3 p4 timing])
  have b: "request_interceptor s2 ?a = ?b"
    by (rule request_interceptor_cong [OF reaches_submit_state(3) [OF rs]])
  have t: "authenticateWithToken E (cd_challenge cd) enc s2 = (Inr tk, log_call (POST_auth_token_redeem ?b) ?s4)"
    using authenticateWithToken_run [OF n2 nip(2) sub w] red(1) b by simp
  have run: "authenticateWithKSeF E s =
      (AuthOk, (log_call (POST_auth_token_redeem ?b) ?s4)\<lparr> accessToken := tok_token tk,
                  tokenExpiration := Some (Date_parse E (tok_validUntil tk)) \<rparr>)"
    using auth_after_encrypt [OF rs] t red(2) by simp
  show "fst (authenticateWithKSeF E s) = AuthOk" using run by simp
  show "accessToken (snd (authenticateWithKSeF E s)) = tok_token tk" using run by simp
  have "calls (snd (authenticateWithKSeF E s)) = calls s @
           [GET_public_key_certificates, POST_auth_challenge,
            POST_auth_ksef_token (cd_challenge cd) n enc,
            GET_auth_status ?r ?b, Sleep 500, GET_auth_status ?r ?b, Sleep 500,
            GET_auth_status ?r ?b, Sleep 500, GET_auth_status ?r ?b,
            POST_auth_token_redeem ?b]"
    using run reaches_submit_state(2) [OF rs] b
    by (simp add: log_call_def poll_scenario_calls)
  then show "new_calls s (snd (authenticateWithKSeF E s)) =
           [GET_public_key_certificates, POST_auth_challenge,
            POST_auth_ksef_token (cd_challenge cd) n enc,
            GET_auth_status ?r ?b, Sleep 500, GET_auth_status ?r ?b, Sleep 500,
            GET_auth_status ?r ?b, Sleep 500, GET_auth_status ?r ?b,
            POST_auth_token_redeem ?b]"
    by (rule new_calls_append)
qed

lemma poll_loop_never_fails:
  assumes ok: "\<And>i st. poll_outcome (auth_status E i) = Resolved (Some st) \<Longrightarrow>
                 status_code st = Some 100 \<or> status_code st = Some 200"
  shows "fst (poll_loop E r a maxWaitMs startTime n s) = True"
proof (induction "nat (int startTime + int maxWaitMs - int (clock s))" arbitrary: n s rule: less_induct)
  case less
  show ?case
  proof (cases "int (clock s) - int startTime < int maxWaitMs")
    case False
    then show ?thesis by (simp add: poll_loop_timeout)
  next
    case True
    have "clock s < clock (poll_step E r a n s)"
      by (simp add: clock_poll_step)
    then have m: "nat (int startTime + int maxWaitMs - int (clock (poll_step E r a n s)))
               < nat (int startTime + int maxWaitMs - int (clock s))"
      using True by linarith
    from poll_loop_cases [OF True, of E r a n]
    consider "fst (poll_loop E r a maxWaitMs startTime n s) = True"
      | "poll_loop E r a maxWaitMs startTime n s = (False, poll_request r a (auth_status E (Suc n)) s)"
      | "poll_loop E r a maxWaitMs startTime n s =
            poll_loop E r a maxWaitMs startTime (Suc n) (poll_step E r a n s)"
      by fastforce
    then show ?thesis
    proof cases
      case 1 then show ?thesis .
    next
      case 2
      have "fst (poll_loop E r a maxWaitMs startTime n s) = True
            \<or> poll_loop E r a maxWaitMs startTime n s =
                 poll_loop E r a maxWaitMs startTime (Suc n) (poll_step E r a n s)"
        using True ok [of "Suc n"]
        by (subst (1 2) poll_loop.simps)
           (auto simp: Let_def poll_step_def split: http.splits option.splits)
      then show ?thesis using less.hyps [OF m] by auto
    next
      case 3
      then show ?thesis using less.hyps [OF m] by simp
    qed
  qed
qed

text \<open>
  Claim C3. At any point of the polling loop at which the time limit has not passed:
  a reply with status code 200 ends the wait with success at once; a reply with a
  status code other than 100 and 200 ends it with failure at once; an HTTP 404 and a
  status code 100 are followed by a sleep of 500 ms and the next request. Once the
  time limit has passed the wait ends with success. The interval is 500 ms and the
  limit that \<open>authenticateWithToken\<close> passes is 5000 ms. Whatever the replies, as long
  as none carries a status code other than 100 and 200 the wait reports success, so
  a timeout is never a failure.
\<close>

theorem waitForTokenAuthStatus_polling:
  "(int (clock s) - int startTime < int maxWaitMs
      \<and> poll_outcome (auth_status E (Suc n)) = Resolved (Some st) \<and> status_code st = Some 200
    \<longrightarrow> poll_loop E r a maxWaitMs startTime n s
          = (True, poll_request r a (auth_status E (Suc n)) s))
   \<and> (int (clock s) - int startTime < int maxWaitMs
      \<and> poll_outcome (auth_status E (Suc n)) = Resolved (Some st)
      \<and> status_code st \<noteq> Some 200 \<and> status_code st \<noteq> Some 100
    \<longrightarrow> poll_loop E r a maxWaitMs startTime n s
          = (False, poll_request r a (auth_status E (Suc n)) s))
   \<and> (int (clock s) - int startTime < int maxWaitMs
      \<and> poll_outcome (auth_status E (Suc n)) = Rejected (Some 404)
    \<longrightarrow> poll_loop E r a maxWaitMs startTime n s
          = poll_loop E r a maxWaitMs startTime (Suc n)
              (sleep 500 (poll_overrun (auth_status E (Suc n)))
                 (poll_request r a (auth_status E (Suc n)) s)))
   \<and> (int (clock s) - int startTime < int maxWaitMs
      \<and> poll_outcome (auth_status E (Suc n)) = Resolved (Some st) \<and> status_code st = Some 100
    \<longrightarrow> poll_loop E r a maxWaitMs startTime n s
          = poll_loop E r a maxWaitMs startTime (Suc n)
              (sleep 500 (poll_overrun (auth_status E (Suc n)))
                 (poll_request r a (auth_status E (Suc n)) s)))
   \<and> (\<not> int (clock s) - int startTime < int maxWaitMs
    \<longrightarrow> poll_loop E r a maxWaitMs startTime n s = (True, s))
   \<and> waitForTokenAuthStatus E r a maxWaitMs s = poll_loop E r a maxWaitMs (clock s) 0 s
   \<and> pollIntervalMs = 500 \<and> maxWaitMs_default = 5000
   \<and> ((\<forall>i t. poll_outcome (auth_status E i) = Resolved (Some t)
              \<longrightarrow> status_code t = Some 100 \<or> status_code t = Some 200)
    \<longrightarrow> fst (waitForTokenAuthStatus E r a maxWaitMs s) = True)"
proof -
  have steps: "(int (clock s) - int startTime < int maxWaitMs
      \<and> poll_outcome (auth_status E (Suc n)) = Resolved (Some st) \<and> status_code st = Some 200
    \<longrightarrow> poll_loop E r a maxWaitMs startTime n s
          = (True, poll_request r a (auth_status E (Suc n)) s))
   \<and> (int (clock s) - int startTime < int maxWaitMs
      \<and> poll_outcome (auth_status E (Suc n)) = Resolved (Some st)
      \<and> status_code st \<noteq> Some 200 \<and> status_code st \<noteq> Some 100
    \<longrightarrow> poll_loop E r a maxWaitMs startTime n s
          = (False, poll_request r a (auth_status E (Suc n)) s))
   \<and> (int (clock s) - int startTime < int maxWaitMs
      \<and> poll_outcome (auth_status E (Suc n)) = Rejected (Some 404)
    \<longrightarrow> poll_loop E r a maxWaitMs startTime n s
          = poll_loop E r a maxWaitMs startTime (Suc n)
              (sleep 500 (poll_overrun (auth_status E (Suc n)))
                 (poll_request r a (auth_status E (Suc n)) s)))
   \<and> (int (clock s) - int startTime < int maxWaitMs
      \<and> poll_outcome (auth_status E (Suc n)) = Resolved (Some st) \<and> status_code st = Some 100
    \<longrightarrow> poll_loop E r a maxWaitMs startTime n s
          = poll_loop E r a maxWaitMs startTime (Suc n)
              (sleep 500 (poll_overrun (auth_status E (Suc n)))
                 (poll_request r a (auth_status E (Suc n)) s)))
   \<and> (\<not> int (clock s) - int startTime < int maxWaitMs
    \<longrightarrow> poll_loop E r a maxWaitMs startTime n s = (True, s))
   \<and> waitForTokenAuthStatus E r a maxWaitMs s = poll_loop E r a maxWaitMs (clock s) 0 s"
    using poll_loop_ready [of s startTime maxWaitMs E n st r a]
      poll_loop_failed [of s startTime maxWaitMs E n st r a]
      poll_loop_retry [of s startTime maxWaitMs E n r a]
      poll_loop_timeout [of s startTime maxWaitMs E r a n]
    by (auto simp: pollIntervalMs_def waitForTokenAuthStatus_def)
  have never: "(\<forall>i t. poll_outcome (auth_status E i) = Resolved (Some t)
              \<longrightarrow> status_code t = Some 100 \<or> status_code t = Some 200)
    \<longrightarrow> fst (waitForTokenAuthStatus E r a maxWaitMs s) = True"
    unfolding waitForTokenAuthStatus_def
    using poll_loop_never_fails [of E r a maxWaitMs "clock s" 0 s] by blast
  show ?thesis
    using steps never by (simp add: pollIntervalMs_def maxWaitMs_default_def)
qed

theorem waitForTokenAuthStatus_polling_witness:
  "poll_loop sample_env (Some (lit ''R1'')) (Some (lit ''tmp'')) 5000 1000 3 (new_service 1000)
     = (True, poll_request (Some (lit ''R1'')) (Some (lit ''tmp'')) (sample_status 200) (new_service 1000))
   \<and> poll_loop sample_status_failed (Some (lit ''R1'')) (Some (lit ''tmp'')) 5000 1000 0 (new_service 1000)
     = (False, poll_request (Some (lit ''R1'')) (Some (lit ''tmp'')) (sample_status 450) (new_service 1000))
   \<and> poll_loop sample_status_404 (Some (lit ''R1'')) (Some (lit ''tmp'')) 5000 1000 0 (new_service 1000)
     = poll_loop sample_status_404 (Some (lit ''R1'')) (Some (lit ''tmp'')) 5000 1000 1
         (sleep 500 0 (poll_request (Some (lit ''R1'')) (Some (lit ''tmp''))
            (auth_status sample_status_404 1) (new_service 1000)))
   \<and> poll_loop sample_env (Some (lit ''R1'')) (Some (lit ''tmp'')) 5000 1000 0 (new_service 1000)
     = poll_loop sample_env (Some (lit ''R1'')) (Some (lit ''tmp'')) 5000 1000 1
         (sleep 500 0 (poll_request (Some (lit ''R1'')) (Some (lit ''tmp''))
            (sample_status 100) (new_service 1000)))
   \<and> poll_loop sample_env (Some (lit ''R1'')) (Some (lit ''tmp'')) 5000 1000 0 (new_service 6000)
     = (True, new_service 6000)
   \<and> fst (waitForTokenAuthStatus sample_status_404 (Some (lit ''R1'')) (Some (lit ''tmp'')) 5000
             (new_service 1000)) = True"
proof -
  let ?r = "Some (lit ''R1'')" and ?a = "Some (lit ''tmp'')"
  have c: "int (clock (new_service 1000)) - int 1000 < int 5000"
    "\<not> int (clock (new_service 6000)) - int 1000 < int 5000"
    by (simp_all add: new_service_def)
  have a1: "poll_loop sample_env ?r ?a 5000 1000 3 (new_service 1000)
     = (True, poll_request ?r ?a (sample_status 200) (new_service 1000))"
    using waitForTokenAuthStatus_polling [THEN conjunct1,
        of "new_service 1000" 1000 5000 sample_env 3
           "\<lparr> status_code = Some 200, status_description = None \<rparr>" ?r ?a] c
    by (simp add: sample_env_def sample_status_def)
  have a2: "poll_loop sample_status_failed ?r ?a 5000 1000 0 (new_service 1000)
     = (False, poll_request ?r ?a (sample_status 450) (new_service 1000))"
    using waitForTokenAuthStatus_polling [THEN conjunct2, THEN conjunct1,
        of "new_service 1000" 1000 5000 sample_status_failed 0
           "\<lparr> status_code = Some 450, status_description = None \<rparr>" ?r ?a] c
    by (simp add: sample_status_failed_def sample_status_def)
  have a3: "poll_loop sample_status_404 ?r ?a 5000 1000 0 (new_service 1000)
     = poll_loop sample_status_404 ?r ?a 5000 1000 1
         (sleep 500 0 (poll_request ?r ?a (auth_status sample_status_404 1) (new_service 1000)))"
    using waitForTokenAuthStatus_polling [THEN conjunct2, THEN conjunct2, THEN conjunct1,
        of "new_service 1000" 1000 5000 sample_status_404 0 ?r ?a] c
    by (simp add: sample_status_404_def)
  have a4: "poll_loop sample_env ?r ?a 5000 1000 0 (new_service 1000)
     = poll_loop sample_env ?r ?a 5000 1000 1
         (sleep 500 0 (poll_request ?r ?a (sample_status 100) (new_service 1000)))"
    using waitForTokenAuthStatus_polling [THEN conjunct2, THEN conjunct2, THEN conjunct2, THEN conjunct1,
        of "new_service 1000" 1000 5000 sample_env 0
           "\<lparr> status_code = Some 100, status_description = None \<rparr>" ?r ?a] c
    by (simp add: sample_env_def sample_status_def)
  have a5: "poll_loop sample_env ?r ?a 5000 1000 0 (new_service 6000) = (True, new_service 6000)"
    using waitForTokenAuthStatus_polling [THEN conjunct2, THEN conjunct2, THEN conjunct2, THEN conjunct2,
        THEN conjunct1, of "new_service 6000" 1000 5000 sample_env ?r ?a 0] c
    by simp
  have a6: "fst (waitForTokenAuthStatus sample_status_404 ?r ?a 5000 (new_service 1000)) = True"
    using waitForTokenAuthStatus_polling [THEN conjunct2, THEN conjunct2, THEN conjunct2, THEN conjunct2,
        THEN conjunct2, THEN conjunct2, THEN conjunct2, THEN conjunct2,
        of sample_status_404 ?r ?a 5000 "new_service 1000"]
    by (simp add: sample_status_404_def)
  show ?thesis using a1 a2 a3 a4 a5 a6 by simp
qed

subsection \<open>Splitting and the tax identifier\<close>

lemma split_on_not_Nil: "split_on d t \<noteq> []"
  by (induction t) (auto split: list.splits)

lemma split_on_no_delimiter: "d \<notin> set t \<Longrightarrow> split_on d t = [t]"
  by (induction t) auto

lemma split_on_append: "d \<notin> set a \<Longrightarrow> split_on d (a @ d # rest) = a # split_on d rest"
  by (induction a) (auto simp: split_on_not_Nil split: list.splits)

lemma length_split_on: "length (split_on d t) < 2 \<longleftrightarrow> d \<notin> set t"
proof (induction t)
  case Nil
  then show ?case by simp
next
  case (Cons c t)
  then show ?case
    using split_on_not_Nil [of d t]
    by (cases "split_on d t") (auto split: list.splits)
qed

lemma replace_first_prefix: "p \<noteq> [] \<Longrightarrow> replace_first p r (p @ x) = r @ x"
  by (cases p) (simp_all add: startsWith_def)

lemma second_segment:
  assumes "124 \<notin> set reference" "124 \<notin> set taxId"
  shows "length (split_on 124 (reference @ lit ''|nip-'' @ taxId @ lit ''|'' @ secret)) \<ge> 2"
    and "replace_first (lit ''nip-'') []
           (split_on 124 (reference @ lit ''|nip-'' @ taxId @ lit ''|'' @ secret) ! 1) = taxId"
proof -
  have nip: "124 \<notin> set (lit ''nip-'' @ taxId)" using assms(2) by (simp add: lit_def)
  have e: "reference @ lit ''|nip-'' @ taxId @ lit ''|'' @ secret
        = reference @ 124 # ((lit ''nip-'' @ taxId) @ 124 # secret)"
    by (simp add: lit_def)
  have a: "split_on 124 (reference @ 124 # ((lit ''nip-'' @ taxId) @ 124 # secret))
        = reference # split_on 124 ((lit ''nip-'' @ taxId) @ 124 # secret)"
    by (rule split_on_append [OF assms(1)])
  have b: "split_on 124 ((lit ''nip-'' @ taxId) @ 124 # secret) = (lit ''nip-'' @ taxId) # split_on 124 secret"
    by (rule split_on_append [OF nip])
  have parts: "split_on 124 (reference @ lit ''|nip-'' @ taxId @ lit ''|'' @ secret)
        = reference # (lit ''nip-'' @ taxId) # split_on 124 secret"
    by (simp only: e a b)
  show "length (split_on 124 (reference @ lit ''|nip-'' @ taxId @ lit ''|'' @ secret)) \<ge> 2"
    by (simp add: parts)
  show "replace_first (lit ''nip-'') []
           (split_on 124 (reference @ lit ''|nip-'' @ taxId @ lit ''|'' @ secret) ! 1) = taxId"
    using replace_first_prefix [of "lit ''nip-''" "[]" taxId] by (simp add: parts)
qed

subsection \<open>Initialisation\<close>

lemma auth_keeps_nip: "nip (snd (authenticateWithKSeF E s)) = nip s"
proof -
  obtain r s' where run: "authenticateWithKSeF E s = (r, s')"
    by (cases "authenticateWithKSeF E s") auto
  from authenticateWithKSeF_effect [OF run] obtain k c t x pre new where
    "s' = s\<lparr> accessToken := t, tokenExpiration := x, publicKeyCertificate := c,
              clock := k, calls := calls s @ pre @ new \<rparr>" by blast
  then have "nip s' = nip s" by simp
  then show ?thesis using run by simp
qed

lemma auth_keeps_cache: "invoices_cache (snd (authenticateWithKSeF E s)) = invoices_cache s"
proof -
  obtain r s' where run: "authenticateWithKSeF E s = (r, s')"
    by (cases "authenticateWithKSeF E s") auto
  from authenticateWithKSeF_effect [OF run] obtain k c t x pre new where
    "s' = s\<lparr> accessToken := t, tokenExpiration := x, publicKeyCertificate := c,
              clock := k, calls := calls s @ pre @ new \<rparr>" by blast
  then have "invoices_cache s' = invoices_cache s" by simp
  then show ?thesis using run by simp
qed

lemma auth_without_nip:
  assumes "\<not> truthy_str (nip s)"
  shows "fst (authenticateWithKSeF E s) \<noteq> AuthOk"
    and "list_all (\<lambda>c. \<not> is_submit c) (new_calls s (snd (authenticateWithKSeF E s)))"
proof -
  obtain r s' where run: "authenticateWithKSeF E s = (r, s')"
    by (cases "authenticateWithKSeF E s") auto
  from authenticateWithKSeF_effect [OF run] obtain k c t x pre new where
    eff: "s' = s\<lparr> accessToken := t, tokenExpiration := x, publicKeyCertificate := c,
              clock := k, calls := calls s @ pre @ new \<rparr>"
      "pre = [GET_public_key_certificates] \<and> new = []
       \<or> pre = [GET_public_key_certificates, POST_auth_challenge] \<and> token_trace E s new"
      "new \<noteq> [] \<longrightarrow> truthy_str (nip s)" by blast
  have new: "new = []" using eff(3) assms by blast
  have "calls s' = calls s @ pre @ new" by (subst eff(1)) simp
  then have "new_calls s s' = pre @ new" by (rule new_calls_append)
  then show "list_all (\<lambda>c. \<not> is_submit c) (new_calls s (snd (authenticateWithKSeF E s)))"
    using run new eff(2) by auto
  show "fst (authenticateWithKSeF E s) \<noteq> AuthOk"
  proof
    assume ok: "fst (authenticateWithKSeF E s) = AuthOk"
    then obtain s1 where l: "loadPublicKeyCertificate E s = (True, s1)"
      by (cases "loadPublicKeyCertificate E s") (auto simp: authenticateWithKSeF_def split: if_splits)
    from ok l obtain cd s2 where g: "getChallenge E s1 = (Some cd, s2)"
      by (cases "getChallenge E s1") (auto simp: authenticateWithKSeF_def split: option.splits)
    from ok l g obtain enc where e: "encryptTokenWithChallenge E (cd_timestampMs cd) s2 = Some enc" "enc \<noteq> []"
      by (auto simp: authenticateWithKSeF_def split: option.splits if_splits)
    have rs: "reaches_submit E s cd enc s2" using l g e by (auto simp: reaches_submit_def)
    have "\<not> truthy_str (nip s2)" using reaches_submit_state(1) [OF rs] assms by simp
    then have "authenticateWithToken E (cd_challenge cd) enc s2 = (Inl NipNotAvailable, s2)"
      by (rule authenticateWithToken_no_nip)
    then show False using auth_after_encrypt [OF rs] ok by simp
  qed
qed

lemma initialize_run:
  assumes "getConfig E = Some cfg" "auth_method cfg = Some (lit ''token'')"
    and "config_token cfg = Some token" "token \<noteq> []"
  shows "initialize E s =
           (let s2 = (if length (split_on 124 token) \<ge> 2
                      then s\<lparr> ksefToken := Some token,
                               nip := Some (replace_first (lit ''nip-'') [] (split_on 124 token ! 1)) \<rparr>
                      else s\<lparr> ksefToken := Some token \<rparr>)
            in (fst (authenticateWithKSeF E s2) = AuthOk, snd (authenticateWithKSeF E s2)))"
  using assms by (simp add: initialize_def Let_def split: prod.splits)

lemma initialize_keeps_cache: "invoices_cache (snd (initialize E s)) = invoices_cache s"
proof (cases "\<exists>cfg token. getConfig E = Some cfg \<and> auth_method cfg = Some (lit ''token'')
                 \<and> config_token cfg = Some token \<and> token \<noteq> []")
  case False
  then have "initialize E s = (False, s)"
    by (auto simp: initialize_def split: option.splits)
  then show ?thesis by simp
next
  case True
  then obtain cfg token where c: "getConfig E = Some cfg" "auth_method cfg = Some (lit ''token'')"
    "config_token cfg = Some token" "token \<noteq> []" by blast
  show ?thesis
    by (simp add: initialize_run [OF c] Let_def auth_keeps_cache)
qed

lemma sample_pem: "certificatePEM (lit ''MIIB'') \<noteq> []"
  by (simp add: certificatePEM_def)

lemma sample_plain: "tokenToEncrypt (lit ''ref|nip-123|secret'') (Num 1700000000000) = lit ''ref|nip-123|secret|1700000000000''"
  by (simp add: tokenToEncrypt_def lit_def)

lemma sample_plain_clock: "tokenToEncrypt (lit ''ref|nip-123|secret'') (Num 1000) = lit ''ref|nip-123|secret|1000''"
  by (simp add: tokenToEncrypt_def lit_def)

lemma sample_reaches_submit:
  "reaches_submit sample_env sample_service
     \<lparr> cd_challenge = lit ''ch'', cd_timestampMs = Num 1700000000000 \<rparr>
     (rev (lit ''ref|nip-123|secret|1700000000000''))
     (sample_service\<lparr> publicKeyCertificate := Some (lit ''MIIB''),
                      calls := [GET_public_key_certificates, POST_auth_challenge] \<rparr>)"
  unfolding reaches_submit_def
  apply (intro conjI)
    apply (rule exI [of _ "sample_service\<lparr> publicKeyCertificate := Some (lit ''MIIB''),
                      calls := [GET_public_key_certificates] \<rparr>"])
    apply (simp add: loadPublicKeyCertificate_def getChallenge_def log_call_def sample_env_def
      sample_service_def new_service_def)
   apply (simp add: encryptTokenWithChallenge_def sample_env_def sample_service_def new_service_def
      sample_plain)
  apply (simp add: lit_def)
  done

lemma sample_reaches_submit_expired:
  "reaches_submit sample_env sample_expired
     \<lparr> cd_challenge = lit ''ch'', cd_timestampMs = Num 1700000000000 \<rparr>
     (rev (lit ''ref|nip-123|secret|1700000000000''))
     (sample_expired\<lparr> publicKeyCertificate := Some (lit ''MIIB''),
                      calls := [GET_public_key_certificates, POST_auth_challenge] \<rparr>)"
  unfolding reaches_submit_def
  apply (intro conjI)
    apply (rule exI [of _ "sample_expired\<lparr> publicKeyCertificate := Some (lit ''MIIB''),
                      calls := [GET_public_key_certificates] \<rparr>"])
    apply (simp add: loadPublicKeyCertificate_def getChallenge_def log_call_def sample_env_def
      sample_expired_def sample_service_def new_service_def)
   apply (simp add: encryptTokenWithChallenge_def sample_env_def sample_expired_def
      sample_service_def new_service_def sample_plain)
  apply (simp add: lit_def)
  done

lemma sample_bearer:
  "request_interceptor sample_service a = a"
  "request_interceptor sample_expired a = Some (lit ''old'')"
  "\<not> isInitialized sample_expired"
  by (simp_all add: request_interceptor_def isInitialized_def sample_expired_def sample_service_def
        new_service_def)

lemma sample_reaches_submit_clock:
  "reaches_submit sample_challenge_without_timestamp sample_service
     \<lparr> cd_challenge = lit ''ch'', cd_timestampMs = Num 1000 \<rparr>
     (rev (lit ''ref|nip-123|secret|1000''))
     (sample_service\<lparr> publicKeyCertificate := Some (lit ''MIIB''),
                      calls := [GET_public_key_certificates, POST_auth_challenge] \<rparr>)"
  unfolding reaches_submit_def
  apply (intro conjI)
    apply (rule exI [of _ "sample_service\<lparr> publicKeyCertificate := Some (lit ''MIIB''),
                      calls := [GET_public_key_certificates] \<rparr>"])
    apply (simp add: loadPublicKeyCertificate_def getChallenge_def log_call_def sample_env_def
      sample_challenge_without_timestamp_def sample_service_def new_service_def)
   apply (simp add: encryptTokenWithChallenge_def sample_env_def sample_challenge_without_timestamp_def
      sample_service_def new_service_def sample_plain_clock)
  apply (simp add: lit_def)
  done

lemma sample_reaches_submit_noref:
  "reaches_submit sample_submit_without_reference sample_service
     \<lparr> cd_challenge = lit ''ch'', cd_timestampMs = Num 1700000000000 \<rparr>
     (rev (lit ''ref|nip-123|secret|1700000000000''))
     (sample_service\<lparr> publicKeyCertificate := Some (lit ''MIIB''),
                      calls := [GET_public_key_certificates, POST_auth_challenge] \<rparr>)"
  unfolding reaches_submit_def
  apply (intro conjI)
    apply (rule exI [of _ "sample_service\<lparr> publicKeyCertificate := Some (lit ''MIIB''),
                      calls := [GET_public_key_certificates] \<rparr>"])
    apply (simp add: loadPublicKeyCertificate_def getChallenge_def log_call_def sample_env_def
      sample_submit_without_reference_def sample_service_def new_service_def)
   apply (simp add: encryptTokenWithChallenge_def sample_env_def sample_submit_without_reference_def
      sample_service_def new_service_def sample_plain)
  apply (simp add: lit_def)
  done

lemma sample_statuses:
  "status_is sample_env 1 100" "status_is sample_env 2 100" "status_is sample_env 3 100"
  "status_is sample_env 4 200"
  "round_ms sample_env 1 + round_ms sample_env 2 + round_ms sample_env 3 < maxWaitMs_default"
  "status_is sample_challenge_without_timestamp 1 100" "status_is sample_challenge_without_timestamp 2 100"
  "status_is sample_challenge_without_timestamp 3 100" "status_is sample_challenge_without_timestamp 4 200"
  "round_ms sample_challenge_without_timestamp 1 + round_ms sample_challenge_without_timestamp 2
     + round_ms sample_challenge_without_timestamp 3 < maxWaitMs_default"
  by (simp_all add: status_is_def round_ms_def sample_env_def sample_challenge_without_timestamp_def
        sample_status_def pollIntervalMs_def maxWaitMs_default_def)

text \<open>The scenario with the premises folded.\<close>

lemma auth_scenario_folded:
  assumes rs: "reaches_submit E s cd enc s2" and nip: "nip s = Some n" "n \<noteq> []"
    and sub: "auth_ksef_token E = Resolved (Some d)" "atr_authenticationToken d = Some a"
    and st: "status_is E 1 100" "status_is E 2 100" "status_is E 3 100" "status_is E 4 200"
    and timing: "round_ms E 1 + round_ms E 2 + round_ms E 3 < maxWaitMs_default"
    and red: "auth_token_redeem E = Resolved (Some (Some tk))" "Date_parse E (tok_validUntil tk) \<noteq> NaN"
  shows "fst (authenticateWithKSeF E s) = AuthOk
       \<and> new_calls s (snd (authenticateWithKSeF E s)) =
           [GET_public_key_certificates, POST_auth_challenge,
            POST_auth_ksef_token (cd_challenge cd) n enc,
            GET_auth_status (atr_referenceNumber d) (request_interceptor s (tok_token a)), Sleep 500,
            GET_auth_status (atr_referenceNumber d) (request_interceptor s (tok_token a)), Sleep 500,
            GET_auth_status (atr_referenceNumber d) (request_interceptor s (tok_token a)), Sleep 500,
            GET_auth_status (atr_referenceNumber d) (request_interceptor s (tok_token a)),
            POST_auth_token_redeem (request_interceptor s (tok_token a))]
       \<and> accessToken (snd (authenticateWithKSeF E s)) = tok_token tk"
proof -
  have n: "(1::nat) = Suc 0" "(2::nat) = Suc (Suc 0)" "(3::nat) = Suc (Suc (Suc 0))"
    "(4::nat) = Suc (Suc (Suc (Suc 0)))" by simp_all
  from st obtain st1 st2 st3 st4 where
    p1: "poll_outcome (auth_status E (Suc 0)) = Resolved (Some st1)" "status_code st1 = Some 100"
    and p2: "poll_outcome (auth_status E (Suc (Suc 0))) = Resolved (Some st2)" "status_code st2 = Some 100"
    and p3: "poll_outcome (auth_status E (Suc (Suc (Suc 0)))) = Resolved (Some st3)" "status_code st3 = Some 100"
    and p4: "poll_outcome (auth_status E (Suc (Suc (Suc (Suc 0))))) = Resolved (Some st4)" "status_code st4 = Some 200"
    unfolding status_is_def n by blast
  have t: "poll_latency (auth_status E (Suc 0)) + 500 + poll_overrun (auth_status E (Suc 0))
               + (poll_latency (auth_status E (Suc (Suc 0))) + 500 + poll_overrun (auth_status E (Suc (Suc 0))))
               + (poll_latency (auth_status E (Suc (Suc (Suc 0)))) + 500
                  + poll_overrun (auth_status E (Suc (Suc (Suc 0))))) < maxWaitMs_default"
    using timing unfolding round_ms_def n pollIntervalMs_def by simp
  show ?thesis
    using auth_scenario [OF rs nip sub p1 p2 p3 p4 t red] by simp
qed

text \<open>
  Claim C2, as amended. In every run of \<open>authenticateWithKSeF\<close>, a redeem request is
  the last call of the run, a submit request comes before it, no other redeem request
  does, and the submit endpoint has answered with a body that holds an
  \<open>authenticationToken\<close> object. The redeem request sets the token of that object
  as its bearer; it leaves with that token when the service holds no access token, and
  with the access token of the service otherwise, which the request interceptor puts
  in its place. And in a run that reaches the submit step, where the submit endpoint
  answers with such an object, the status endpoint answers 100 three times within the
  time limit and then 200, and the redeem endpoint answers with an access token that
  has a valid date, the authentication succeeds and the calls of the run are exactly
  the certificate request, the challenge request, the submit request, four status
  requests with a sleep of 500 ms between them, and one redeem request.
\<close>

theorem authenticate_redeem_sequencing:
  "(new_calls s (snd (authenticateWithKSeF E s)) = before @ POST_auth_token_redeem t # after
      \<longrightarrow> after = [] \<and> (\<exists>c \<in> set before. is_submit c) \<and> (\<forall>c \<in> set before. \<not> is_redeem c)
          \<and> (\<exists>d a. auth_ksef_token E = Resolved (Some d) \<and> atr_authenticationToken d = Some a
                 \<and> t = request_interceptor s (tok_token a)
                 \<and> (\<not> truthy_str (accessToken s) \<longrightarrow> t = tok_token a)
                 \<and> (truthy_str (accessToken s) \<longrightarrow> t = accessToken s)))
   \<and> (reaches_submit E s cd enc s2 \<and> nip s = Some n \<and> n \<noteq> []
        \<and> auth_ksef_token E = Resolved (Some d) \<and> atr_authenticationToken d = Some a
        \<and> status_is E 1 100 \<and> status_is E 2 100 \<and> status_is E 3 100 \<and> status_is E 4 200
        \<and> round_ms E 1 + round_ms E 2 + round_ms E 3 < maxWaitMs_default
        \<and> auth_token_redeem E = Resolved (Some (Some tk)) \<and> Date_parse E (tok_validUntil tk) \<noteq> NaN
      \<longrightarrow> fst (authenticateWithKSeF E s) = AuthOk
          \<and> new_calls s (snd (authenticateWithKSeF E s)) =
              [GET_public_key_certificates, POST_auth_challenge,
               POST_auth_ksef_token (cd_challenge cd) n enc,
               GET_auth_status (atr_referenceNumber d) (request_interceptor s (tok_token a)), Sleep 500,
               GET_auth_status (atr_referenceNumber d) (request_interceptor s (tok_token a)), Sleep 500,
               GET_auth_status (atr_referenceNumber d) (request_interceptor s (tok_token a)), Sleep 500,
               GET_auth_status (atr_referenceNumber d) (request_interceptor s (tok_token a)),
               POST_auth_token_redeem (request_interceptor s (tok_token a))])"
proof (rule conjI; rule impI)
  assume "new_calls s (snd (authenticateWithKSeF E s)) = before @ POST_auth_token_redeem t # after"
  then show "after = [] \<and> (\<exists>c \<in> set before. is_submit c) \<and> (\<forall>c \<in> set before. \<not> is_redeem c)
          \<and> (\<exists>d a. auth_ksef_token E = Resolved (Some d) \<and> atr_authenticationToken d = Some a
                 \<and> t = request_interceptor s (tok_token a)
                 \<and> (\<not> truthy_str (accessToken s) \<longrightarrow> t = tok_token a)
                 \<and> (truthy_str (accessToken s) \<longrightarrow> t = accessToken s))"
    using auth_sequencing [of s E before t after] by (auto simp: request_interceptor_def)
next
  assume h: "reaches_submit E s cd enc s2 \<and> nip s = Some n \<and> n \<noteq> []
        \<and> auth_ksef_token E = Resolved (Some d) \<and> atr_authenticationToken d = Some a
        \<and> status_is E 1 100 \<and> status_is E 2 100 \<and> status_is E 3 100 \<and> status_is E 4 200
        \<and> round_ms E 1 + round_ms E 2 + round_ms E 3 < maxWaitMs_default
        \<and> auth_token_redeem E = Resolved (Some (Some tk)) \<and> Date_parse E (tok_validUntil tk) \<noteq> NaN"
  then show "fst (authenticateWithKSeF E s) = AuthOk
          \<and> new_calls s (snd (authenticateWithKSeF E s)) =
              [GET_public_key_certificates, POST_auth_challenge,
               POST_auth_ksef_token (cd_challenge cd) n enc,
               GET_auth_status (atr_referenceNumber d) (request_interceptor s (tok_token a)), Sleep 500,
               GET_auth_status (atr_referenceNumber d) (request_interceptor s (tok_token a)), Sleep 500,
               GET_auth_status (atr_referenceNumber d) (request_interceptor s (tok_token a)), Sleep 500,
               GET_auth_status (atr_referenceNumber d) (request_interceptor s (tok_token a)),
               POST_auth_token_redeem (request_interceptor s (tok_token a))]"
    using auth_scenario_folded [of E s cd enc s2 n d a tk] by blast
qed

lemma sample_date_ok: "sample_date (Some (lit ''1700000900000'')) = Num 1700000900000"
  by (simp add: sample_date_def lit_def)

theorem authenticate_redeem_sequencing_witness:
  "fst (authenticateWithKSeF sample_env sample_service) = AuthOk
   \<and> new_calls sample_service (snd (authenticateWithKSeF sample_env sample_service)) =
       [GET_public_key_certificates, POST_auth_challenge,
        POST_auth_ksef_token (lit ''ch'') (lit ''123'') (rev (lit ''ref|nip-123|secret|1700000000000'')),
        GET_auth_status (Some (lit ''R1'')) (Some (lit ''tmp'')), Sleep 500,
        GET_auth_status (Some (lit ''R1'')) (Some (lit ''tmp'')), Sleep 500,
        GET_auth_status (Some (lit ''R1'')) (Some (lit ''tmp'')), Sleep 500,
        GET_auth_status (Some (lit ''R1'')) (Some (lit ''tmp'')),
        POST_auth_token_redeem (Some (lit ''tmp''))]
   \<and> is_submit (POST_auth_ksef_token (lit ''ch'') (lit ''123'')
                   (rev (lit ''ref|nip-123|secret|1700000000000'')))
   \<and> accessToken sample_expired = Some (lit ''old'')
   \<and> fst (authenticateWithKSeF sample_env sample_expired) = AuthOk
   \<and> new_calls sample_expired (snd (authenticateWithKSeF sample_env sample_expired)) =
       [GET_public_key_certificates, POST_auth_challenge,
        POST_auth_ksef_token (lit ''ch'') (lit ''123'') (rev (lit ''ref|nip-123|secret|1700000000000'')),
        GET_auth_status (Some (lit ''R1'')) (Some (lit ''old'')), Sleep 500,
        GET_auth_status (Some (lit ''R1'')) (Some (lit ''old'')), Sleep 500,
        GET_auth_status (Some (lit ''R1'')) (Some (lit ''old'')), Sleep 500,
        GET_auth_status (Some (lit ''R1'')) (Some (lit ''old'')),
        POST_auth_token_redeem (Some (lit ''old''))]"
proof -
  have nip: "nip sample_service = Some (lit ''123'')" "lit ''123'' \<noteq> []"
    "nip sample_expired = Some (lit ''123'')"
    by (simp_all add: sample_expired_def sample_service_def new_service_def)
  have sub: "auth_ksef_token sample_env = Resolved (Some \<lparr> atr_referenceNumber = Some (lit ''R1''),
                           atr_authenticationToken =
                             Some \<lparr> tok_token = Some (lit ''tmp''),
                                    tok_validUntil = Some (lit ''1700000600000'') \<rparr> \<rparr>)"
    by (simp add: sample_env_def)
  have red: "auth_token_redeem sample_env = Resolved (Some (Some \<lparr> tok_token = Some (lit ''acc''),
                                 tok_validUntil = Some (lit ''1700000900000'') \<rparr>))"
    "Date_parse sample_env (tok_validUntil \<lparr> tok_token = Some (lit ''acc''),
                                 tok_validUntil = Some (lit ''1700000900000'') \<rparr>) \<noteq> NaN"
    by (simp_all add: sample_env_def sample_date_ok)
  have scen: "fst (authenticateWithKSeF sample_env sample_service) = AuthOk
     \<and> new_calls sample_service (snd (authenticateWithKSeF sample_env sample_service)) =
       [GET_public_key_certificates, POST_auth_challenge,
        POST_auth_ksef_token (lit ''ch'') (lit ''123'') (rev (lit ''ref|nip-123|secret|1700000000000'')),
        GET_auth_status (Some (lit ''R1'')) (Some (lit ''tmp'')), Sleep 500,
        GET_auth_status (Some (lit ''R1'')) (Some (lit ''tmp'')), Sleep 500,
        GET_auth_status (Some (lit ''R1'')) (Some (lit ''tmp'')), Sleep 500,
        GET_auth_status (Some (lit ''R1'')) (Some (lit ''tmp'')),
        POST_auth_token_redeem (Some (lit ''tmp''))]"
    using authenticate_redeem_sequencing [THEN conjunct2, of sample_env sample_service
      "\<lparr> cd_challenge = lit ''ch'', cd_timestampMs = Num 1700000000000 \<rparr>"
      "rev (lit ''ref|nip-123|secret|1700000000000'')"
      "sample_service\<lparr> publicKeyCertificate := Some (lit ''MIIB''),
                      calls := [GET_public_key_certificates, POST_auth_challenge] \<rparr>"
      "lit ''123''"
      "\<lparr> atr_referenceNumber = Some (lit ''R1''),
                           atr_authenticationToken =
                             Some \<lparr> tok_token = Some (lit ''tmp''),
                                    tok_validUntil = Some (lit ''1700000600000'') \<rparr> \<rparr>"
      "\<lparr> tok_token = Some (lit ''tmp''), tok_validUntil = Some (lit ''1700000600000'') \<rparr>"
      "\<lparr> tok_token = Some (lit ''acc''), tok_validUntil = Some (lit ''1700000900000'') \<rparr>"]
      sample_reaches_submit nip sub red sample_statuses(1-5)
    by (simp add: sample_bearer)
  have scen2: "fst (authenticateWithKSeF sample_env sample_expired) = AuthOk
     \<and> new_calls sample_expired (snd (authenticateWithKSeF sample_env sample_expired)) =
       [GET_public_key_certificates, POST_auth_challenge,
        POST_auth_ksef_token (lit ''ch'') (lit ''123'') (rev (lit ''ref|nip-123|secret|1700000000000'')),
        GET_auth_status (Some (lit ''R1'')) (Some (lit ''old'')), Sleep 500,
        GET_auth_status (Some (lit ''R1'')) (Some (lit ''old'')), Sleep 500,
        GET_auth_status (Some (lit ''R1'')) (Some (lit ''old'')), Sleep 500,
        GET_auth_status (Some (lit ''R1'')) (Some (lit ''old'')),
        POST_auth_token_redeem (Some (lit ''old''))]"
    using authenticate_redeem_sequencing [THEN conjunct2, of sample_env sample_expired
      "\<lparr> cd_challenge = lit ''ch'', cd_timestampMs = Num 1700000000000 \<rparr>"
      "rev (lit ''ref|nip-123|secret|1700000000000'')"
      "sample_expired\<lparr> publicKeyCertificate := Some (lit ''MIIB''),
                      calls := [GET_public_key_certificates, POST_auth_challenge] \<rparr>"
      "lit ''123''"
      "\<lparr> atr_referenceNumber = Some (lit ''R1''),
                           atr_authenticationToken =
                             Some \<lparr> tok_token = Some (lit ''tmp''),
                                    tok_validUntil = Some (lit ''1700000600000'') \<rparr> \<rparr>"
      "\<lparr> tok_token = Some (lit ''tmp''), tok_validUntil = Some (lit ''1700000600000'') \<rparr>"
      "\<lparr> tok_token = Some (lit ''acc''), tok_validUntil = Some (lit ''1700000900000'') \<rparr>"]
      sample_reaches_submit_expired nip sub red sample_statuses(1-5)
    by (simp add: sample_bearer)
  have old: "accessToken sample_expired = Some (lit ''old'')"
    by (simp add: sample_expired_def)
  show ?thesis using scen scen2 old by simp
qed

lemma redeem_without_reference:
  assumes rs: "reaches_submit E s cd enc s2" and nip: "nip s = Some n" "n \<noteq> []"
    and sub: "auth_ksef_token E = Resolved (Some d)" "atr_authenticationToken d = Some a"
    and polls: "\<And>i st. poll_outcome (auth_status E i) = Resolved (Some st) \<Longrightarrow>
                 status_code st = Some 100 \<or> status_code st = Some 200"
  shows "last (calls (snd (authenticateWithKSeF E s)))
           = POST_auth_token_redeem (request_interceptor s (tok_token a))"
proof -
  let ?s3 = "log_call (POST_auth_ksef_token (cd_challenge cd) n enc) s2"
  obtain ok s4 where w: "waitForTokenAuthStatus E (atr_referenceNumber d) (tok_token a) maxWaitMs_default ?s3 = (ok, s4)"
    by (cases "waitForTokenAuthStatus E (atr_referenceNumber d) (tok_token a) maxWaitMs_default ?s3") auto
  have "fst (waitForTokenAuthStatus E (atr_referenceNumber d) (tok_token a) maxWaitMs_default ?s3) = True"
    unfolding waitForTokenAuthStatus_def by (rule poll_loop_never_fails [OF polls])
  then have w': "waitForTokenAuthStatus E (atr_referenceNumber d) (tok_token a) maxWaitMs_default ?s3 = (True, s4)"
    using w by simp
  have n2: "nip s2 = Some n" using reaches_submit_state(1) [OF rs] nip by simp
  have b: "request_interceptor s2 (tok_token a) = request_interceptor s (tok_token a)"
    by (rule request_interceptor_cong [OF reaches_submit_state(3) [OF rs]])
  have "snd (authenticateWithToken E (cd_challenge cd) enc s2)
          = log_call (POST_auth_token_redeem (request_interceptor s (tok_token a))) s4"
    using authenticateWithToken_run [OF n2 nip(2) sub w'] b by simp
  then have "calls (snd (authenticateWithKSeF E s))
               = calls s4 @ [POST_auth_token_redeem (request_interceptor s (tok_token a))]"
    by (subst auth_after_encrypt [OF rs]) (auto simp: log_call_def split: prod.splits sum.splits)
  then show ?thesis by simp
qed

theorem authenticate_redeem_sequencing_counterexample:
  "auth_ksef_token sample_submit_without_reference =
     Resolved (Some \<lparr> atr_referenceNumber = None,
                       atr_authenticationToken =
                         Some \<lparr> tok_token = Some (lit ''tmp''), tok_validUntil = None \<rparr> \<rparr>)
   \<and> last (calls (snd (authenticateWithKSeF sample_submit_without_reference sample_service)))
       = POST_auth_token_redeem (Some (lit ''tmp''))"
proof -
  have sub: "auth_ksef_token sample_submit_without_reference =
     Resolved (Some \<lparr> atr_referenceNumber = None,
                       atr_authenticationToken =
                         Some \<lparr> tok_token = Some (lit ''tmp''), tok_validUntil = None \<rparr> \<rparr>)"
    by (simp add: sample_submit_without_reference_def)
  have nip: "nip sample_service = Some (lit ''123'')" "lit ''123'' \<noteq> []"
    by (simp_all add: sample_service_def new_service_def)
  have polls: "status_code st = Some 100 \<or> status_code st = Some 200"
    if "poll_outcome (auth_status sample_submit_without_reference i) = Resolved (Some st)" for i st
    using that by (simp add: sample_submit_without_reference_def)
  show ?thesis
    using redeem_without_reference [OF sample_reaches_submit_noref nip sub _ polls] sub
    by (simp add: sample_bearer)
qed

subsection \<open>The source of the challenge timestamp\<close>

lemma authenticateWithToken_failures:
  assumes "authenticateWithToken E ch enc s = (Inl f, s')"
  shows "f \<noteq> ChallengeUnavailable"
  using assms
  by (auto simp: authenticateWithToken_def Let_def
           split: option.splits if_splits http.splits prod.splits)

lemma auth_past_challenge:
  assumes l: "loadPublicKeyCertificate E s0 = (True, s1)"
    and g: "getChallenge E s1 = (Some cd, s2)"
  shows "fst (authenticateWithKSeF E s0) \<noteq> AuthFailed ChallengeUnavailable"
proof (cases "\<exists>enc. encryptTokenWithChallenge E (cd_timestampMs cd) s2 = Some enc \<and> enc \<noteq> []")
  case False
  then have "authenticateWithKSeF E s0 = (AuthFailed EncryptionFailed, s2)"
    using l g by (auto simp: authenticateWithKSeF_def split: option.splits)
  then show ?thesis by simp
next
  case True
  then obtain enc where enc: "encryptTokenWithChallenge E (cd_timestampMs cd) s2 = Some enc" "enc \<noteq> []"
    by blast
  have rs: "reaches_submit E s0 cd enc s2" using l g enc by (auto simp: reaches_submit_def)
  obtain r s3 where t: "authenticateWithToken E (cd_challenge cd) enc s2 = (r, s3)"
    by (cases "authenticateWithToken E (cd_challenge cd) enc s2") auto
  show ?thesis
  proof (cases r)
    case (Inl f)
    then have "fst (authenticateWithKSeF E s0) = AuthFailed f"
      using auth_after_encrypt [OF rs] t by simp
    then show ?thesis using authenticateWithToken_failures [of E "cd_challenge cd" enc s2 f s3] t Inl
      by simp
  next
    case (Inr tk)
    then show ?thesis using auth_after_encrypt [OF rs] t by simp
  qed
qed

lemma auth_binds_timestamp:
  assumes l: "loadPublicKeyCertificate E s0 = (True, s1)"
    and g: "getChallenge E s1 = (Some cd, s2)"
    and tok: "ksefToken s0 = Some token" "token \<noteq> []"
    and cert: "publicKeyCertificate s1 = Some cert" "cert \<noteq> []"
    and key: "createPublicKey E (certificatePEM cert) = Some key"
    and enc: "publicEncrypt E key RSA_PKCS1_OAEP_PADDING (lit ''sha256'')
                (utf8_encode E (token @ lit ''|'' @ numberToString (cd_timestampMs cd))) = Some ct"
             "base64_encode E ct \<noteq> []"
    and nip: "nip s0 = Some n" "n \<noteq> []"
  shows "\<exists>rest. new_calls s0 (snd (authenticateWithKSeF E s0)) =
           [GET_public_key_certificates, POST_auth_challenge,
            POST_auth_ksef_token (cd_challenge cd) n (base64_encode E ct)] @ rest"
proof -
  have s2: "s2 = s1\<lparr> calls := calls s1 @ [POST_auth_challenge] \<rparr>"
    by (rule getChallenge_effect [OF g])
  have k2: "ksefToken s2 = Some token"
    using load_nip(2) [OF l] tok(1) by (subst s2) simp
  have c2: "publicKeyCertificate s2 = Some cert"
    using cert(1) by (subst s2) simp
  have "encryptTokenWithChallenge E (cd_timestampMs cd) s2 = Some (base64_encode E ct)"
    using encrypt_some [OF k2 tok(2) c2 cert(2) key, of "cd_timestampMs cd"] enc(1) by simp
  then have rs: "reaches_submit E s0 cd (base64_encode E ct) s2"
    using l g enc(2) by (auto simp: reaches_submit_def)
  show ?thesis by (rule auth_submits [OF rs nip])
qed

text \<open>
  Claim C1, as amended. When the challenge response holds a non-empty challenge,
  \<open>getChallenge\<close> succeeds. Its timestamp is the \<open>timestampMs\<close> of the response
  when that is a non-zero number; otherwise the conversion of the \<open>timestamp\<close> of the
  response when that is a non-empty string; otherwise the reading of the local clock.
  \<open>getChallenge\<close> fails exactly when the request is rejected or the response holds
  no non-empty challenge, and \<open>authenticateWithKSeF\<close> then fails at the challenge
  step. When \<open>getChallenge\<close> succeeds, \<open>authenticateWithKSeF\<close> does not fail at the
  challenge step: it goes on to the encryption, and with a stored token, a certificate
  and a tax identifier the third call of the run is the submit request, which carries
  the challenge and the base64 text of the encryption of \<open>token|timestamp\<close> for the
  timestamp that \<open>getChallenge\<close> returned.
\<close>

theorem getChallenge_timestamp_source:
  "(auth_challenge E = Resolved (Some d) \<and> cr_challenge d = Some c \<and> c \<noteq> []
      \<longrightarrow> (\<exists>t. getChallenge E s
                 = (Some \<lparr> cd_challenge = c, cd_timestampMs = t \<rparr>, log_call POST_auth_challenge s)
              \<and> (truthy_num (cr_timestampMs d) \<longrightarrow> cr_timestampMs d = Some t)
              \<and> (\<not> truthy_num (cr_timestampMs d) \<and> truthy_str (cr_timestamp d)
                   \<longrightarrow> t = Date_parse E (cr_timestamp d))
              \<and> (\<not> truthy_num (cr_timestampMs d) \<and> \<not> truthy_str (cr_timestamp d)
                   \<longrightarrow> t = Num (int (clock s)))))
   \<and> (fst (getChallenge E s) = None
        \<longleftrightarrow> (\<forall>d c. auth_challenge E = Resolved (Some d) \<and> cr_challenge d = Some c \<longrightarrow> c = []))
   \<and> (loadPublicKeyCertificate E s0 = (True, s1) \<and> getChallenge E s1 = (None, s2)
        \<longrightarrow> authenticateWithKSeF E s0 = (AuthFailed ChallengeUnavailable, s2))
   \<and> (loadPublicKeyCertificate E s0 = (True, s1) \<and> getChallenge E s1 = (Some cd, s2)
        \<longrightarrow> fst (authenticateWithKSeF E s0) \<noteq> AuthFailed ChallengeUnavailable
            \<and> clock s1 = clock s0
            \<and> (ksefToken s0 = Some token \<and> token \<noteq> []
                 \<and> publicKeyCertificate s1 = Some cert \<and> cert \<noteq> []
                 \<and> createPublicKey E (certificatePEM cert) = Some key
                 \<and> publicEncrypt E key RSA_PKCS1_OAEP_PADDING (lit ''sha256'')
                      (utf8_encode E (token @ lit ''|'' @ numberToString (cd_timestampMs cd))) = Some ct
                 \<and> base64_encode E ct \<noteq> []
                 \<and> nip s0 = Some n \<and> n \<noteq> []
               \<longrightarrow> (\<exists>rest. new_calls s0 (snd (authenticateWithKSeF E s0)) =
                      [GET_public_key_certificates, POST_auth_challenge,
                       POST_auth_ksef_token (cd_challenge cd) n (base64_encode E ct)] @ rest)))"
proof (intro conjI)
  show "auth_challenge E = Resolved (Some d) \<and> cr_challenge d = Some c \<and> c \<noteq> []
      \<longrightarrow> (\<exists>t. getChallenge E s
                 = (Some \<lparr> cd_challenge = c, cd_timestampMs = t \<rparr>, log_call POST_auth_challenge s)
              \<and> (truthy_num (cr_timestampMs d) \<longrightarrow> cr_timestampMs d = Some t)
              \<and> (\<not> truthy_num (cr_timestampMs d) \<and> truthy_str (cr_timestamp d)
                   \<longrightarrow> t = Date_parse E (cr_timestamp d))
              \<and> (\<not> truthy_num (cr_timestampMs d) \<and> \<not> truthy_str (cr_timestamp d)
                   \<longrightarrow> t = Num (int (clock s))))"
  proof
    assume h: "auth_challenge E = Resolved (Some d) \<and> cr_challenge d = Some c \<and> c \<noteq> []"
    let ?t = "if truthy_num (cr_timestampMs d) then the (cr_timestampMs d)
              else if truthy_str (cr_timestamp d) then Date_parse E (cr_timestamp d)
              else Num (int (clock s))"
    have "getChallenge E s = (Some \<lparr> cd_challenge = c, cd_timestampMs = ?t \<rparr>, log_call POST_auth_challenge s)"
      using getChallenge_some [of E d c s] h by simp
    moreover have "truthy_num (cr_timestampMs d) \<longrightarrow> cr_timestampMs d = Some ?t"
      by (cases "cr_timestampMs d") auto
    ultimately show "\<exists>t. getChallenge E s
                 = (Some \<lparr> cd_challenge = c, cd_timestampMs = t \<rparr>, log_call POST_auth_challenge s)
              \<and> (truthy_num (cr_timestampMs d) \<longrightarrow> cr_timestampMs d = Some t)
              \<and> (\<not> truthy_num (cr_timestampMs d) \<and> truthy_str (cr_timestamp d)
                   \<longrightarrow> t = Date_parse E (cr_timestamp d))
              \<and> (\<not> truthy_num (cr_timestampMs d) \<and> \<not> truthy_str (cr_timestamp d)
                   \<longrightarrow> t = Num (int (clock s)))"
      by (intro exI [of _ ?t]) simp
  qed
next
  show "fst (getChallenge E s) = None
        \<longleftrightarrow> (\<forall>d c. auth_challenge E = Resolved (Some d) \<and> cr_challenge d = Some c \<longrightarrow> c = [])"
    by (rule getChallenge_none)
next
  show "loadPublicKeyCertificate E s0 = (True, s1) \<and> getChallenge E s1 = (None, s2)
        \<longrightarrow> authenticateWithKSeF E s0 = (AuthFailed ChallengeUnavailable, s2)"
    using auth_challenge_failed [of E s0 s1 s2] by blast
next
  show "loadPublicKeyCertificate E s0 = (True, s1) \<and> getChallenge E s1 = (Some cd, s2)
        \<longrightarrow> fst (authenticateWithKSeF E s0) \<noteq> AuthFailed ChallengeUnavailable
            \<and> clock s1 = clock s0
            \<and> (ksefToken s0 = Some token \<and> token \<noteq> []
                 \<and> publicKeyCertificate s1 = Some cert \<and> cert \<noteq> []
                 \<and> createPublicKey E (certificatePEM cert) = Some key
                 \<and> publicEncrypt E key RSA_PKCS1_OAEP_PADDING (lit ''sha256'')
                      (utf8_encode E (token @ lit ''|'' @ numberToString (cd_timestampMs cd))) = Some ct
                 \<and> base64_encode E ct \<noteq> []
                 \<and> nip s0 = Some n \<and> n \<noteq> []
               \<longrightarrow> (\<exists>rest. new_calls s0 (snd (authenticateWithKSeF E s0)) =
                      [GET_public_key_certificates, POST_auth_challenge,
                       POST_auth_ksef_token (cd_challenge cd) n (base64_encode E ct)] @ rest))"
  proof
    assume h: "loadPublicKeyCertificate E s0 = (True, s1) \<and> getChallenge E s1 = (Some cd, s2)"
    then have l: "loadPublicKeyCertificate E s0 = (True, s1)"
      and g: "getChallenge E s1 = (Some cd, s2)" by simp_all
    have a: "fst (authenticateWithKSeF E s0) \<noteq> AuthFailed ChallengeUnavailable"
      by (rule auth_past_challenge [OF l g])
    have b: "clock s1 = clock s0" by (rule load_nip(3) [OF l])
    have c: "ksefToken s0 = Some token \<and> token \<noteq> []
                 \<and> publicKeyCertificate s1 = Some cert \<and> cert \<noteq> []
                 \<and> createPublicKey E (certificatePEM cert) = Some key
                 \<and> publicEncrypt E key RSA_PKCS1_OAEP_PADDING (lit ''sha256'')
                      (utf8_encode E (token @ lit ''|'' @ numberToString (cd_timestampMs cd))) = Some ct
                 \<and> base64_encode E ct \<noteq> []
                 \<and> nip s0 = Some n \<and> n \<noteq> []
               \<longrightarrow> (\<exists>rest. new_calls s0 (snd (authenticateWithKSeF E s0)) =
                      [GET_public_key_certificates, POST_auth_challenge,
                       POST_auth_ksef_token (cd_challenge cd) n (base64_encode E ct)] @ rest)"
      using auth_binds_timestamp [OF l g, of token cert key ct n] by blast
    show "fst (authenticateWithKSeF E s0) \<noteq> AuthFailed ChallengeUnavailable
            \<and> clock s1 = clock s0
            \<and> (ksefToken s0 = Some token \<and> token \<noteq> []
                 \<and> publicKeyCertificate s1 = Some cert \<and> cert \<noteq> []
                 \<and> createPublicKey E (certificatePEM cert) = Some key
                 \<and> publicEncrypt E key RSA_PKCS1_OAEP_PADDING (lit ''sha256'')
                      (utf8_encode E (token @ lit ''|'' @ numberToString (cd_timestampMs cd))) = Some ct
                 \<and> base64_encode E ct \<noteq> []
                 \<and> nip s0 = Some n \<and> n \<noteq> []
               \<longrightarrow> (\<exists>rest. new_calls s0 (snd (authenticateWithKSeF E s0)) =
                      [GET_public_key_certificates, POST_auth_challenge,
                       POST_auth_ksef_token (cd_challenge cd) n (base64_encode E ct)] @ rest))"
      using a b c by blast
  qed
qed

theorem getChallenge_timestamp_source_witness:
  "getChallenge sample_env (new_service 1000)
     = (Some \<lparr> cd_challenge = lit ''ch'', cd_timestampMs = Num 1700000000000 \<rparr>,
        log_call POST_auth_challenge (new_service 1000))
   \<and> fst (authenticateWithKSeF sample_env sample_service) \<noteq> AuthFailed ChallengeUnavailable
   \<and> take 3 (new_calls sample_service (snd (authenticateWithKSeF sample_env sample_service)))
       = [GET_public_key_certificates, POST_auth_challenge,
          POST_auth_ksef_token (lit ''ch'') (lit ''123'') (rev (lit ''ref|nip-123|secret|1700000000000''))]"
proof -
  have h: "auth_challenge sample_env =
         Resolved (Some \<lparr> cr_challenge = Some (lit ''ch''), cr_timestamp = None,
                           cr_timestampMs = Some (Num 1700000000000) \<rparr>)"
    by (simp add: sample_env_def)
  from getChallenge_timestamp_source [THEN conjunct1, of sample_env
      "\<lparr> cr_challenge = Some (lit ''ch''), cr_timestamp = None,
         cr_timestampMs = Some (Num 1700000000000) \<rparr>" "lit ''ch''" "new_service 1000"] h
  have a: "getChallenge sample_env (new_service 1000)
     = (Some \<lparr> cd_challenge = lit ''ch'', cd_timestampMs = Num 1700000000000 \<rparr>,
        log_call POST_auth_challenge (new_service 1000))"
    by auto
  let ?s1 = "sample_service\<lparr> publicKeyCertificate := Some (lit ''MIIB''),
                            calls := [GET_public_key_certificates] \<rparr>"
  let ?s2 = "sample_service\<lparr> publicKeyCertificate := Some (lit ''MIIB''),
                            calls := [GET_public_key_certificates, POST_auth_challenge] \<rparr>"
  let ?cd = "\<lparr> cd_challenge = lit ''ch'', cd_timestampMs = Num 1700000000000 \<rparr>"
  have l: "loadPublicKeyCertificate sample_env sample_service = (True, ?s1)"
    by (simp add: loadPublicKeyCertificate_def log_call_def sample_env_def sample_service_def
          new_service_def)
  have g: "getChallenge sample_env ?s1 = (Some ?cd, ?s2)"
    by (simp add: getChallenge_def log_call_def sample_env_def sample_service_def new_service_def)
  have p: "lit ''ref|nip-123|secret'' @ lit ''|'' @ numberToString (cd_timestampMs ?cd)
           = lit ''ref|nip-123|secret|1700000000000''"
    by (simp add: lit_def)
  have e: "ksefToken sample_service = Some (lit ''ref|nip-123|secret'') \<and> lit ''ref|nip-123|secret'' \<noteq> []
      \<and> publicKeyCertificate ?s1 = Some (lit ''MIIB'') \<and> lit ''MIIB'' \<noteq> []
      \<and> createPublicKey sample_env (certificatePEM (lit ''MIIB'')) = Some (certificatePEM (lit ''MIIB''))
      \<and> publicEncrypt sample_env (certificatePEM (lit ''MIIB'')) RSA_PKCS1_OAEP_PADDING (lit ''sha256'')
           (utf8_encode sample_env (lit ''ref|nip-123|secret'' @ lit ''|'' @ numberToString (cd_timestampMs ?cd)))
          = Some (rev (lit ''ref|nip-123|secret|1700000000000''))
      \<and> base64_encode sample_env (rev (lit ''ref|nip-123|secret|1700000000000'')) \<noteq> []
      \<and> nip sample_service = Some (lit ''123'') \<and> lit ''123'' \<noteq> []"
    by (simp only: p) (simp add: sample_env_def sample_service_def new_service_def)
  note inst = getChallenge_timestamp_source [THEN conjunct2, THEN conjunct2, THEN conjunct2, rule_format,
      OF conjI [OF l g]]
  have b: "fst (authenticateWithKSeF sample_env sample_service) \<noteq> AuthFailed ChallengeUnavailable"
    by (rule inst [THEN conjunct1])
  from inst [THEN conjunct2, THEN conjunct2, rule_format, OF e] obtain rest where
    "new_calls sample_service (snd (authenticateWithKSeF sample_env sample_service)) =
       [GET_public_key_certificates, POST_auth_challenge,
        POST_auth_ksef_token (cd_challenge ?cd) (lit ''123'')
          (base64_encode sample_env (rev (lit ''ref|nip-123|secret|1700000000000'')))] @ rest"
    by blast
  then have c: "take 3 (new_calls sample_service (snd (authenticateWithKSeF sample_env sample_service)))
       = [GET_public_key_certificates, POST_auth_challenge,
          POST_auth_ksef_token (lit ''ch'') (lit ''123'') (rev (lit ''ref|nip-123|secret|1700000000000''))]"
    by (simp add: sample_env_def)
  show ?thesis using a b c by simp
qed

theorem getChallenge_local_clock_counterexample:
  "fst (getChallenge sample_challenge_without_timestamp sample_service)
     = Some \<lparr> cd_challenge = lit ''ch'', cd_timestampMs = Num 1000 \<rparr>
   \<and> fst (authenticateWithKSeF sample_challenge_without_timestamp sample_service) = AuthOk
   \<and> new_calls sample_service (snd (authenticateWithKSeF sample_challenge_without_timestamp sample_service)) ! 2
       = POST_auth_ksef_token (lit ''ch'') (lit ''123'')
           (base64_encode sample_challenge_without_timestamp
              (the (publicEncrypt sample_challenge_without_timestamp
                      (certificatePEM (lit ''MIIB'')) RSA_PKCS1_OAEP_PADDING (lit ''sha256'')
                      (utf8_encode sample_challenge_without_timestamp (lit ''ref|nip-123|secret|1000'')))))"
proof -
  have g: "fst (getChallenge sample_challenge_without_timestamp sample_service)
     = Some \<lparr> cd_challenge = lit ''ch'', cd_timestampMs = Num 1000 \<rparr>"
    by (simp add: getChallenge_def sample_challenge_without_timestamp_def sample_env_def
         sample_service_def new_service_def log_call_def)
  have nip: "nip sample_service = Some (lit ''123'')" "lit ''123'' \<noteq> []"
    by (simp_all add: sample_service_def new_service_def)
  have sub: "auth_ksef_token sample_challenge_without_timestamp = Resolved (Some \<lparr> atr_referenceNumber = Some (lit ''R1''),
                           atr_authenticationToken =
                             Some \<lparr> tok_token = Some (lit ''tmp''),
                                    tok_validUntil = Some (lit ''1700000600000'') \<rparr> \<rparr>)"
    "atr_authenticationToken \<lparr> atr_referenceNumber = Some (lit ''R1''),
                           atr_authenticationToken =
                             Some \<lparr> tok_token = Some (lit ''tmp''),
                                    tok_validUntil = Some (lit ''1700000600000'') \<rparr> \<rparr>
       = Some \<lparr> tok_token = Some (lit ''tmp''), tok_validUntil = Some (lit ''1700000600000'') \<rparr>"
    by (simp_all add: sample_env_def sample_challenge_without_timestamp_def)
  have red: "auth_token_redeem sample_challenge_without_timestamp = Resolved (Some (Some \<lparr> tok_token = Some (lit ''acc''),
                                 tok_validUntil = Some (lit ''1700000900000'') \<rparr>))"
    "Date_parse sample_challenge_without_timestamp (tok_validUntil \<lparr> tok_token = Some (lit ''acc''),
                                 tok_validUntil = Some (lit ''1700000900000'') \<rparr>) \<noteq> NaN"
    by (simp_all add: sample_env_def sample_challenge_without_timestamp_def sample_date_ok)
  have enc: "base64_encode sample_challenge_without_timestamp
              (the (publicEncrypt sample_challenge_without_timestamp
                      (certificatePEM (lit ''MIIB'')) RSA_PKCS1_OAEP_PADDING (lit ''sha256'')
                      (utf8_encode sample_challenge_without_timestamp (lit ''ref|nip-123|secret|1000''))))
             = rev (lit ''ref|nip-123|secret|1000'')"
    by (simp add: sample_env_def sample_challenge_without_timestamp_def)
  show ?thesis
    using auth_scenario_folded [OF sample_reaches_submit_clock nip sub sample_statuses(6-10) red] g enc
    by simp
qed

lemma initialize_nip:
  assumes "getConfig E = Some cfg" "auth_method cfg = Some (lit ''token'')"
    and "config_token cfg = Some token" "token \<noteq> []"
  shows "nip (snd (initialize E s)) =
           (if length (split_on 124 token) \<ge> 2
            then Some (replace_first (lit ''nip-'') [] (split_on 124 token ! 1)) else nip s)"
  by (simp add: initialize_run [OF assms] Let_def auth_keeps_nip)

lemma initialize_malformed:
  assumes "getConfig E = Some cfg" "auth_method cfg = Some (lit ''token'')"
    and "config_token cfg = Some token" "token \<noteq> []"
    and "length (split_on 124 token) < 2" "nip s = None"
  shows "nip (snd (initialize E s)) = None" "\<not> fst (initialize E s)"
    "list_all (\<lambda>c. \<not> is_submit c) (new_calls s (snd (initialize E s)))"
proof -
  let ?s2 = "s\<lparr> ksefToken := Some token \<rparr>"
  have run: "initialize E s = (fst (authenticateWithKSeF E ?s2) = AuthOk, snd (authenticateWithKSeF E ?s2))"
    using initialize_run [OF assms(1-4), of s] assms(5) by (simp add: Let_def)
  have n: "\<not> truthy_str (nip ?s2)" using assms(6) by simp
  show "nip (snd (initialize E s)) = None"
    using initialize_nip [OF assms(1-4), of s] assms(5,6) by simp
  show "\<not> fst (initialize E s)"
    using run auth_without_nip(1) [OF n, of E] by simp
  have "new_calls s (snd (initialize E s)) = new_calls ?s2 (snd (authenticateWithKSeF E ?s2))"
    using run by (simp add: new_calls_def)
  then show "list_all (\<lambda>c. \<not> is_submit c) (new_calls s (snd (initialize E s)))"
    using auth_without_nip(2) [OF n, of E] by simp
qed

text \<open>
  Claim C5, as amended. For a configured token \<open>reference|nip-taxId|secret\<close> whose
  reference and tax identifier hold no delimiter, initialisation stores the second
  delimited segment with the prefix \<open>nip-\<close> removed, which is the tax identifier. For
  a non-empty configured token with fewer than two delimited segments, on a service
  that holds no tax identifier, the tax identifier stays absent, initialisation fails,
  and no submit request is made.
\<close>

theorem taxId_extraction:
  "(getConfig E = Some cfg \<and> auth_method cfg = Some (lit ''token'')
      \<and> 124 \<notin> set reference \<and> 124 \<notin> set taxId
      \<and> config_token cfg = Some (reference @ lit ''|nip-'' @ taxId @ lit ''|'' @ secret)
    \<longrightarrow> nip (snd (initialize E s)) = Some taxId)
   \<and> (getConfig E = Some cfg \<and> auth_method cfg = Some (lit ''token'')
      \<and> config_token cfg = Some token \<and> token \<noteq> [] \<and> length (split_on 124 token) < 2
      \<and> nip s = None
    \<longrightarrow> nip (snd (initialize E s)) = None \<and> \<not> fst (initialize E s)
        \<and> list_all (\<lambda>c. \<not> is_submit c) (new_calls s (snd (initialize E s))))"
proof (rule conjI; rule impI)
  assume h: "getConfig E = Some cfg \<and> auth_method cfg = Some (lit ''token'')
      \<and> 124 \<notin> set reference \<and> 124 \<notin> set taxId
      \<and> config_token cfg = Some (reference @ lit ''|nip-'' @ taxId @ lit ''|'' @ secret)"
  let ?token = "reference @ lit ''|nip-'' @ taxId @ lit ''|'' @ secret"
  have ne: "?token \<noteq> []" by (simp add: lit_def)
  have "nip (snd (initialize E s)) =
           (if length (split_on 124 ?token) \<ge> 2
            then Some (replace_first (lit ''nip-'') [] (split_on 124 ?token ! 1)) else nip s)"
  proof (rule initialize_nip [OF _ _ _ ne])
    show "getConfig E = Some cfg" using h by blast
    show "auth_method cfg = Some (lit ''token'')" using h by blast
    show "config_token cfg = Some ?token" using h by blast
  qed
  moreover have "124 \<notin> set reference" "124 \<notin> set taxId" using h by blast+
  ultimately show "nip (snd (initialize E s)) = Some taxId"
    using second_segment [of reference taxId secret] by simp
next
  assume h: "getConfig E = Some cfg \<and> auth_method cfg = Some (lit ''token'')
      \<and> config_token cfg = Some token \<and> token \<noteq> [] \<and> length (split_on 124 token) < 2
      \<and> nip s = None"
  then show "nip (snd (initialize E s)) = None \<and> \<not> fst (initialize E s)
        \<and> list_all (\<lambda>c. \<not> is_submit c) (new_calls s (snd (initialize E s)))"
    using initialize_malformed [of E cfg token s] by simp
qed

theorem taxId_extraction_witness:
  "nip (snd (initialize sample_env (new_service 1000))) = Some (lit ''123'')
   \<and> nip (snd (initialize sample_malformed_token (new_service 1000))) = None
   \<and> \<not> fst (initialize sample_malformed_token (new_service 1000))
   \<and> list_all (\<lambda>c. \<not> is_submit c)
        (new_calls (new_service 1000) (snd (initialize sample_malformed_token (new_service 1000))))"
proof -
  have tok: "lit ''ref'' @ lit ''|nip-'' @ lit ''123'' @ lit ''|'' @ lit ''secret'' = lit ''ref|nip-123|secret''"
    by (simp add: lit_def)
  have a: "nip (snd (initialize sample_env (new_service 1000))) = Some (lit ''123'')"
    using taxId_extraction [THEN conjunct1, of sample_env
        "\<lparr> auth_method = Some (lit ''token''), config_token = Some (lit ''ref|nip-123|secret'') \<rparr>"
        "lit ''ref''" "lit ''123''" "lit ''secret''" "new_service 1000"]
    by (simp add: tok sample_env_def) (simp add: lit_def)
  have b: "nip (snd (initialize sample_malformed_token (new_service 1000))) = None
     \<and> \<not> fst (initialize sample_malformed_token (new_service 1000))
     \<and> list_all (\<lambda>c. \<not> is_submit c)
        (new_calls (new_service 1000) (snd (initialize sample_malformed_token (new_service 1000))))"
    using taxId_extraction [THEN conjunct2, of sample_malformed_token
        "\<lparr> auth_method = Some (lit ''token''), config_token = Some (lit ''garbage'') \<rparr>"
        "lit ''garbage''" "new_service 1000"]
    by (simp add: sample_malformed_token_def sample_env_def new_service_def) (simp add: lit_def)
  show ?thesis using a b by simp
qed

lemma sample_plain_garbage:
  "tokenToEncrypt (lit ''garbage'') (Num 1700000000000) = lit ''garbage|1700000000000''"
  by (simp add: tokenToEncrypt_def lit_def)

lemma sample_reaches_submit_garbage:
  "reaches_submit sample_malformed_token (sample_service\<lparr> ksefToken := Some (lit ''garbage'') \<rparr>)
     \<lparr> cd_challenge = lit ''ch'', cd_timestampMs = Num 1700000000000 \<rparr>
     (rev (lit ''garbage|1700000000000''))
     (sample_service\<lparr> ksefToken := Some (lit ''garbage''), publicKeyCertificate := Some (lit ''MIIB''),
                      calls := [GET_public_key_certificates, POST_auth_challenge] \<rparr>)"
  unfolding reaches_submit_def
  apply (intro conjI)
    apply (rule exI [of _ "sample_service\<lparr> ksefToken := Some (lit ''garbage''),
                      publicKeyCertificate := Some (lit ''MIIB''),
                      calls := [GET_public_key_certificates] \<rparr>"])
    apply (simp add: loadPublicKeyCertificate_def getChallenge_def log_call_def sample_env_def
      sample_malformed_token_def sample_service_def new_service_def)
   apply (simp add: encryptTokenWithChallenge_def sample_env_def sample_malformed_token_def
      sample_service_def new_service_def sample_plain_garbage)
  apply (simp add: lit_def)
  done

theorem taxId_extraction_counterexample:
  "nip (snd (initialize sample_env (new_service 1000))) = Some (lit ''123'')
   \<and> spec_taxId_after_second_delimiter (lit ''ref|nip-123|secret'') = lit ''secret''
   \<and> length (split_on 124 (lit ''garbage'')) < 2
   \<and> nip (snd (initialize sample_malformed_token sample_service)) = Some (lit ''123'')
   \<and> new_calls sample_service (snd (initialize sample_malformed_token sample_service)) ! 2
       = POST_auth_ksef_token (lit ''ch'') (lit ''123'') (rev (lit ''garbage|1700000000000''))"
proof -
  have cfg: "getConfig sample_env = Some \<lparr> auth_method = Some (lit ''token''),
                config_token = Some (lit ''ref|nip-123|secret'') \<rparr>"
    by (simp add: sample_env_def)
  have a: "nip (snd (initialize sample_env (new_service 1000))) = Some (lit ''123'')"
    by (subst initialize_nip [OF cfg, of "lit ''ref|nip-123|secret''"])
       (simp_all add: lit_def startsWith_def)
  have b: "spec_taxId_after_second_delimiter (lit ''ref|nip-123|secret'') = lit ''secret''"
    by (simp add: spec_taxId_after_second_delimiter_def after_delimiter_def strip_prefix_def
          startsWith_def lit_def)
  have c: "length (split_on 124 (lit ''garbage'')) < 2" by (simp add: lit_def)
  have cfg2: "getConfig sample_malformed_token = Some \<lparr> auth_method = Some (lit ''token''),
                config_token = Some (lit ''garbage'') \<rparr>"
    by (simp add: sample_malformed_token_def)
  have d: "nip (snd (initialize sample_malformed_token sample_service)) = Some (lit ''123'')"
    by (subst initialize_nip [OF cfg2, of "lit ''garbage''"])
       (simp_all add: lit_def sample_service_def new_service_def)
  have run: "snd (initialize sample_malformed_token sample_service) =
        snd (authenticateWithKSeF sample_malformed_token (sample_service\<lparr> ksefToken := Some (lit ''garbage'') \<rparr>))"
    by (subst initialize_run [OF cfg2, of "lit ''garbage''"]) (simp_all add: lit_def Let_def)
  have nip: "nip (sample_service\<lparr> ksefToken := Some (lit ''garbage'') \<rparr>) = Some (lit ''123'')"
    "lit ''123'' \<noteq> []"
    by (simp_all add: sample_service_def new_service_def)
  from auth_submits [OF sample_reaches_submit_garbage nip] obtain rest where
    "new_calls (sample_service\<lparr> ksefToken := Some (lit ''garbage'') \<rparr>)
       (snd (authenticateWithKSeF sample_malformed_token (sample_service\<lparr> ksefToken := Some (lit ''garbage'') \<rparr>)))
     = [GET_public_key_certificates, POST_auth_challenge,
        POST_auth_ksef_token (lit ''ch'') (lit ''123'') (rev (lit ''garbage|1700000000000''))] @ rest"
    by auto
  then have e: "new_calls sample_service (snd (initialize sample_malformed_token sample_service)) ! 2
       = POST_auth_ksef_token (lit ''ch'') (lit ''123'') (rev (lit ''garbage|1700000000000''))"
    by (simp add: run new_calls_def)
  show ?thesis using a b c d e by simp
qed

subsection \<open>Reading the cache\<close>

lemma set_insert_desc [simp]: "set (insert_desc E r xs) = insert r (set xs)"
  by (induction xs) auto

lemma set_order_by [simp]: "set (order_by_cached_at_desc E rows) = set rows"
  by (induction rows) (simp_all add: order_by_cached_at_desc_def)

lemma sorted_insert_desc:
  "sorted_wrt (\<lambda>a b. row_cached_at a \<ge> row_cached_at b) xs \<Longrightarrow>
     sorted_wrt (\<lambda>a b. row_cached_at a \<ge> row_cached_at b) (insert_desc E r xs)"
  by (induction xs) auto

lemma sorted_order_by:
  "sorted_wrt (\<lambda>a b. row_cached_at a \<ge> row_cached_at b) (order_by_cached_at_desc E rows)"
  by (induction rows) (simp_all add: order_by_cached_at_desc_def sorted_insert_desc)

lemma length_insert_desc [simp]: "length (insert_desc E r xs) = Suc (length xs)"
  by (induction xs) auto

lemma length_order_by [simp]: "length (order_by_cached_at_desc E rows) = length rows"
  by (induction rows) (simp_all add: order_by_cached_at_desc_def)

lemma page_subset: "set (getInvoicesByType E k type limit offset s) \<subseteq> set (invoices_cache s)"
proof -
  have "set (sql_page limit offset xs) \<subseteq> set xs" for xs :: "cache_row list"
    by (auto simp: sql_page_def Let_def dest: in_set_takeD in_set_dropD)
  from this [of "order_by_cached_at_desc E (filter (\<lambda>r. row_type r = type) (invoices_cache s))"]
  show ?thesis
    by (auto simp: getInvoicesByType_def)
qed

lemma page_depends_on_cache:
  "invoices_cache s' = invoices_cache s \<Longrightarrow>
     getInvoicesByType E k type limit offset s' = getInvoicesByType E k type limit offset s"
  by (simp add: getInvoicesByType_def)

lemma those_map_Some:
  "(\<forall>x \<in> set xs. f x \<noteq> None) \<Longrightarrow> those (map f xs) = Some (map (\<lambda>x. the (f x)) xs)"
  by (induction xs) (auto split: option.splits)

lemma parse_rows_ok:
  assumes "cache_ok E s" "set rows \<subseteq> set (invoices_cache s)"
  shows "parse_rows E rows = Some (map (\<lambda>r. the (JSON_parse_invoice E (row_data r))) rows)"
  unfolding parse_rows_def
  using assms by (intro those_map_Some) (auto simp: cache_ok_def)

lemma page_newest_first:
  assumes "getInvoicesByType E k type limit offset s = newest # others"
  shows "\<forall>r \<in> set others. row_cached_at r \<le> row_cached_at newest"
proof -
  let ?xs = "order_by_cached_at_desc E (filter (\<lambda>r. row_type r = type) (invoices_cache s))"
  have "sorted_wrt (\<lambda>a b. row_cached_at a \<ge> row_cached_at b) ?xs"
    by (rule sorted_order_by)
  then have "sorted_wrt (\<lambda>a b. row_cached_at a \<ge> row_cached_at b) (sql_page limit offset ?xs)"
    by (simp add: sql_page_def Let_def sorted_wrt_take sorted_wrt_drop)
  moreover have "sql_page limit offset ?xs = newest # others"
    using assms by (auto simp: getInvoicesByType_def split: if_splits)
  ultimately show ?thesis by simp
qed

subsection \<open>Listing\<close>

lemma initialize_keeps_cache': "initialize E s = (ok, s1) \<Longrightarrow> invoices_cache s1 = invoices_cache s"
  using initialize_keeps_cache [of E s] by simp

lemma fetch_failure_keeps_cache:
  assumes "fetch_invoices E type limit offset s = (Inl e, s1)"
  shows "invoices_cache s1 = invoices_cache s"
proof -
  obtain ok s0 where i: "initialize E s = (ok, s0)" by (cases "initialize E s") auto
  have c0: "invoices_cache s0 = invoices_cache s" by (rule initialize_keeps_cache' [OF i])
  show ?thesis
    using assms i c0
    by (auto simp: fetch_invoices_def Let_def log_call_def
             split: if_splits option.splits http.splits list.splits prod.splits)
qed

lemma those_Some_map: "those xs = Some ys \<Longrightarrow> xs = map Some ys"
  by (induction xs arbitrary: ys) (auto split: option.splits)

lemma those_None: "those (map f xs) = None \<Longrightarrow> \<exists>x \<in> set xs. f x = None"
  by (induction xs) (auto split: option.splits)

lemma those_map_Some_id: "those (map Some ms) = Some ms"
  by (induction ms) simp_all

lemma those_with_None: "None \<in> set xs \<Longrightarrow> those xs = None"
  by (induction xs) (auto split: option.splits)

lemma parse_rows_Nil: "parse_rows E [] = Some []"
  by (simp add: parse_rows_def)

lemma calls_cacheInvoice: "calls (snd (cacheInvoice E d s)) = calls s"
  by (simp add: cacheInvoice_def Let_def split: option.splits)

lemma calls_cache_all: "calls (cache_all E type invoices s) = calls s"
  by (induction invoices arbitrary: s) (simp_all add: calls_cacheInvoice)

text \<open>The three ways through the \<open>try\<close> block.\<close>

lemma fetch_fresh:
  assumes "page_fresh E s (getInvoicesByType E 0 type limit offset s)"
  shows "fetch_invoices E type limit offset s =
           (case parse_rows E (getInvoicesByType E 0 type limit offset s) of
              None \<Rightarrow> (Inl None, s)
            | Some invoices \<Rightarrow> (Inr invoices, s))"
  using assms by (simp add: fetch_invoices_def page_fresh_def Let_def)

lemma fetch_without_session:
  assumes "\<not> page_fresh E s (getInvoicesByType E 0 type limit offset s)"
    and "\<not> isInitialized s" "\<not> fst (initialize E s)"
  shows "fetch_invoices E type limit offset s =
           (case parse_rows E (getInvoicesByType E 0 type limit offset s) of
              None \<Rightarrow> (Inl None, snd (initialize E s))
            | Some invoices \<Rightarrow> (Inr invoices, snd (initialize E s)))"
  using assms
  by (cases "initialize E s"; cases "getInvoicesByType E 0 type limit offset s")
     (simp_all add: fetch_invoices_def page_fresh_def Let_def parse_rows_Nil split: option.splits)

lemma fetch_with_session:
  assumes "\<not> page_fresh E s (getInvoicesByType E 0 type limit offset s)"
    and "isInitialized s \<or> fst (initialize E s)"
  shows "fetch_invoices E type limit offset s =
           (let s2 = log_call (POST_invoices_query_metadata (subjectType type) limit offset)
                       (if isInitialized s then s else snd (initialize E s))
            in case invoices_query_metadata E (subjectType type) of
                 Rejected e \<Rightarrow> (Inl e, s2)
               | Resolved None \<Rightarrow> (Inr [], s2)
               | Resolved (Some None) \<Rightarrow> (Inr [], s2)
               | Resolved (Some (Some metadata)) \<Rightarrow>
                   (case those metadata of
                      None \<Rightarrow> (Inl None, s2)
                    | Some ms \<Rightarrow>
                        (Inr (map (\<lambda>inv. mapMetadataToInvoice inv type) ms),
                         cache_all E type (map (\<lambda>inv. mapMetadataToInvoice inv type) ms) s2)))"
  using assms
  by (cases "initialize E s")
     (auto simp: fetch_invoices_def page_fresh_def Let_def split: http.splits option.splits)

text \<open>What the listing makes of the outcome of the \<open>try\<close> block.\<close>

lemma list_try:
  assumes "fetch_invoices E type limit offset s = (Inr invoices, s1)"
  shows "list_invoices E type limit offset s = (Returns invoices, s1)"
  using assms by (simp add: list_invoices_def)

lemma list_catch:
  assumes "fetch_invoices E type limit offset s = (Inl e, s1)"
  shows "fst (list_invoices E type limit offset s) =
           (case parse_rows E (getInvoicesByType E 1 type limit offset s) of
              None \<Rightarrow> Throws
            | Some invoices \<Rightarrow> Returns invoices)"
proof -
  let ?s2 = "if e = Some 401 then s1\<lparr> accessToken := None \<rparr> else s1"
  have c: "invoices_cache ?s2 = invoices_cache s"
    using fetch_failure_keeps_cache [OF assms] by simp
  have page: "getInvoicesByType E 1 type limit offset ?s2 = getInvoicesByType E 1 type limit offset s"
    by (rule page_depends_on_cache [OF c])
  show ?thesis
    using assms page
    by (cases "getInvoicesByType E 1 type limit offset s")
       (simp_all add: list_invoices_def Let_def parse_rows_Nil split: option.splits)
qed

lemma calls_list:
  "calls (snd (list_invoices E type limit offset s)) = calls (snd (fetch_invoices E type limit offset s))"
  by (auto simp: list_invoices_def Let_def split: prod.splits sum.splits option.splits)

lemma stale_page_is_refetched:
  assumes "\<not> page_fresh E s (getInvoicesByType E 0 type limit offset s)"
    and "isInitialized s"
  shows "new_calls s (snd (list_invoices E type limit offset s)) =
           [POST_invoices_query_metadata (subjectType type) limit offset]"
proof -
  have "calls (snd (fetch_invoices E type limit offset s)) =
          calls s @ [POST_invoices_query_metadata (subjectType type) limit offset]"
    using assms(2)
    by (subst fetch_with_session [OF assms(1)])
       (auto simp: Let_def log_call_def calls_cache_all split: http.splits option.splits)
  then have "calls (snd (list_invoices E type limit offset s)) =
          calls s @ [POST_invoices_query_metadata (subjectType type) limit offset]"
    by (simp add: calls_list)
  then show ?thesis by (rule new_calls_append)
qed

text \<open>The freshness test, in terms of the time of caching and the local zone.\<close>

lemma page_fresh_by_zone:
  assumes "row_cached_at newest = CURRENT_TIMESTAMP E t" "reads_utc_as_local E zone t"
  shows "page_fresh E s (newest # others)
           \<longleftrightarrow> int (clock s) - int (t div 1000 * 1000) + zone < 5 * 60 * 1000"
proof -
  have "Date_parse E (Some (row_cached_at newest)) = Num (int (t div 1000 * 1000) - zone)"
    using assms by (simp add: reads_utc_as_local_def)
  then show ?thesis
    by (simp add: page_fresh_def cacheExpiration_def) arith
qed

lemma never_fresh_east_of_utc:
  assumes "getInvoicesByType E 0 type limit offset s = newest # others"
    and "row_cached_at newest = CURRENT_TIMESTAMP E t" "reads_utc_as_local E zone t"
    and "t \<le> clock s" "5 * 60 * 1000 \<le> zone" "isInitialized s"
  shows "new_calls s (snd (list_invoices E type limit offset s)) =
           [POST_invoices_query_metadata (subjectType type) limit offset]"
proof -
  have "t div 1000 * 1000 \<le> t" by simp
  then have "int (t div 1000 * 1000) \<le> int (clock s)" using assms(4) by linarith
  then have "\<not> int (clock s) - int (t div 1000 * 1000) + zone < 5 * 60 * 1000"
    using assms(5) by linarith
  then have "\<not> page_fresh E s (getInvoicesByType E 0 type limit offset s)"
    using page_fresh_by_zone [OF assms(2,3), of s others] assms(1) by simp
  then show ?thesis using assms(6) by (rule stale_page_is_refetched)
qed

subsection \<open>The cache keeps parsing\<close>

lemma cache_ok_new: "cache_ok E (new_service t)"
  by (simp add: cache_ok_def new_service_def)

lemma cacheInvoice_ok:
  assumes "cache_ok E s" "JSON_parse_invoice E (data_data d) \<noteq> None"
  shows "cache_ok E (snd (cacheInvoice E d s))"
  using assms
  by (auto simp: cacheInvoice_def cache_ok_def insert_or_replace_def Let_def split: option.splits)

lemma cache_all_ok:
  assumes "\<And>i. JSON_parse_invoice E (JSON_stringify_invoice E i) \<noteq> None"
  shows "cache_ok E s \<Longrightarrow> cache_ok E (cache_all E type invoices s)"
proof (induction invoices arbitrary: s)
  case Nil
  then show ?case by simp
next
  case (Cons i invoices)
  show ?case
    by (simp, rule Cons.IH, rule cacheInvoice_ok [OF Cons.prems]) (simp add: assms)
qed

lemma cache_ok_same: "invoices_cache s' = invoices_cache s \<Longrightarrow> cache_ok E s' = cache_ok E s"
  by (simp add: cache_ok_def)

lemma fetch_keeps_cache_ok:
  assumes rt: "\<And>i. JSON_parse_invoice E (JSON_stringify_invoice E i) \<noteq> None"
    and ok: "cache_ok E s"
  shows "cache_ok E (snd (fetch_invoices E type limit offset s))"
proof -
  obtain b s0 where i: "initialize E s = (b, s0)" by (cases "initialize E s") auto
  have c0: "cache_ok E s0"
    using cache_ok_same [OF initialize_keeps_cache' [OF i]] ok by simp
  have c1: "cache_ok E (log_call c s0)" "cache_ok E (log_call c s)" for c
    using c0 ok by (simp_all add: cache_ok_def log_call_def)
  show ?thesis
    using i c0 c1 ok cache_all_ok [OF rt]
    by (auto simp: fetch_invoices_def Let_def
             split: if_splits option.splits http.splits list.splits prod.splits)
qed

lemma list_keeps_cache_ok:
  assumes rt: "\<And>i. JSON_parse_invoice E (JSON_stringify_invoice E i) \<noteq> None"
    and ok: "cache_ok E s"
  shows "cache_ok E (snd (list_invoices E type limit offset s))"
proof -
  have "cache_ok E (snd (fetch_invoices E type limit offset s))"
    by (rule fetch_keeps_cache_ok [OF rt ok])
  then show ?thesis
    by (auto simp: list_invoices_def Let_def cache_ok_def
             split: prod.splits sum.splits option.splits if_splits)
qed

subsection \<open>The age of a cached page\<close>

lemma sample_first_listing:
  "snd (getReceivedInvoices sample_east_of_utc 10 0 (sample_authenticated\<lparr> clock := 1000000 \<rparr>))
     = sample_authenticated\<lparr> clock := 1000000,
         calls := [POST_invoices_query_metadata (lit ''Subject2'') 10 0],
         invoices_cache := [\<lparr> row_id = Some (lit ''INV2''), row_ksef_id = Some (lit ''INV2''),
                              row_type = received, row_data = lit ''INV2'',
                              row_cached_at = lit ''1000000'' \<rparr>] \<rparr>"
proof -
  let ?s0 = "sample_authenticated\<lparr> clock := 1000000 \<rparr>"
  let ?md = "\<lparr> md_ksefNumber = Some (lit ''INV2''), md_ksefReferenceNumber = None,
                md_invoiceNumber = None, md_issueDate = None, md_invoicingDate = None,
                md_seller = None, md_buyer_name = None, md_netAmount = None,
                md_grossAmount = None, md_currency = None \<rparr>"
  have p: "getInvoicesByType sample_east_of_utc 0 received 10 0 ?s0 = []"
    by (simp add: getInvoicesByType_def sample_authenticated_def sample_service_def new_service_def
          sql_page_def order_by_cached_at_desc_def)
  have n: "\<not> page_fresh sample_east_of_utc ?s0 (getInvoicesByType sample_east_of_utc 0 received 10 0 ?s0)"
    by (simp add: p page_fresh_def)
  have i: "isInitialized ?s0"
    by (simp add: isInitialized_def sample_authenticated_def sample_service_def new_service_def)
  have q: "invoices_query_metadata sample_east_of_utc (subjectType received)
             = Resolved (Some (Some [Some ?md]))"
    by (simp add: sample_east_of_utc_def sample_remote_def)
  have f: "fetch_invoices sample_east_of_utc received 10 0 ?s0 =
             (Inr [mapMetadataToInvoice ?md received],
              cache_all sample_east_of_utc received [mapMetadataToInvoice ?md received]
                (log_call (POST_invoices_query_metadata (subjectType received) 10 0) ?s0))"
    by (subst fetch_with_session [OF n]) (simp_all add: i q Let_def)
  have c: "cache_all sample_east_of_utc received [mapMetadataToInvoice ?md received]
             (log_call (POST_invoices_query_metadata (subjectType received) 10 0) ?s0)
           = sample_authenticated\<lparr> clock := 1000000,
               calls := [POST_invoices_query_metadata (lit ''Subject2'') 10 0],
               invoices_cache := [\<lparr> row_id = Some (lit ''INV2''), row_ksef_id = Some (lit ''INV2''),
                                    row_type = received, row_data = lit ''INV2'',
                                    row_cached_at = lit ''1000000'' \<rparr>] \<rparr>"
    by (simp add: cacheInvoice_def mapMetadataToInvoice_def or_str_def str_or_def log_call_def
          subjectType_def sample_east_of_utc_def sample_remote_def sample_env_def
          sample_authenticated_def sample_service_def new_service_def insert_or_replace_def
          lit_def Let_def)
  show ?thesis
    by (simp only: getReceivedInvoices_def list_try [OF f] c snd_conv)
qed

lemma sample_written:
  "sample_two_minutes_later =
     sample_authenticated\<lparr> clock := 1120000,
       calls := [POST_invoices_query_metadata (lit ''Subject2'') 10 0],
       invoices_cache := [\<lparr> row_id = Some (lit ''INV2''), row_ksef_id = Some (lit ''INV2''),
                            row_type = received, row_data = lit ''INV2'',
                            row_cached_at = lit ''1000000'' \<rparr>] \<rparr>"
  by (simp add: sample_two_minutes_later_def sample_first_listing)

lemma sample_written_page:
  "getInvoicesByType sample_east_of_utc 0 received 10 0 sample_two_minutes_later
     = [\<lparr> row_id = Some (lit ''INV2''), row_ksef_id = Some (lit ''INV2''),
          row_type = received, row_data = lit ''INV2'', row_cached_at = lit ''1000000'' \<rparr>]"
  "getInvoicesByType sample_remote 0 received 10 0 sample_two_minutes_later
     = [\<lparr> row_id = Some (lit ''INV2''), row_ksef_id = Some (lit ''INV2''),
          row_type = received, row_data = lit ''INV2'', row_cached_at = lit ''1000000'' \<rparr>]"
  by (simp_all add: sample_written getInvoicesByType_def sample_east_of_utc_def sample_remote_def
        sample_env_def sql_page_def order_by_cached_at_desc_def)

lemma sample_zones:
  "CURRENT_TIMESTAMP sample_east_of_utc 1000000 = lit ''1000000''"
  "reads_utc_as_local sample_east_of_utc (60 * 60 * 1000) 1000000"
  "reads_utc_as_local sample_remote 0 1000000"
  by (simp_all add: reads_utc_as_local_def sample_east_of_utc_def sample_remote_def sample_env_def
        sample_date_def lit_def)

lemma sample_later_state:
  "clock sample_two_minutes_later = 1120000" "isInitialized sample_two_minutes_later"
  by (simp_all add: sample_written isInitialized_def sample_authenticated_def sample_service_def
        new_service_def)

text \<open>
  Claim C8, at one input. The local zone of the runtime is one hour ahead of UTC. An
  initialised service with an empty cache lists the received invoices at the clock
  reading 1000000: it fetches one invoice and caches it. Two minutes later it is asked
  again: the cache query returns the page with that row, whose \<open>cached_at\<close> is the
  text the store wrote at the time of caching, and the listing sends the metadata
  request once more. In the environment that differs only in that the local zone is
  UTC, the second call returns the cached page and leaves the service as it was, so it
  makes no call.
\<close>

theorem fresh_cache_refetched_east_of_utc:
  "sample_two_minutes_later =
     (snd (getReceivedInvoices sample_east_of_utc 10 0 (sample_authenticated\<lparr> clock := 1000000 \<rparr>)))
       \<lparr> clock := 1000000 + 2 * 60 * 1000 \<rparr>
   \<and> getInvoicesByType sample_east_of_utc 0 received 10 0 sample_two_minutes_later
       = [\<lparr> row_id = Some (lit ''INV2''), row_ksef_id = Some (lit ''INV2''),
            row_type = received, row_data = lit ''INV2'',
            row_cached_at = CURRENT_TIMESTAMP sample_east_of_utc 1000000 \<rparr>]
   \<and> reads_utc_as_local sample_east_of_utc (60 * 60 * 1000) 1000000
   \<and> isInitialized sample_two_minutes_later
   \<and> new_calls sample_two_minutes_later
        (snd (getReceivedInvoices sample_east_of_utc 10 0 sample_two_minutes_later))
       = [POST_invoices_query_metadata (lit ''Subject2'') 10 0]
   \<and> Date_parse sample_remote = sample_date
   \<and> sample_east_of_utc = sample_remote\<lparr> Date_parse := Date_parse sample_east_of_utc \<rparr>
   \<and> reads_utc_as_local sample_remote 0 1000000
   \<and> getReceivedInvoices sample_remote 10 0 sample_two_minutes_later
       = (Returns [sample_invoice (lit ''INV2'')], sample_two_minutes_later)"
proof -
  let ?row = "\<lparr> row_id = Some (lit ''INV2''), row_ksef_id = Some (lit ''INV2''),
                row_type = received, row_data = lit ''INV2'', row_cached_at = lit ''1000000'' \<rparr>"
  have w: "row_cached_at ?row = CURRENT_TIMESTAMP sample_east_of_utc 1000000"
    by (simp add: sample_zones(1))
  have w0: "row_cached_at ?row = CURRENT_TIMESTAMP sample_remote 1000000"
    using sample_zones(1) by (simp add: sample_east_of_utc_def)
  have a: "new_calls sample_two_minutes_later
            (snd (list_invoices sample_east_of_utc received 10 0 sample_two_minutes_later))
           = [POST_invoices_query_metadata (subjectType received) 10 0]"
    by (rule never_fresh_east_of_utc [OF sample_written_page(1) w sample_zones(2)])
       (simp_all add: sample_later_state)
  have f: "page_fresh sample_remote sample_two_minutes_later
             (getInvoicesByType sample_remote 0 received 10 0 sample_two_minutes_later)"
    using page_fresh_by_zone [OF w0 sample_zones(3), of sample_two_minutes_later "[]"]
    by (simp add: sample_written_page(2) sample_later_state)
  have p: "parse_rows sample_remote (getInvoicesByType sample_remote 0 received 10 0 sample_two_minutes_later)
             = Some [sample_invoice (lit ''INV2'')]"
    by (simp only: sample_written_page(2)) (simp add: parse_rows_def sample_remote_def sample_env_def)
  have b: "list_invoices sample_remote received 10 0 sample_two_minutes_later
             = (Returns [sample_invoice (lit ''INV2'')], sample_two_minutes_later)"
    by (rule list_try) (simp add: fetch_fresh [OF f] p)
  have d: "Date_parse sample_remote = sample_date"
    "sample_east_of_utc = sample_remote\<lparr> Date_parse := Date_parse sample_east_of_utc \<rparr>"
    by (simp_all add: sample_remote_def sample_env_def sample_east_of_utc_def)
  have e: "sample_two_minutes_later =
     (snd (getReceivedInvoices sample_east_of_utc 10 0 (sample_authenticated\<lparr> clock := 1000000 \<rparr>)))
       \<lparr> clock := 1000000 + 2 * 60 * 1000 \<rparr>"
    by (simp add: sample_two_minutes_later_def)
  have g: "getInvoicesByType sample_east_of_utc 0 received 10 0 sample_two_minutes_later
       = [\<lparr> row_id = Some (lit ''INV2''), row_ksef_id = Some (lit ''INV2''),
            row_type = received, row_data = lit ''INV2'',
            row_cached_at = CURRENT_TIMESTAMP sample_east_of_utc 1000000 \<rparr>]"
    by (simp only: sample_written_page(1) sample_zones(1))
  have a': "new_calls sample_two_minutes_later
        (snd (getReceivedInvoices sample_east_of_utc 10 0 sample_two_minutes_later))
       = [POST_invoices_query_metadata (lit ''Subject2'') 10 0]"
    using a by (simp add: getReceivedInvoices_def subjectType_def)
  have b': "getReceivedInvoices sample_remote 10 0 sample_two_minutes_later
       = (Returns [sample_invoice (lit ''INV2'')], sample_two_minutes_later)"
    using b by (simp add: getReceivedInvoices_def)
  show ?thesis
    using e g sample_zones(2) sample_later_state(2) a' d sample_zones(3) b'
    by blast
qed

subsection \<open>Listings return a list\<close>

text \<open>
  Claim C9, as amended. \<open>getReceivedInvoices\<close> and \<open>getSentInvoices\<close> are the
  listing for their direction. A listing throws only if a row of the page that its
  \<open>catch\<close> block reads holds text that does not parse; so when every cached row
  holds text that parses it returns a list, whatever the remote endpoints and the cache
  operations do. That list is: the parsed page when the page is fresh, and the service
  is then left as it was; the parsed page (empty when the cache query returns nothing)
  when the page is not fresh and the service is not initialised and cannot initialise;
  the invoices mapped from the array when the service is or becomes initialised and
  the metadata endpoint answers with an array; the empty list when it answers without
  one; and the parsed page of the second cache query when the request is rejected or
  the array holds \<open>null\<close>. A new service satisfies the premise, and a listing keeps it
  as long as parsing inverts serialising.
\<close>

theorem listing_returns_a_list:
  "getReceivedInvoices E limit offset s = list_invoices E received limit offset s
   \<and> getSentInvoices E limit offset s = list_invoices E sent limit offset s
   \<and> (fst (list_invoices E type limit offset s) = Throws
        \<longrightarrow> (\<exists>r \<in> set (getInvoicesByType E 1 type limit offset s).
               JSON_parse_invoice E (row_data r) = None))
   \<and> (cache_ok E s
        \<longrightarrow> (\<exists>invoices. fst (list_invoices E type limit offset s) = Returns invoices))
   \<and> (cache_ok E s \<and> page_fresh E s (getInvoicesByType E 0 type limit offset s)
        \<longrightarrow> (\<exists>invoices. parse_rows E (getInvoicesByType E 0 type limit offset s) = Some invoices
                 \<and> list_invoices E type limit offset s = (Returns invoices, s)))
   \<and> (cache_ok E s \<and> \<not> page_fresh E s (getInvoicesByType E 0 type limit offset s)
        \<and> \<not> isInitialized s \<and> \<not> fst (initialize E s)
        \<longrightarrow> (\<exists>invoices. parse_rows E (getInvoicesByType E 0 type limit offset s) = Some invoices
                 \<and> fst (list_invoices E type limit offset s) = Returns invoices))
   \<and> (\<not> page_fresh E s (getInvoicesByType E 0 type limit offset s)
        \<and> (isInitialized s \<or> fst (initialize E s))
        \<and> invoices_query_metadata E (subjectType type) = Resolved (Some (Some (map Some ms)))
        \<longrightarrow> fst (list_invoices E type limit offset s)
              = Returns (map (\<lambda>m. mapMetadataToInvoice m type) ms))
   \<and> (\<not> page_fresh E s (getInvoicesByType E 0 type limit offset s)
        \<and> (isInitialized s \<or> fst (initialize E s))
        \<and> (invoices_query_metadata E (subjectType type) = Resolved None
             \<or> invoices_query_metadata E (subjectType type) = Resolved (Some None))
        \<longrightarrow> fst (list_invoices E type limit offset s) = Returns [])
   \<and> (cache_ok E s \<and> \<not> page_fresh E s (getInvoicesByType E 0 type limit offset s)
        \<and> (isInitialized s \<or> fst (initialize E s))
        \<and> (invoices_query_metadata E (subjectType type) = Rejected e
             \<or> invoices_query_metadata E (subjectType type) = Resolved (Some (Some metadata))
                \<and> None \<in> set metadata)
        \<longrightarrow> (\<exists>invoices. parse_rows E (getInvoicesByType E 1 type limit offset s) = Some invoices
                 \<and> fst (list_invoices E type limit offset s) = Returns invoices))
   \<and> cache_ok E (new_service t)
   \<and> (cache_ok E s \<and> (\<forall>i. JSON_parse_invoice E (JSON_stringify_invoice E i) \<noteq> None)
        \<longrightarrow> cache_ok E (snd (list_invoices E type limit offset s)))"
proof -
  let ?P0 = "getInvoicesByType E 0 type limit offset s"
  let ?P1 = "getInvoicesByType E 1 type limit offset s"
  let ?L = "list_invoices E type limit offset s"
  obtain r s1 where f: "fetch_invoices E type limit offset s = (r, s1)"
    by (cases "fetch_invoices E type limit offset s") auto
  have ok0: "\<exists>invoices. parse_rows E ?P0 = Some invoices" if "cache_ok E s"
    using parse_rows_ok [OF that page_subset [of E 0 type limit offset s]] by blast
  have ok1: "\<exists>invoices. parse_rows E ?P1 = Some invoices" if "cache_ok E s"
    using parse_rows_ok [OF that page_subset [of E 1 type limit offset s]] by blast
  have c3: "fst ?L = Throws
        \<longrightarrow> (\<exists>r \<in> set ?P1. JSON_parse_invoice E (row_data r) = None)"
  proof
    assume t: "fst ?L = Throws"
    show "\<exists>r \<in> set ?P1. JSON_parse_invoice E (row_data r) = None"
    proof (cases r)
      case (Inr invoices)
      then show ?thesis using list_try [of E type limit offset s invoices s1] f t by simp
    next
      case (Inl e)
      then have "parse_rows E ?P1 = None"
        using list_catch [of E type limit offset s e s1] f t by (auto split: option.splits)
      then show ?thesis unfolding parse_rows_def by (rule those_None)
    qed
  qed
  have c4: "cache_ok E s \<longrightarrow> (\<exists>invoices. fst ?L = Returns invoices)"
  proof
    assume ok: "cache_ok E s"
    show "\<exists>invoices. fst ?L = Returns invoices"
    proof (cases r)
      case (Inr invoices)
      then show ?thesis using list_try [of E type limit offset s invoices s1] f by simp
    next
      case (Inl e)
      then show ?thesis
        using list_catch [of E type limit offset s e s1] f ok1 [OF ok] by auto
    qed
  qed
  have c5: "cache_ok E s \<and> page_fresh E s ?P0
        \<longrightarrow> (\<exists>invoices. parse_rows E ?P0 = Some invoices \<and> ?L = (Returns invoices, s))"
  proof
    assume h: "cache_ok E s \<and> page_fresh E s ?P0"
    then obtain invoices where p: "parse_rows E ?P0 = Some invoices" using ok0 by blast
    have "fetch_invoices E type limit offset s = (Inr invoices, s)"
      using fetch_fresh [of E s type limit offset] h p by simp
    then have "?L = (Returns invoices, s)" by (rule list_try)
    then show "\<exists>invoices. parse_rows E ?P0 = Some invoices \<and> ?L = (Returns invoices, s)"
      using p by blast
  qed
  have c6: "cache_ok E s \<and> \<not> page_fresh E s ?P0 \<and> \<not> isInitialized s \<and> \<not> fst (initialize E s)
        \<longrightarrow> (\<exists>invoices. parse_rows E ?P0 = Some invoices \<and> fst ?L = Returns invoices)"
  proof
    assume h: "cache_ok E s \<and> \<not> page_fresh E s ?P0 \<and> \<not> isInitialized s \<and> \<not> fst (initialize E s)"
    then obtain invoices where p: "parse_rows E ?P0 = Some invoices" using ok0 by blast
    have "fetch_invoices E type limit offset s = (Inr invoices, snd (initialize E s))"
      using fetch_without_session [of E s type limit offset] h p by simp
    then have "?L = (Returns invoices, snd (initialize E s))" by (rule list_try)
    then show "\<exists>invoices. parse_rows E ?P0 = Some invoices \<and> fst ?L = Returns invoices"
      using p by simp
  qed
  have c7: "\<not> page_fresh E s ?P0 \<and> (isInitialized s \<or> fst (initialize E s))
        \<and> invoices_query_metadata E (subjectType type) = Resolved (Some (Some (map Some ms)))
        \<longrightarrow> fst ?L = Returns (map (\<lambda>m. mapMetadataToInvoice m type) ms)"
  proof
    assume h: "\<not> page_fresh E s ?P0 \<and> (isInitialized s \<or> fst (initialize E s))
        \<and> invoices_query_metadata E (subjectType type) = Resolved (Some (Some (map Some ms)))"
    then have "fst (fetch_invoices E type limit offset s)
                 = Inr (map (\<lambda>m. mapMetadataToInvoice m type) ms)"
      using fetch_with_session [of E s type limit offset]
      by (simp add: Let_def those_map_Some_id)
    then show "fst ?L = Returns (map (\<lambda>m. mapMetadataToInvoice m type) ms)"
      using f list_try [of E type limit offset s _ s1] by simp
  qed
  have c8: "\<not> page_fresh E s ?P0 \<and> (isInitialized s \<or> fst (initialize E s))
        \<and> (invoices_query_metadata E (subjectType type) = Resolved None
             \<or> invoices_query_metadata E (subjectType type) = Resolved (Some None))
        \<longrightarrow> fst ?L = Returns []"
  proof
    assume h: "\<not> page_fresh E s ?P0 \<and> (isInitialized s \<or> fst (initialize E s))
        \<and> (invoices_query_metadata E (subjectType type) = Resolved None
             \<or> invoices_query_metadata E (subjectType type) = Resolved (Some None))"
    then have "fst (fetch_invoices E type limit offset s) = Inr []"
      using fetch_with_session [of E s type limit offset]
      by (auto simp: Let_def)
    then show "fst ?L = Returns []"
      using f list_try [of E type limit offset s _ s1] by simp
  qed
  have c9: "cache_ok E s \<and> \<not> page_fresh E s ?P0 \<and> (isInitialized s \<or> fst (initialize E s))
        \<and> (invoices_query_metadata E (subjectType type) = Rejected e
             \<or> invoices_query_metadata E (subjectType type) = Resolved (Some (Some metadata))
                \<and> None \<in> set metadata)
        \<longrightarrow> (\<exists>invoices. parse_rows E ?P1 = Some invoices \<and> fst ?L = Returns invoices)"
  proof
    assume h: "cache_ok E s \<and> \<not> page_fresh E s ?P0 \<and> (isInitialized s \<or> fst (initialize E s))
        \<and> (invoices_query_metadata E (subjectType type) = Rejected e
             \<or> invoices_query_metadata E (subjectType type) = Resolved (Some (Some metadata))
                \<and> None \<in> set metadata)"
    then obtain invoices where p: "parse_rows E ?P1 = Some invoices" using ok1 by blast
    have "\<exists>x. fst (fetch_invoices E type limit offset s) = Inl x"
      using fetch_with_session [of E s type limit offset] h
      by (auto simp: Let_def those_with_None)
    then obtain x where "r = Inl x" using f by auto
    then have "fst ?L = Returns invoices"
      using list_catch [of E type limit offset s x s1] f p by simp
    then show "\<exists>invoices. parse_rows E ?P1 = Some invoices \<and> fst ?L = Returns invoices"
      using p by blast
  qed
  have c11: "cache_ok E s \<and> (\<forall>i. JSON_parse_invoice E (JSON_stringify_invoice E i) \<noteq> None)
        \<longrightarrow> cache_ok E (snd ?L)"
    using list_keeps_cache_ok [of E s type limit offset] by blast
  show ?thesis
    using c3 c4 c5 c6 c7 c8 c9 c11 cache_ok_new [of E t]
    unfolding getReceivedInvoices_def getSentInvoices_def by blast
qed

lemma sample_pages:
  "getInvoicesByType sample_env k received 10 0 sample_cached = [sample_row]"
  "getInvoicesByType sample_unauthorized k received 10 0 sample_stale = [sample_row]"
  "getInvoicesByType sample_remote k received 10 0 sample_stale = [sample_row]"
  "getInvoicesByType sample_unauthorized k sent 10 0 sample_stale = []"
  "getInvoicesByType sample_unauthorized k received 10 0 sample_corrupt = [sample_row\<lparr> row_data := [] \<rparr>]"
  by (simp_all add: getInvoicesByType_def sample_env_def sample_unauthorized_def sample_remote_def
        sample_cached_def sample_stale_def sample_corrupt_def sample_authenticated_def
        sample_service_def new_service_def sample_row_def sql_page_def order_by_cached_at_desc_def)

lemma sample_row_age:
  "page_fresh sample_env sample_cached [sample_row]"
  "\<not> page_fresh sample_unauthorized sample_stale [sample_row]"
  "\<not> page_fresh sample_remote sample_stale [sample_row]"
  "\<not> page_fresh sample_unauthorized sample_stale []"
  "\<not> page_fresh sample_unauthorized sample_corrupt [sample_row\<lparr> row_data := [] \<rparr>]"
  by (simp_all add: page_fresh_def sample_env_def sample_unauthorized_def sample_remote_def
        sample_cached_def sample_stale_def sample_corrupt_def sample_authenticated_def
        sample_service_def new_service_def sample_row_def sample_date_def cacheExpiration_def
        lit_def)

lemma sample_sessions:
  "isInitialized sample_stale" "isInitialized sample_corrupt"
  by (simp_all add: isInitialized_def sample_stale_def sample_corrupt_def sample_authenticated_def
        sample_service_def new_service_def)

lemma sample_caches:
  "cache_ok sample_env sample_cached" "cache_ok sample_unauthorized sample_stale"
  "\<not> cache_ok sample_unauthorized sample_corrupt"
  by (simp_all add: cache_ok_def sample_cached_def sample_stale_def sample_corrupt_def
        sample_row_def sample_env_def sample_unauthorized_def)

lemma sample_parses:
  "parse_rows sample_env [sample_row] = Some [sample_invoice (lit ''INV1'')]"
  "parse_rows sample_unauthorized [sample_row] = Some [sample_invoice (lit ''INV1'')]"
  "parse_rows sample_unauthorized [sample_row\<lparr> row_data := [] \<rparr>] = None"
  by (simp_all add: parse_rows_def sample_env_def sample_unauthorized_def sample_row_def)

lemma sample_answers:
  "invoices_query_metadata sample_unauthorized (subjectType type) = Rejected (Some 401)"
  "invoices_query_metadata sample_remote (subjectType received) =
     Resolved (Some (Some (map Some
       [\<lparr> md_ksefNumber = Some (lit ''INV2''), md_ksefReferenceNumber = None,
           md_invoiceNumber = None, md_issueDate = None, md_invoicingDate = None,
           md_seller = None, md_buyer_name = None, md_netAmount = None,
           md_grossAmount = None, md_currency = None \<rparr>])))"
  by (simp_all add: sample_unauthorized_def sample_remote_def)

theorem listing_returns_a_list_witness:
  "cache_ok sample_env sample_cached
   \<and> getReceivedInvoices sample_env 10 0 sample_cached
       = (Returns [sample_invoice (lit ''INV1'')], sample_cached)
   \<and> cache_ok sample_unauthorized sample_stale
   \<and> fst (getReceivedInvoices sample_unauthorized 10 0 sample_stale)
       = Returns [sample_invoice (lit ''INV1'')]
   \<and> fst (getSentInvoices sample_unauthorized 10 0 sample_stale) = Returns []
   \<and> fst (getReceivedInvoices sample_remote 10 0 sample_stale)
       = Returns [sample_invoice (lit ''INV2'')]"
proof -
  note fresh = listing_returns_a_list [where E = sample_env and s = sample_cached and type = received
      and limit = 10 and offset = 0, THEN conjunct2, THEN conjunct2, THEN conjunct2, THEN conjunct2,
      THEN conjunct1]
  have a: "list_invoices sample_env received 10 0 sample_cached
             = (Returns [sample_invoice (lit ''INV1'')], sample_cached)"
    using fresh by (simp add: sample_pages sample_row_age sample_caches sample_parses)
  note rejected = listing_returns_a_list [where E = sample_unauthorized and s = sample_stale
      and type = received and limit = 10 and offset = 0 and e = "Some 401",
      THEN conjunct2, THEN conjunct2, THEN conjunct2, THEN conjunct2, THEN conjunct2,
      THEN conjunct2, THEN conjunct2, THEN conjunct2, THEN conjunct1]
  note rejected_sent = listing_returns_a_list [where E = sample_unauthorized and s = sample_stale
      and type = sent and limit = 10 and offset = 0 and e = "Some 401",
      THEN conjunct2, THEN conjunct2, THEN conjunct2, THEN conjunct2, THEN conjunct2,
      THEN conjunct2, THEN conjunct2, THEN conjunct2, THEN conjunct1]
  have b: "fst (list_invoices sample_unauthorized received 10 0 sample_stale)
             = Returns [sample_invoice (lit ''INV1'')]"
    using rejected
    by (simp add: sample_pages sample_row_age sample_caches sample_parses sample_sessions
          sample_answers)
  have c: "fst (list_invoices sample_unauthorized sent 10 0 sample_stale) = Returns []"
    using rejected_sent
    by (simp add: sample_pages sample_row_age sample_caches sample_sessions sample_answers
          parse_rows_Nil)
  note success = listing_returns_a_list [where E = sample_remote and s = sample_stale
      and type = received and limit = 10 and offset = 0, THEN conjunct2, THEN conjunct2,
      THEN conjunct2, THEN conjunct2, THEN conjunct2, THEN conjunct2, THEN conjunct1, rule_format,
      OF conjI [OF _ conjI [OF disjI1 [OF sample_sessions(1)] sample_answers(2)]]]
  have d: "fst (list_invoices sample_remote received 10 0 sample_stale)
             = Returns [sample_invoice (lit ''INV2'')]"
    using success by (simp add: sample_pages sample_row_age sample_invoice_def)
  show ?thesis
    using a b c d sample_caches(1,2)
    by (simp add: getReceivedInvoices_def getSentInvoices_def)
qed

theorem listing_throws_on_unparsable_row_counterexample:
  "invoices_query_metadata sample_unauthorized (subjectType received) = Rejected (Some 401)
   \<and> getInvoicesByType sample_unauthorized 1 received 10 0 sample_corrupt
       = [\<lparr> row_id = Some (lit ''INV1''), row_ksef_id = Some (lit ''INV1''), row_type = received,
            row_data = [], row_cached_at = lit ''880000'' \<rparr>]
   \<and> JSON_parse_invoice sample_unauthorized [] = None
   \<and> fst (getReceivedInvoices sample_unauthorized 10 0 sample_corrupt) = Throws"
proof -
  have n: "\<not> page_fresh sample_unauthorized sample_corrupt
               (getInvoicesByType sample_unauthorized 0 received 10 0 sample_corrupt)"
    by (simp add: sample_pages sample_row_age)
  have "fst (fetch_invoices sample_unauthorized received 10 0 sample_corrupt) = Inl (Some 401)"
    by (subst fetch_with_session [OF n]) (simp_all add: sample_sessions sample_answers Let_def)
  then obtain s1 where
    "fetch_invoices sample_unauthorized received 10 0 sample_corrupt = (Inl (Some 401), s1)"
    by (cases "fetch_invoices sample_unauthorized received 10 0 sample_corrupt") auto
  from list_catch [OF this]
  have "fst (list_invoices sample_unauthorized received 10 0 sample_corrupt) = Throws"
    by (simp add: sample_pages sample_parses)
  then show ?thesis
    by (simp add: getReceivedInvoices_def sample_answers sample_pages)
       (simp add: sample_row_def sample_unauthorized_def sample_env_def)
qed

subsection \<open>Unauthorized responses\<close>

lemma getInvoiceDetails_keeps_token: "accessToken (snd (getInvoiceDetails E k s)) = accessToken s"
  by (auto simp: getInvoiceDetails_def Let_def log_call_def split: option.splits http.splits)

lemma getInvoiceDetails_rejected:
  assumes "truthy_str (accessToken s)" "encodeURIComponent E k = Some p" "invoices_ksef E p = Rejected e"
  shows "getInvoiceDetails E k s = (None, log_call (GET_invoices_ksef p) s)"
  using assms by (simp add: getInvoiceDetails_def)

lemma list_unauthorized:
  assumes "getInvoicesByType E 0 type limit offset s = []" "getInvoicesByType E 1 type limit offset s = []"
    and "isInitialized s"
    and "invoices_query_metadata E (subjectType type) = Rejected (Some 401)"
  shows "list_invoices E type limit offset s =
           (Returns [], (log_call (POST_invoices_query_metadata (subjectType type) limit offset) s)
                          \<lparr> accessToken := None \<rparr>)"
proof -
  have c: "getInvoicesByType E 1 type limit offset
             ((log_call (POST_invoices_query_metadata (subjectType type) limit offset) s)\<lparr> accessToken := None \<rparr>) = []"
    using assms(2)
      page_depends_on_cache [of "(log_call (POST_invoices_query_metadata (subjectType type) limit offset) s)\<lparr> accessToken := None \<rparr>"
        s E 1 type limit offset]
    by (simp add: log_call_def)
  have "fetch_invoices E type limit offset s =
          (Inl (Some 401), log_call (POST_invoices_query_metadata (subjectType type) limit offset) s)"
    using assms by (simp add: fetch_invoices_def)
  then show ?thesis using c by (simp add: list_invoices_def)
qed

text \<open>
  Claim C6, at one input. The invoice endpoint answers 401 to \<open>getInvoiceDetails\<close> on
  a service that holds an access token: the operation returns nothing, and the service
  still holds the token and still counts as initialised. The metadata endpoint answers
  401 to \<open>getReceivedInvoices\<close> on the same service: the token is cleared.
\<close>

theorem unauthorized_details_keep_session:
  "getInvoiceDetails sample_env (lit ''KSEF-1'') sample_authenticated
     = (None, log_call (GET_invoices_ksef (lit ''KSEF-1'')) sample_authenticated)
   \<and> invoices_ksef sample_env (lit ''KSEF-1'') = Rejected (Some 401)
   \<and> accessToken (snd (getInvoiceDetails sample_env (lit ''KSEF-1'') sample_authenticated))
       = Some (lit ''acc'')
   \<and> isInitialized (snd (getInvoiceDetails sample_env (lit ''KSEF-1'') sample_authenticated))
   \<and> accessToken (snd (getReceivedInvoices sample_unauthorized 10 0 sample_authenticated)) = None"
proof -
  have t: "truthy_str (accessToken sample_authenticated)"
    "accessToken sample_authenticated = Some (lit ''acc'')"
    "isInitialized sample_authenticated"
    by (simp_all add: sample_authenticated_def sample_service_def new_service_def isInitialized_def)
  have e: "encodeURIComponent sample_env (lit ''KSEF-1'') = Some (lit ''KSEF-1'')"
    "invoices_ksef sample_env (lit ''KSEF-1'') = Rejected (Some 401)"
    by (simp_all add: sample_env_def)
  have a: "getInvoiceDetails sample_env (lit ''KSEF-1'') sample_authenticated
     = (None, log_call (GET_invoices_ksef (lit ''KSEF-1'')) sample_authenticated)"
    by (rule getInvoiceDetails_rejected [OF t(1) e])
  have i: "isInitialized (log_call (GET_invoices_ksef (lit ''KSEF-1'')) sample_authenticated)"
    by (simp add: isInitialized_def log_call_def sample_authenticated_def sample_service_def
          new_service_def)
  have p: "getInvoicesByType sample_unauthorized k received 10 0 sample_authenticated = []" for k
    by (simp add: getInvoicesByType_def sample_authenticated_def sample_service_def new_service_def
          sql_page_def order_by_cached_at_desc_def)
  have m: "invoices_query_metadata sample_unauthorized (subjectType received) = Rejected (Some 401)"
    by (simp add: sample_unauthorized_def)
  have l: "accessToken (snd (getReceivedInvoices sample_unauthorized 10 0 sample_authenticated)) = None"
    by (simp add: getReceivedInvoices_def list_unauthorized [OF p p t(3) m])
  show ?thesis using a e(2) t(2) i l by (simp add: log_call_def)
qed

end
